theory Spec2Isabelle
  imports Main "HOL-Library.Word"
begin

unbundle bit_operations_syntax

section \<open>Machine types and conventions\<close>

text \<open>
  The library is written for a little-endian host with 8-bit bytes, 32-bit \<open>int\<close> and
  64-bit \<open>size_t\<close>: every multi-byte read loads the host value and then byte-swaps it
  unconditionally (\<open>GUINT16_SWAP_LE_BE\<close> and friends).  Bytes are \<open>8 word\<close>; a memory
  block is the list of its bytes; a pointer is \<open>Some block\<close> or \<open>None\<close> for \<open>NULL\<close>.
  A C string is a block whose content ends at its first zero byte.

  A C function that can run into undefined behaviour (a read or write outside the block
  it was given) returns \<open>Undefined\<close> in the model; otherwise \<open>Returns v\<close>.
\<close>

type_synonym guint8 = "8 word"
type_synonym guint16 = "16 word"
type_synonym guint32 = "32 word"
type_synonym guint64 = "64 word"

datatype 'a c_run = Undefined | Returns 'a

definition bswap_16 :: "guint16 \<Rightarrow> guint16" where
  "bswap_16 x = (drop_bit 8 x) OR (push_bit 8 x)"

definition bswap_32 :: "guint32 \<Rightarrow> guint32" where
  "bswap_32 x =
     push_bit 24 (x AND 0xff) OR push_bit 8 (x AND 0xff00)
       OR drop_bit 8 (x AND 0xff0000) OR drop_bit 24 (x AND 0xff000000)"

definition bswap_64 :: "guint64 \<Rightarrow> guint64" where
  "bswap_64 x =
     push_bit 56 (x AND 0xff) OR push_bit 40 (x AND 0xff00)
       OR push_bit 24 (x AND 0xff0000) OR push_bit 8 (x AND 0xff000000)
       OR drop_bit 8 (x AND 0xff00000000) OR drop_bit 24 (x AND 0xff0000000000)
       OR drop_bit 40 (x AND 0xff000000000000) OR drop_bit 56 (x AND 0xff00000000000000)"

text \<open>\<open>*(uint16_t *)(p)\<close> and wider loads on the little-endian host.\<close>

definition load_uint16 :: "guint8 list \<Rightarrow> nat \<Rightarrow> guint16" where
  "load_uint16 d p = ucast (d ! p) OR push_bit 8 (ucast (d ! (p + 1)))"

definition load_uint32 :: "guint8 list \<Rightarrow> nat \<Rightarrow> guint32" where
  "load_uint32 d p =
     ucast (d ! p) OR push_bit 8 (ucast (d ! (p + 1)))
       OR push_bit 16 (ucast (d ! (p + 2))) OR push_bit 24 (ucast (d ! (p + 3)))"

definition load_uint64 :: "guint8 list \<Rightarrow> nat \<Rightarrow> guint64" where
  "load_uint64 d p =
     ucast (d ! p) OR push_bit 8 (ucast (d ! (p + 1)))
       OR push_bit 16 (ucast (d ! (p + 2))) OR push_bit 24 (ucast (d ! (p + 3)))
       OR push_bit 32 (ucast (d ! (p + 4))) OR push_bit 40 (ucast (d ! (p + 5)))
       OR push_bit 48 (ucast (d ! (p + 6))) OR push_bit 56 (ucast (d ! (p + 7)))"

text \<open>The bytes \<open>g_byte_array_append (buf, &v, n)\<close> appends for a host value \<open>v\<close>.\<close>

definition store_uint16 :: "guint16 \<Rightarrow> guint8 list" where
  "store_uint16 v = [ucast v, ucast (drop_bit 8 v)]"

definition store_uint32 :: "guint32 \<Rightarrow> guint8 list" where
  "store_uint32 v = [ucast v, ucast (drop_bit 8 v), ucast (drop_bit 16 v), ucast (drop_bit 24 v)]"

definition store_uint64 :: "guint64 \<Rightarrow> guint8 list" where
  "store_uint64 v =
     [ucast v, ucast (drop_bit 8 v), ucast (drop_bit 16 v), ucast (drop_bit 24 v),
      ucast (drop_bit 32 v), ucast (drop_bit 40 v), ucast (drop_bit 48 v), ucast (drop_bit 56 v)]"

definition strlen :: "guint8 list \<Rightarrow> nat" where
  "strlen s = length (takeWhile (\<lambda>c. c \<noteq> 0) s)"

section \<open>GLib's Unicode helpers\<close>

text \<open>
  These functions belong to GLib, not to the repository; they are modelled after GLib's
  reference manual and \<open>gutf8.c\<close>, as far as the callers below depend on them.
\<close>

text \<open>\<open>g_unichar_to_utf8\<close>, also the bytes \<open>g_string_append_unichar\<close> appends.\<close>

definition g_unichar_to_utf8 :: "guint32 \<Rightarrow> guint8 list" where
  "g_unichar_to_utf8 c =
     (if c < 0x80 then [ucast c]
      else if c < 0x800 then
        [ucast (drop_bit 6 c) OR 0xc0, (ucast c AND 0x3f) OR 0x80]
      else if c < 0x10000 then
        [ucast (drop_bit 12 c) OR 0xe0, (ucast (drop_bit 6 c) AND 0x3f) OR 0x80,
         (ucast c AND 0x3f) OR 0x80]
      else if c < 0x200000 then
        [ucast (drop_bit 18 c) OR 0xf0, (ucast (drop_bit 12 c) AND 0x3f) OR 0x80,
         (ucast (drop_bit 6 c) AND 0x3f) OR 0x80, (ucast c AND 0x3f) OR 0x80]
      else if c < 0x4000000 then
        [ucast (drop_bit 24 c) OR 0xf8, (ucast (drop_bit 18 c) AND 0x3f) OR 0x80,
         (ucast (drop_bit 12 c) AND 0x3f) OR 0x80, (ucast (drop_bit 6 c) AND 0x3f) OR 0x80,
         (ucast c AND 0x3f) OR 0x80]
      else
        [ucast (drop_bit 30 c) OR 0xfc, (ucast (drop_bit 24 c) AND 0x3f) OR 0x80,
         (ucast (drop_bit 18 c) AND 0x3f) OR 0x80, (ucast (drop_bit 12 c) AND 0x3f) OR 0x80,
         (ucast (drop_bit 6 c) AND 0x3f) OR 0x80, (ucast c AND 0x3f) OR 0x80])"

text \<open>
  The loop of \<open>g_utf16_to_utf8\<close>: the second argument is the pending high surrogate
  (\<open>0\<close> when there is none).  A low surrogate without a high one, a high surrogate
  followed by anything else, and a high surrogate at the end are errors (\<open>NULL\<close>).
\<close>

fun g_utf16_to_utf8_loop :: "guint16 list \<Rightarrow> guint32 \<Rightarrow> guint8 list option" where
  "g_utf16_to_utf8_loop [] high_surrogate =
     (if high_surrogate \<noteq> 0 then None else Some [])"
| "g_utf16_to_utf8_loop (c # in_rest) high_surrogate =
     (if 0xdc00 \<le> c \<and> c < 0xe000 then
        (if high_surrogate \<noteq> 0 then
           (case g_utf16_to_utf8_loop in_rest 0 of
              None \<Rightarrow> None
            | Some out \<Rightarrow>
                Some (g_unichar_to_utf8
                        ((high_surrogate - 0xd800) * 0x400 + ucast c - 0xdc00 + 0x10000) @ out))
         else None)
      else if high_surrogate \<noteq> 0 then None
      else if 0xd800 \<le> c \<and> c < 0xdc00 then g_utf16_to_utf8_loop in_rest (ucast c)
      else
        (case g_utf16_to_utf8_loop in_rest 0 of
           None \<Rightarrow> None
         | Some out \<Rightarrow> Some (g_unichar_to_utf8 (ucast c) @ out)))"

text \<open>
  \<open>g_utf16_to_utf8 (str, len, NULL, NULL, NULL)\<close>: at most \<open>len\<close> units are read (all
  of them when \<open>len < 0\<close>), and reading stops at the first zero unit.
\<close>

definition g_utf16_to_utf8 :: "guint16 list \<Rightarrow> int \<Rightarrow> guint8 list option" where
  "g_utf16_to_utf8 str n =
     g_utf16_to_utf8_loop
       (takeWhile (\<lambda>u. u \<noteq> 0) (if n < 0 then str else take (nat n) str)) 0"

text \<open>The table \<open>g_utf8_skip\<close> behind \<open>g_utf8_next_char\<close>.\<close>

definition g_utf8_skip :: "guint8 \<Rightarrow> nat" where
  "g_utf8_skip c =
     (if c < 0xc0 then 1 else if c < 0xe0 then 2 else if c < 0xf0 then 3
      else if c < 0xf8 then 4 else if c < 0xfc then 5 else if c < 0xfe then 6 else 1)"

text \<open>
  \<open>UTF8_GET\<close>: fold the continuation bytes into the result; a byte that is not a
  continuation byte (the terminating zero included) gives \<open>(gunichar) -1\<close>.
\<close>

fun UTF8_GET :: "guint32 \<Rightarrow> guint8 list \<Rightarrow> nat \<Rightarrow> guint32" where
  "UTF8_GET result chars 0 = result"
| "UTF8_GET result [] (Suc n) = - 1"
| "UTF8_GET result (c # chars) (Suc n) =
     (if c AND 0xc0 \<noteq> 0x80 then - 1
      else UTF8_GET (push_bit 6 result OR ucast (c AND 0x3f)) chars n)"

definition g_utf8_get_char :: "guint8 list \<Rightarrow> guint32" where
  "g_utf8_get_char p =
     (case p of
        [] \<Rightarrow> - 1
      | c # chars \<Rightarrow>
          (if c < 128 then UTF8_GET (ucast (c AND 0x7f)) chars 0
           else if c AND 0xe0 = 0xc0 then UTF8_GET (ucast (c AND 0x1f)) chars 1
           else if c AND 0xf0 = 0xe0 then UTF8_GET (ucast (c AND 0x0f)) chars 2
           else if c AND 0xf8 = 0xf0 then UTF8_GET (ucast (c AND 0x07)) chars 3
           else if c AND 0xfc = 0xf8 then UTF8_GET (ucast (c AND 0x03)) chars 4
           else if c AND 0xfe = 0xfc then UTF8_GET (ucast (c AND 0x01)) chars 5
           else - 1))"

text \<open>\<open>g_string_append (string, val)\<close> appends the C string \<open>val\<close>.\<close>

definition g_string_append :: "guint8 list \<Rightarrow> guint8 list \<Rightarrow> guint8 list" where
  "g_string_append string val = string @ takeWhile (\<lambda>c. c \<noteq> 0) val"

definition g_string_append_unichar :: "guint8 list \<Rightarrow> guint32 \<Rightarrow> guint8 list" where
  "g_string_append_unichar string wc = string @ g_unichar_to_utf8 wc"

section \<open>The byte reader (\<open>nbt_parse.c\<close>)\<close>

text \<open>
  \<open>NBT_Buffer\<close> as in the source.  \<open>data\<close> is \<open>None\<close> for a \<open>NULL\<close> pointer, which is what
  \<open>g_new0 (guint8, 0)\<close> returns.  Sums of \<open>size_t\<close> values are natural numbers: \<open>pos\<close> never
  exceeds \<open>len\<close>, so they cannot wrap for buffers shorter than \<open>2^63\<close> bytes.
\<close>

record NBT_Buffer =
  data :: "guint8 list option"
  len :: nat
  pos :: nat

definition block :: "NBT_Buffer \<Rightarrow> guint8 list" where
  "block buffer = (case data buffer of None \<Rightarrow> [] | Some d \<Rightarrow> d)"

text \<open>
  The readers return \<open>None\<close> where the C function returns \<open>0\<close> (no byte consumed), and
  the value read with the advanced buffer otherwise.
\<close>

definition LIBNBT_getUint8 :: "NBT_Buffer \<Rightarrow> (guint8 \<times> NBT_Buffer) option" where
  "LIBNBT_getUint8 buffer =
     (if pos buffer + 1 > len buffer then None
      else Some (block buffer ! pos buffer, buffer\<lparr>pos := pos buffer + 1\<rparr>))"

definition LIBNBT_getUint16 :: "NBT_Buffer \<Rightarrow> (guint16 \<times> NBT_Buffer) option" where
  "LIBNBT_getUint16 buffer =
     (if pos buffer + 2 > len buffer then None
      else Some (bswap_16 (load_uint16 (block buffer) (pos buffer)),
                 buffer\<lparr>pos := pos buffer + 2\<rparr>))"

definition LIBNBT_getUint32 :: "NBT_Buffer \<Rightarrow> (guint32 \<times> NBT_Buffer) option" where
  "LIBNBT_getUint32 buffer =
     (if pos buffer + 4 > len buffer then None
      else Some (bswap_32 (load_uint32 (block buffer) (pos buffer)),
                 buffer\<lparr>pos := pos buffer + 4\<rparr>))"

definition LIBNBT_getUint64 :: "NBT_Buffer \<Rightarrow> (guint64 \<times> NBT_Buffer) option" where
  "LIBNBT_getUint64 buffer =
     (if pos buffer + 8 > len buffer then None
      else Some (bswap_64 (load_uint64 (block buffer) (pos buffer)),
                 buffer\<lparr>pos := pos buffer + 8\<rparr>))"

text \<open>
  \<open>LIBNBT_getKey\<close>: the result is \<open>NULL\<close> for a zero length, and otherwise the freshly
  allocated block of \<open>len + 1\<close> bytes (the name and a terminating zero).
\<close>

definition LIBNBT_getKey :: "NBT_Buffer \<Rightarrow> (guint8 list option \<times> NBT_Buffer) option" where
  "LIBNBT_getKey buffer =
     (case LIBNBT_getUint16 buffer of
        None \<Rightarrow> None
      | Some (n, buffer1) \<Rightarrow>
          (if n = 0 then Some (None, buffer1)
           else if pos buffer1 + unat n > len buffer1 then None
           else Some (Some (take (unat n) (drop (pos buffer1) (block buffer1)) @ [0]),
                      buffer1\<lparr>pos := pos buffer1 + unat n\<rparr>)))"

section \<open>Modified UTF-8 (\<open>nbt_parse.c\<close>, \<open>nbt.c\<close>)\<close>

definition skip_len :: "guint8 \<Rightarrow> nat" where
  "skip_len c =
     (if sint c > 0 then 1
      else if c AND 0xe0 = 0xe0 then 3
      else if c AND 0xc0 = 0xc0 then 2
      else 0)"

text \<open>
  The loop of \<open>convert_string\<close>.  The first argument is the block from \<open>str\<close> on, the
  second the number of free slots of \<open>utf16\<close> from index \<open>i\<close> on, the third the units
  stored so far.  The result is \<open>Returns None\<close> for the early \<open>return NULL\<close>, and
  \<open>Undefined\<close> when the loop reads behind the block or writes behind \<open>utf16\<close>.
\<close>

fun convert_string_loop ::
  "guint8 list \<Rightarrow> nat \<Rightarrow> guint16 list \<Rightarrow> guint16 list option c_run" where
  "convert_string_loop [] slots utf16 = Undefined"
| "convert_string_loop (c # str) slots utf16 =
     (if c = 0 then (if slots = 0 then Undefined else Returns (Some (utf16 @ [0])))
      else if skip_len c = 1 then
        (if slots = 0 then Undefined
         else convert_string_loop str (slots - 1) (utf16 @ [ucast c]))
      else if skip_len c = 2 then
        (case str of
           [] \<Rightarrow> Undefined
         | c1 # str1 \<Rightarrow>
             (if slots = 0 then Undefined
              else convert_string_loop str1 (slots - 1)
                     (utf16 @ [push_bit 6 (ucast (c AND 0x1f)) + ucast (c1 AND 0x3f)])))
      else if skip_len c = 3 then
        (case str of
           c1 # c2 # str2 \<Rightarrow>
             (if slots = 0 then Undefined
              else convert_string_loop str2 (slots - 1)
                     (utf16 @ [push_bit 12 (ucast (c AND 0xf)) + push_bit 6 (ucast (c1 AND 0x3f))
                                 + ucast (c2 AND 0x3f)]))
         | _ \<Rightarrow> Undefined)
      else Returns None)"

definition convert_string :: "guint8 list option \<Rightarrow> nat \<Rightarrow> guint8 list option c_run" where
  "convert_string str n =
     (case str of
        None \<Rightarrow> Returns None
      | Some s \<Rightarrow>
          (case convert_string_loop s (n + 1) [] of
             Undefined \<Rightarrow> Undefined
           | Returns None \<Rightarrow> Returns None
           | Returns (Some utf16) \<Rightarrow> Returns (g_utf16_to_utf8 utf16 (int n))))"

text \<open>
  The loop of \<open>convert_string_to_mutf8\<close> over the block from \<open>str\<close> on; the second
  argument is the \<open>GString\<close> built so far.
\<close>

fun convert_string_to_mutf8_loop :: "guint8 list \<Rightarrow> guint8 list \<Rightarrow> guint8 list c_run" where
  "convert_string_to_mutf8_loop [] string = Undefined"
| "convert_string_to_mutf8_loop (b # str) string =
     (if b = 0 then Returns string
      else
        (let c = g_utf8_get_char (b # str);
             string1 =
               (if c < 65536 then g_string_append_unichar string c
                else
                  (let c = c - 0x10000;
                       hi = (push_bit 20 1 - 1 - (push_bit 10 1 - 1) :: guint32);
                       hipos = drop_bit 10 (c AND hi);
                       mid3 = (0x3c0 :: guint32);
                       mid4 = (0x3f :: guint32);
                       temp0 = (0xed :: guint8);
                       temp1 = (ucast (0xa0 + (hipos AND mid3)) :: guint8);
                       temp2 = (ucast (0x80 + (hipos AND mid4)) :: guint8);
                       temp3 = temp0;
                       temp4 = (ucast (0xb0 + (c AND mid3)) :: guint8);
                       temp5 = (ucast (0x80 + (c AND mid4)) :: guint8)
                   in g_string_append string [temp0, temp1, temp2, temp3, temp4, temp5, 0]))
         in convert_string_to_mutf8_loop (drop (g_utf8_skip b - 1) str) string1))"

definition convert_string_to_mutf8 :: "guint8 list option \<Rightarrow> guint8 list option c_run" where
  "convert_string_to_mutf8 str =
     (case str of
        None \<Rightarrow> Returns None
      | Some s \<Rightarrow>
          (case convert_string_to_mutf8_loop s [] of
             Undefined \<Rightarrow> Undefined
           | Returns string \<Rightarrow> Returns (Some string)))"

section \<open>The tag tree (\<open>nbt_parse.h\<close>)\<close>

text \<open>\<open>NBT_Tags\<close>: the enumeration is kept as its integer value, since the decoder also
  stores bytes read from the input that are no enumerator.\<close>

abbreviation (input) TAG_End :: nat where "TAG_End \<equiv> 0"
abbreviation (input) TAG_Byte :: nat where "TAG_Byte \<equiv> 1"
abbreviation (input) TAG_Short :: nat where "TAG_Short \<equiv> 2"
abbreviation (input) TAG_Int :: nat where "TAG_Int \<equiv> 3"
abbreviation (input) TAG_Long :: nat where "TAG_Long \<equiv> 4"
abbreviation (input) TAG_Float :: nat where "TAG_Float \<equiv> 5"
abbreviation (input) TAG_Double :: nat where "TAG_Double \<equiv> 6"
abbreviation (input) TAG_Byte_Array :: nat where "TAG_Byte_Array \<equiv> 7"
abbreviation (input) TAG_String :: nat where "TAG_String \<equiv> 8"
abbreviation (input) TAG_List :: nat where "TAG_List \<equiv> 9"
abbreviation (input) TAG_Compound :: nat where "TAG_Compound \<equiv> 10"
abbreviation (input) TAG_Int_Array :: nat where "TAG_Int_Array \<equiv> 11"
abbreviation (input) TAG_Long_Array :: nat where "TAG_Long_Array \<equiv> 12"

datatype NbtGlibParseError =
  NBT_GLIB_PARSE_ERROR_INTERRUPTED
| NBT_GLIB_PARSE_ERROR_UNCOMPRESS_ERROR
| NBT_GLIB_PARSE_ERROR_LEFTOVER_DATA
| NBT_GLIB_PARSE_ERROR_INTERNAL
| NBT_GLIB_PARSE_ERROR_CANCELLED
| NBT_GLIB_PARSE_ERROR_INVALID_TAG

text \<open>What \<open>void *value\<close> of \<open>value_a\<close> points to: nothing, or an array of bytes, of 32-bit
  or of 64-bit integers, or a C string (its content, without the terminating zero).\<close>

datatype array_ptr =
  NULL_array
| Bytes "guint8 list"
| Ints "guint32 list"
| Longs "guint64 list"
| Chars "guint8 list"

text \<open>
  \<open>NbtData\<close>.  The C union of \<open>value_i\<close>, \<open>value_d\<close> and \<open>value_a\<close> is a record with one
  field for each member: the library reads only the member that the \<open>type\<close> selects, which
  is the member it wrote.  \<open>value_i\<close> is the \<open>int64_t\<close> as a 64-bit word (\<open>sint\<close> reads it);
  \<open>value_d\<close> is the bit pattern of the \<open>double\<close>; \<open>key\<close> is the content of the C string.
\<close>

record NbtData =
  type :: nat
  key :: "guint8 list option"
  value_i :: guint64
  value_d :: guint64
  value_a_value :: array_ptr
  value_a_len :: guint32

text \<open>\<open>NbtNode\<close> is a \<open>GNode\<close>: the data and the children in order.\<close>

datatype NbtNode = GNode (node_data: NbtData) (node_children: "NbtNode list")

definition g_new0_NbtData :: NbtData where
  "g_new0_NbtData =
     \<lparr>type = 0, key = None, value_i = 0, value_d = 0, value_a_value = NULL_array,
      value_a_len = 0\<rparr>"

definition create_nbt :: "nat \<Rightarrow> NbtNode" where
  "create_nbt tag = GNode (g_new0_NbtData\<lparr>type := tag\<rparr>) []"

section \<open>The decoder (\<open>nbt_parse.c\<close>)\<close>

text \<open>
  The result of a run of the decoder: \<open>Done\<close> for the return value \<open>0\<close>, \<open>Failed\<close> with the
  code of the \<open>GError\<close> for the return value \<open>1\<close>, \<open>UB\<close> when a string conversion ran into
  undefined behaviour, and \<open>OutOfFuel\<close> when the recursion bound of the model was too small.
\<close>

datatype 'a result = OutOfFuel | UB | Failed NbtGlibParseError | Done 'a

definition isValidTag :: "nat \<Rightarrow> bool" where
  "isValidTag tag \<longleftrightarrow> tag > TAG_End \<and> tag \<le> TAG_Long_Array"

text \<open>\<open>parse_value\<close>, the part that reads the tag of a node created with \<open>TAG_End\<close>.\<close>

definition parse_value_tag :: "NbtData \<Rightarrow> NBT_Buffer \<Rightarrow> (nat \<times> NbtData \<times> NBT_Buffer) result" where
  "parse_value_tag d buffer =
     (if type d = TAG_End then
        (case LIBNBT_getUint8 buffer of
           None \<Rightarrow> Failed NBT_GLIB_PARSE_ERROR_INTERRUPTED
         | Some (tag, buffer1) \<Rightarrow>
             (if \<not> isValidTag (unat tag) then Failed NBT_GLIB_PARSE_ERROR_INVALID_TAG
              else Done (unat tag, d\<lparr>type := unat tag\<rparr>, buffer1)))
      else Done (type d, d, buffer))"

text \<open>\<open>parse_value\<close>, the part under \<open>if (!skipkey)\<close>.\<close>

definition parse_value_key :: "bool \<Rightarrow> NbtData \<Rightarrow> NBT_Buffer \<Rightarrow> (NbtData \<times> NBT_Buffer) result" where
  "parse_value_key skipkey d buffer =
     (if skipkey then Done (d, buffer)
      else
        (case LIBNBT_getKey buffer of
           None \<Rightarrow> Failed NBT_GLIB_PARSE_ERROR_INTERRUPTED
         | Some (None, buffer1) \<Rightarrow> Done (d\<lparr>key := None\<rparr>, buffer1)
         | Some (Some k, buffer1) \<Rightarrow>
             (case convert_string (Some k) (strlen k) of
                Undefined \<Rightarrow> UB
              | Returns None \<Rightarrow> Failed NBT_GLIB_PARSE_ERROR_INTERRUPTED
              | Returns (Some new_key) \<Rightarrow> Done (d\<lparr>key := Some new_key\<rparr>, buffer1))))"

text \<open>
  \<open>parse_value\<close>, the cases of the \<open>switch\<close> that do not recurse.  \<open>float_to_double\<close> is
  the conversion of the hardware in \<open>data->value_d = value\<close> for a \<open>float\<close>, on bit patterns.
  \<open>g_new0\<close> returns \<open>NULL\<close> for zero elements.  The products \<open>len * 4\<close> and \<open>len * 8\<close> are
  32-bit; the elements of the array behind the copied bytes stay zero.
\<close>

definition parse_value_payload ::
  "(guint32 \<Rightarrow> guint64) \<Rightarrow> nat \<Rightarrow> NbtData \<Rightarrow> NBT_Buffer \<Rightarrow> (NbtData \<times> NBT_Buffer) result" where
  "parse_value_payload float_to_double tag d buffer =
     (if tag = TAG_Byte then
        (case LIBNBT_getUint8 buffer of
           None \<Rightarrow> Failed NBT_GLIB_PARSE_ERROR_INTERRUPTED
         | Some (v, buffer1) \<Rightarrow> Done (d\<lparr>value_i := ucast v\<rparr>, buffer1))
      else if tag = TAG_Short then
        (case LIBNBT_getUint16 buffer of
           None \<Rightarrow> Failed NBT_GLIB_PARSE_ERROR_INTERRUPTED
         | Some (v, buffer1) \<Rightarrow> Done (d\<lparr>value_i := ucast v\<rparr>, buffer1))
      else if tag = TAG_Int then
        (case LIBNBT_getUint32 buffer of
           None \<Rightarrow> Failed NBT_GLIB_PARSE_ERROR_INTERRUPTED
         | Some (v, buffer1) \<Rightarrow> Done (d\<lparr>value_i := ucast v\<rparr>, buffer1))
      else if tag = TAG_Long then
        (case LIBNBT_getUint64 buffer of
           None \<Rightarrow> Failed NBT_GLIB_PARSE_ERROR_INTERRUPTED
         | Some (v, buffer1) \<Rightarrow> Done (d\<lparr>value_i := v\<rparr>, buffer1))
      else if tag = TAG_Float then
        (case LIBNBT_getUint32 buffer of
           None \<Rightarrow> Failed NBT_GLIB_PARSE_ERROR_INTERRUPTED
         | Some (v, buffer1) \<Rightarrow> Done (d\<lparr>value_d := float_to_double v\<rparr>, buffer1))
      else if tag = TAG_Double then
        (case LIBNBT_getUint64 buffer of
           None \<Rightarrow> Failed NBT_GLIB_PARSE_ERROR_INTERRUPTED
         | Some (v, buffer1) \<Rightarrow> Done (d\<lparr>value_d := v\<rparr>, buffer1))
      else if tag = TAG_Byte_Array then
        (case LIBNBT_getUint32 buffer of
           None \<Rightarrow> Failed NBT_GLIB_PARSE_ERROR_INTERRUPTED
         | Some (n, buffer1) \<Rightarrow>
             (if pos buffer1 + unat n > len buffer1 then Failed NBT_GLIB_PARSE_ERROR_INTERRUPTED
              else Done
                (d\<lparr>value_a_len := n,
                   value_a_value :=
                     (if n = 0 then NULL_array
                      else Bytes (take (unat n) (drop (pos buffer1) (block buffer1))))\<rparr>,
                 buffer1\<lparr>pos := pos buffer1 + unat n\<rparr>)))
      else if tag = TAG_String then
        (case LIBNBT_getUint16 buffer of
           None \<Rightarrow> Failed NBT_GLIB_PARSE_ERROR_INTERRUPTED
         | Some (n, buffer1) \<Rightarrow>
             (if pos buffer1 + unat n > len buffer1 then Failed NBT_GLIB_PARSE_ERROR_INTERRUPTED
              else
                (let v = take (unat n) (drop (pos buffer1) (block buffer1)) @ [0]
                 in case convert_string (Some v) (strlen v) of
                      Undefined \<Rightarrow> UB
                    | Returns None \<Rightarrow> Failed NBT_GLIB_PARSE_ERROR_INTERRUPTED
                    | Returns (Some new_value) \<Rightarrow>
                        Done (d\<lparr>value_a_len := ucast n + 1, value_a_value := Chars new_value\<rparr>,
                              buffer1\<lparr>pos := pos buffer1 + unat n\<rparr>))))
      else if tag = TAG_Int_Array then
        (case LIBNBT_getUint32 buffer of
           None \<Rightarrow> Failed NBT_GLIB_PARSE_ERROR_INTERRUPTED
         | Some (n, buffer1) \<Rightarrow>
             (if pos buffer1 + unat (n * 4) > len buffer1 then
                Failed NBT_GLIB_PARSE_ERROR_INTERRUPTED
              else Done
                (d\<lparr>value_a_len := n,
                   value_a_value :=
                     (if n = 0 then NULL_array
                      else Ints (map (\<lambda>i. if 4 * i < unat (n * 4)
                                           then bswap_32 (load_uint32 (block buffer1)
                                                            (pos buffer1 + 4 * i))
                                           else bswap_32 0) [0..<unat n]))\<rparr>,
                 buffer1\<lparr>pos := pos buffer1 + unat (n * 4)\<rparr>)))
      else if tag = TAG_Long_Array then
        (case LIBNBT_getUint32 buffer of
           None \<Rightarrow> Failed NBT_GLIB_PARSE_ERROR_INTERRUPTED
         | Some (n, buffer1) \<Rightarrow>
             (if pos buffer1 + unat (n * 8) > len buffer1 then
                Failed NBT_GLIB_PARSE_ERROR_INTERRUPTED
              else Done
                (d\<lparr>value_a_len := n,
                   value_a_value :=
                     (if n = 0 then NULL_array
                      else Longs (map (\<lambda>i. if 8 * i < unat (n * 8)
                                            then bswap_64 (load_uint64 (block buffer1)
                                                             (pos buffer1 + 8 * i))
                                            else bswap_64 0) [0..<unat n]))\<rparr>,
                 buffer1\<lparr>pos := pos buffer1 + unat (n * 8)\<rparr>)))
      else Failed NBT_GLIB_PARSE_ERROR_INTERRUPTED)"

text \<open>\<open>parse_value\<close>, the head of the \<open>TAG_List\<close> case: element type and length.\<close>

definition parse_value_list_head :: "NBT_Buffer \<Rightarrow> (nat \<times> nat \<times> NBT_Buffer) result" where
  "parse_value_list_head buffer =
     (case LIBNBT_getUint8 buffer of
        None \<Rightarrow> Failed NBT_GLIB_PARSE_ERROR_INTERRUPTED
      | Some (list_type, buffer1) \<Rightarrow>
          (case LIBNBT_getUint32 buffer1 of
             None \<Rightarrow> Failed NBT_GLIB_PARSE_ERROR_INTERRUPTED
           | Some (n, buffer2) \<Rightarrow>
               (if unat list_type = TAG_End \<and> n \<noteq> 0 then
                  Failed NBT_GLIB_PARSE_ERROR_INVALID_TAG
                else Done (unat list_type, unat n, buffer2))))"

text \<open>\<open>if (ret) return ret;\<close>: a run that did not end with \<open>0\<close> ends the caller too.\<close>

definition on_success :: "'a result \<Rightarrow> ('a \<Rightarrow> 'b result) \<Rightarrow> 'b result" where
  "on_success r f =
     (case r of OutOfFuel \<Rightarrow> OutOfFuel | UB \<Rightarrow> UB | Failed e \<Rightarrow> Failed e | Done x \<Rightarrow> f x)"

text \<open>
  \<open>parse_value\<close> with its two loops.  The first argument bounds the depth of the
  recursion (the C function has no such bound; \<open>nbt_node_new_opt\<close> below supplies one that
  is never reached).  \<open>cancelled\<close> is what \<open>g_cancellable_is_cancelled\<close> answers.  The
  progress callback only reports and is left out.  The node arrives as its \<open>NbtData\<close>
  (it has no children yet) and is returned completed.  The counter \<open>i\<close> of the list loop
  is an \<open>int\<close> compared with the \<open>uint32_t\<close> length as unsigned; every element consumes
  at least one byte, so \<open>i\<close> stays below the buffer length and is a natural number here.
\<close>

fun parse_value ::
  "nat \<Rightarrow> bool \<Rightarrow> (guint32 \<Rightarrow> guint64) \<Rightarrow> NbtData \<Rightarrow> NBT_Buffer \<Rightarrow> bool
     \<Rightarrow> (NbtNode \<times> NBT_Buffer) result"
and parse_value_list ::
  "nat \<Rightarrow> bool \<Rightarrow> (guint32 \<Rightarrow> guint64) \<Rightarrow> nat \<Rightarrow> nat \<Rightarrow> nat \<Rightarrow> NbtNode list \<Rightarrow> NBT_Buffer
     \<Rightarrow> (NbtNode list \<times> NBT_Buffer) result"
and parse_value_compound ::
  "nat \<Rightarrow> bool \<Rightarrow> (guint32 \<Rightarrow> guint64) \<Rightarrow> NbtNode list \<Rightarrow> NBT_Buffer
     \<Rightarrow> (NbtNode list \<times> NBT_Buffer) result"
where
  "parse_value 0 cancelled float_to_double d buffer skipkey = OutOfFuel"
| "parse_value (Suc fuel) cancelled float_to_double d buffer skipkey =
     (if data buffer = None then Failed NBT_GLIB_PARSE_ERROR_INTERNAL
      else if cancelled then Failed NBT_GLIB_PARSE_ERROR_CANCELLED
      else
        on_success (parse_value_tag d buffer) (\<lambda>(tag, d1, buffer1).
        on_success (parse_value_key skipkey d1 buffer1) (\<lambda>(d2, buffer2).
          if tag = TAG_List then
            on_success (parse_value_list_head buffer2) (\<lambda>(list_type, n, buffer3).
            on_success (parse_value_list fuel cancelled float_to_double list_type 0 n []
                          buffer3) (\<lambda>(children, buffer4).
              Done (GNode d2 children, buffer4)))
          else if tag = TAG_Compound then
            on_success (parse_value_compound fuel cancelled float_to_double [] buffer2)
              (\<lambda>(children, buffer3). Done (GNode d2 children, buffer3))
          else
            on_success (parse_value_payload float_to_double tag d2 buffer2)
              (\<lambda>(d3, buffer3). Done (GNode d3 [], buffer3)))))"
| "parse_value_list 0 cancelled float_to_double list_type i n children buffer = OutOfFuel"
| "parse_value_list (Suc fuel) cancelled float_to_double list_type i n children buffer =
     (if i < n then
        on_success (parse_value fuel cancelled float_to_double
                      (node_data (create_nbt list_type)) buffer True) (\<lambda>(child, buffer1).
          parse_value_list fuel cancelled float_to_double list_type (i + 1) n
            (children @ [child]) buffer1)
      else Done (children, buffer))"
| "parse_value_compound 0 cancelled float_to_double children buffer = OutOfFuel"
| "parse_value_compound (Suc fuel) cancelled float_to_double children buffer =
     (case LIBNBT_getUint8 buffer of
        None \<Rightarrow> Failed NBT_GLIB_PARSE_ERROR_INTERRUPTED
      | Some (list_type, buffer1) \<Rightarrow>
          (if list_type = 0 then Done (children, buffer1)
           else
             on_success (parse_value fuel cancelled float_to_double
                           (node_data (create_nbt (unat list_type))) buffer1 False)
               (\<lambda>(child, buffer2).
                  parse_value_compound fuel cancelled float_to_double (children @ [child])
                    buffer2)))"

declare parse_value.simps [simp del]
declare parse_value_list.simps [simp del]
declare parse_value_compound.simps [simp del]

text \<open>
  \<open>init_buffer (uint8_t *data, int length)\<close>: the length passes through an \<open>int\<close>
  parameter and comes back as a \<open>size_t\<close>.
\<close>

definition init_buffer :: "guint8 list option \<Rightarrow> nat \<Rightarrow> NBT_Buffer" where
  "init_buffer d n = \<lparr>data = d, len = nat (signed_take_bit 31 (int n) mod 2 ^ 64), pos = 0\<rparr>"

datatype GZlibCompressorFormat =
  G_ZLIB_COMPRESSOR_FORMAT_ZLIB
| G_ZLIB_COMPRESSOR_FORMAT_GZIP
| G_ZLIB_COMPRESSOR_FORMAT_RAW

text \<open>A \<open>GError\<close>: one of the decoder's own codes, or the error of GLib's converter.\<close>

datatype GError = NBT_GLIB_PARSE_ERROR NbtGlibParseError | G_IO_ERROR

text \<open>
  \<open>nbt_node_new_opt\<close>, the part up to \<open>create_nbt\<close>: the buffer that is parsed, or the
  early \<open>return NULL\<close> with the \<open>GError\<close> left in \<open>*err\<close>.  \<open>dat\<close> is the block that \<open>data\<close>
  points to and \<open>n\<close> the argument \<open>length\<close>.  The \<open>zlib\<close> loop is not modelled:
  \<open>decompress\<close> stands for it, giving the decompressed bytes or \<open>None\<close> for a converter
  error; a cancelled run leaves that loop at once and returns \<open>NULL\<close> with no error set.
  Without compression the bytes are copied into \<open>g_new0 (guint8, length)\<close>.
\<close>

definition nbt_node_new_opt_buffer ::
  "bool \<Rightarrow> (GZlibCompressorFormat \<Rightarrow> guint8 list \<Rightarrow> guint8 list option)
     \<Rightarrow> guint8 list \<Rightarrow> nat \<Rightarrow> GError option + NBT_Buffer" where
  "nbt_node_new_opt_buffer cancelled decompress dat n =
     (let format =
            (if n > 1 \<and> dat ! 0 = 0x1f \<and> dat ! 1 = 0x8b then Some G_ZLIB_COMPRESSOR_FORMAT_GZIP
             else if dat ! 0 = 0x78 then Some G_ZLIB_COMPRESSOR_FORMAT_ZLIB
             else None)
      in case format of
           Some f \<Rightarrow>
             (if cancelled then Inl None
              else
                (case decompress f (take n dat) of
                   None \<Rightarrow> Inl (Some G_IO_ERROR)
                 | Some out \<Rightarrow> Inr (init_buffer (Some out) (length out))))
         | None \<Rightarrow> Inr (init_buffer (if n = 0 then None else Some (take n dat)) n))"

text \<open>
  \<open>nbt_node_new_opt\<close>.  The function reads \<open>data[0]\<close> whatever the length is, and reads
  \<open>length\<close> bytes, so an empty block or one shorter than \<open>length\<close> is undefined
  behaviour.  The result is the returned node and the \<open>GError\<close> left in \<open>*err\<close> (\<open>err\<close> is
  taken to be non-\<open>NULL\<close> and \<open>*err\<close> to be \<open>NULL\<close> at the call).  The bound of the
  recursion is \<open>3 * len + 2\<close>.
\<close>

definition nbt_node_new_opt ::
  "bool \<Rightarrow> (guint32 \<Rightarrow> guint64) \<Rightarrow> (GZlibCompressorFormat \<Rightarrow> guint8 list \<Rightarrow> guint8 list option)
     \<Rightarrow> guint8 list \<Rightarrow> nat \<Rightarrow> (NbtNode option \<times> GError option) result" where
  "nbt_node_new_opt cancelled float_to_double decompress dat n =
     (if dat = [] \<or> length dat < n then UB
      else
        (case nbt_node_new_opt_buffer cancelled decompress dat n of
           Inl e \<Rightarrow> Done (None, e)
         | Inr buffer \<Rightarrow>
             (case parse_value (3 * len buffer + 2) cancelled float_to_double
                     (node_data (create_nbt TAG_End)) buffer False of
                OutOfFuel \<Rightarrow> OutOfFuel
              | UB \<Rightarrow> UB
              | Failed e \<Rightarrow> Done (None, Some (NBT_GLIB_PARSE_ERROR e))
              | Done (root, buffer1) \<Rightarrow>
                  (if pos buffer1 \<noteq> len buffer1 then
                     Done (Some root,
                           Some (NBT_GLIB_PARSE_ERROR NBT_GLIB_PARSE_ERROR_LEFTOVER_DATA))
                   else Done (Some root, None)))))"

text \<open>
  The same buffer with only its first \<open>k\<close> bytes: what the decoder holds when it is
  given a prefix of the input.  The cursor is kept.
\<close>

definition cut :: "nat \<Rightarrow> NBT_Buffer \<Rightarrow> NBT_Buffer" where
  "cut k buffer = buffer\<lparr>data := map_option (take k) (data buffer), len := k\<rparr>"

section \<open>The encoder (\<open>nbt.c\<close>)\<close>

text \<open>The \<open>GByteArray\<close> is the list of the bytes appended so far.\<close>

definition nbt_node_write_uint8_to_gbytearray :: "guint8 list \<Rightarrow> guint8 \<Rightarrow> guint8 list" where
  "nbt_node_write_uint8_to_gbytearray buf v = buf @ [v]"

definition nbt_node_write_uint16_to_gbytearray :: "guint8 list \<Rightarrow> guint16 \<Rightarrow> guint8 list" where
  "nbt_node_write_uint16_to_gbytearray buf v = buf @ store_uint16 (bswap_16 v)"

definition nbt_node_write_uint32_to_gbytearray :: "guint8 list \<Rightarrow> guint32 \<Rightarrow> guint8 list" where
  "nbt_node_write_uint32_to_gbytearray buf v = buf @ store_uint32 (bswap_32 v)"

definition nbt_node_write_uint64_to_gbytearray :: "guint8 list \<Rightarrow> guint64 \<Rightarrow> guint8 list" where
  "nbt_node_write_uint64_to_gbytearray buf v = buf @ store_uint64 (bswap_64 v)"

text \<open>The loop \<open>for (i = 0; i < len; i++) write_uint8 (buf, s[i])\<close>.\<close>

definition write_bytes :: "guint8 list \<Rightarrow> guint8 list \<Rightarrow> guint8 list" where
  "write_bytes buf bs = foldl nbt_node_write_uint8_to_gbytearray buf bs"

text \<open>
  \<open>nbt_node_write_key_to_gbytearray\<close>.  The key is stored as its content; the C string
  handed to \<open>convert_string_to_mutf8\<close> is the content and the terminating zero.
\<close>

definition nbt_node_write_key_to_gbytearray ::
  "guint8 list \<Rightarrow> guint8 list option \<Rightarrow> nat \<Rightarrow> guint8 list c_run" where
  "nbt_node_write_key_to_gbytearray buf k t =
     (let buf1 = nbt_node_write_uint8_to_gbytearray buf (of_nat t)
      in if k \<noteq> None \<and> k \<noteq> Some [] then
           (case convert_string_to_mutf8 (map_option (\<lambda>s. s @ [0]) k) of
              Undefined \<Rightarrow> Undefined
            | Returns None \<Rightarrow> Undefined
            | Returns (Some new_key) \<Rightarrow>
                (let n = strlen new_key;
                     buf2 = nbt_node_write_uint16_to_gbytearray buf1 (of_nat n)
                 in Returns (write_bytes buf2 (take n new_key))))
         else Returns (nbt_node_write_uint16_to_gbytearray buf1 0))"

definition nbt_node_write_number_to_gbytearray :: "guint8 list \<Rightarrow> guint64 \<Rightarrow> nat \<Rightarrow> guint8 list" where
  "nbt_node_write_number_to_gbytearray buf v t =
     (if t = TAG_Byte then nbt_node_write_uint8_to_gbytearray buf (ucast v)
      else if t = TAG_Short then nbt_node_write_uint16_to_gbytearray buf (ucast v)
      else if t = TAG_Int then nbt_node_write_uint32_to_gbytearray buf (ucast v)
      else if t = TAG_Long then nbt_node_write_uint64_to_gbytearray buf v
      else buf)"

text \<open>The arguments are the bit patterns of the \<open>float\<close> and of the \<open>double\<close>.\<close>

definition nbt_node_write_float_to_gbytearray :: "guint8 list \<Rightarrow> guint32 \<Rightarrow> guint8 list" where
  "nbt_node_write_float_to_gbytearray buf v =
     (let val = bswap_32 v in nbt_node_write_uint32_to_gbytearray buf val)"

definition nbt_node_write_double_to_gbytearray :: "guint8 list \<Rightarrow> guint64 \<Rightarrow> guint8 list" where
  "nbt_node_write_double_to_gbytearray buf v =
     (let val = bswap_64 v in nbt_node_write_uint64_to_gbytearray buf val)"

text \<open>\<open>double_to_float\<close> is the conversion of the hardware at the call with a \<open>float\<close>
  parameter, on bit patterns.\<close>

definition nbt_node_write_point_to_gbytearray ::
  "(guint64 \<Rightarrow> guint32) \<Rightarrow> guint8 list \<Rightarrow> guint64 \<Rightarrow> nat \<Rightarrow> guint8 list" where
  "nbt_node_write_point_to_gbytearray double_to_float buf v t =
     (if t = TAG_Float then nbt_node_write_float_to_gbytearray buf (double_to_float v)
      else if t = TAG_Double then nbt_node_write_double_to_gbytearray buf v
      else buf)"

text \<open>
  \<open>nbt_node_write_array_to_gbytearray\<close>: \<open>len\<close> is an \<open>int32_t\<close>, so a negative length
  writes no element.  Reading more elements than the array has, or an array of another
  element type, is undefined behaviour.
\<close>

definition nbt_node_write_array_to_gbytearray ::
  "guint8 list \<Rightarrow> array_ptr \<Rightarrow> guint32 \<Rightarrow> nat \<Rightarrow> guint8 list c_run" where
  "nbt_node_write_array_to_gbytearray arr v n t =
     (let arr1 = nbt_node_write_uint32_to_gbytearray arr n; k = nat (sint n)
      in if t = TAG_Byte_Array then
           (case v of
              Bytes bs \<Rightarrow>
                if k \<le> length bs then Returns (write_bytes arr1 (take k bs)) else Undefined
            | _ \<Rightarrow> if k = 0 then Returns arr1 else Undefined)
         else if t = TAG_Int_Array then
           (case v of
              Ints ws \<Rightarrow>
                if k \<le> length ws
                then Returns (foldl nbt_node_write_uint32_to_gbytearray arr1 (take k ws))
                else Undefined
            | _ \<Rightarrow> if k = 0 then Returns arr1 else Undefined)
         else if t = TAG_Long_Array then
           (case v of
              Longs ws \<Rightarrow>
                if k \<le> length ws
                then Returns (foldl nbt_node_write_uint64_to_gbytearray arr1 (take k ws))
                else Undefined
            | _ \<Rightarrow> if k = 0 then Returns arr1 else Undefined)
         else Returns arr1)"

definition nbt_node_write_string_to_gbytearray :: "guint8 list \<Rightarrow> array_ptr \<Rightarrow> guint8 list c_run" where
  "nbt_node_write_string_to_gbytearray arr v =
     (case v of
        Chars str \<Rightarrow>
          (case convert_string_to_mutf8 (Some (str @ [0])) of
             Undefined \<Rightarrow> Undefined
           | Returns None \<Rightarrow> Undefined
           | Returns (Some output_value) \<Rightarrow>
               (let real_len = strlen output_value;
                    arr1 = nbt_node_write_uint16_to_gbytearray arr (of_nat real_len)
                in Returns (write_bytes arr1 (take real_len output_value))))
      | _ \<Rightarrow> Undefined)"

definition LIBNBT_ERROR_INTERNAL :: guint32 where
  "LIBNBT_ERROR_INTERNAL = 0xf0000000 OR 0x1"

text \<open>
  \<open>nbt_node_write_nbt_to_gbytearray\<close> with the functions for lists and compounds and the
  loop over the children that both contain.  The result is the returned \<open>int\<close> and the
  byte array.  The node is not \<open>NULL\<close> here; \<open>nbt_node_pack_full\<close> below treats \<open>NULL\<close>.
  Counting the nodes and the progress callback only report and are left out.
\<close>

fun nbt_node_write_nbt_to_gbytearray ::
  "bool \<Rightarrow> (guint64 \<Rightarrow> guint32) \<Rightarrow> guint8 list \<Rightarrow> NbtNode \<Rightarrow> bool \<Rightarrow> (guint32 \<times> guint8 list) c_run"
and nbt_node_write_children ::
  "bool \<Rightarrow> (guint64 \<Rightarrow> guint32) \<Rightarrow> guint8 list \<Rightarrow> NbtNode list \<Rightarrow> bool
     \<Rightarrow> (guint32 \<times> guint8 list) c_run"
where
  "nbt_node_write_nbt_to_gbytearray cancelled double_to_float arr (GNode d children) writekey =
     (if cancelled then Returns (LIBNBT_ERROR_INTERNAL, arr)
      else
        (case (if writekey then nbt_node_write_key_to_gbytearray arr (key d) (type d)
               else Returns arr) of
           Undefined \<Rightarrow> Undefined
         | Returns arr1 \<Rightarrow>
             (if type d = TAG_Byte \<or> type d = TAG_Short \<or> type d = TAG_Int \<or> type d = TAG_Long
              then Returns (0, nbt_node_write_number_to_gbytearray arr1 (value_i d) (type d))
              else if type d = TAG_Float \<or> type d = TAG_Double
              then Returns (0, nbt_node_write_point_to_gbytearray double_to_float arr1
                                 (value_d d) (type d))
              else if type d = TAG_Byte_Array \<or> type d = TAG_Int_Array
                        \<or> type d = TAG_Long_Array
              then (case nbt_node_write_array_to_gbytearray arr1 (value_a_value d)
                           (value_a_len d) (type d) of
                      Undefined \<Rightarrow> Undefined
                    | Returns arr2 \<Rightarrow> Returns (0, arr2))
              else if type d = TAG_String
              then (case nbt_node_write_string_to_gbytearray arr1 (value_a_value d) of
                      Undefined \<Rightarrow> Undefined
                    | Returns arr2 \<Rightarrow> Returns (0, arr2))
              else if type d = TAG_List
              then (let arr2 =
                          (case children of
                             [] \<Rightarrow> nbt_node_write_uint8_to_gbytearray arr1 0
                           | child # _ \<Rightarrow>
                               nbt_node_write_uint8_to_gbytearray arr1
                                 (of_nat (type (node_data child))));
                        arr3 = nbt_node_write_uint32_to_gbytearray arr2
                                 (of_nat (length children))
                    in nbt_node_write_children cancelled double_to_float arr3 children False)
              else if type d = TAG_Compound
              then (case nbt_node_write_children cancelled double_to_float arr1 children True of
                      Undefined \<Rightarrow> Undefined
                    | Returns (ret, arr2) \<Rightarrow>
                        if ret \<noteq> 0 then Returns (ret, arr2)
                        else Returns (0, nbt_node_write_uint8_to_gbytearray arr2 0))
              else Returns (LIBNBT_ERROR_INTERNAL, arr1))))"
| "nbt_node_write_children cancelled double_to_float arr [] writekey = Returns (0, arr)"
| "nbt_node_write_children cancelled double_to_float arr (child # rest) writekey =
     (case nbt_node_write_nbt_to_gbytearray cancelled double_to_float arr child writekey of
        Undefined \<Rightarrow> Undefined
      | Returns (ret, arr1) \<Rightarrow>
          if ret \<noteq> 0 then Returns (ret, arr1)
          else nbt_node_write_children cancelled double_to_float arr1 rest writekey)"

datatype NBT_Compression = NBT_Compression_GZIP | NBT_Compression_ZLIB | NBT_Compression_NONE

text \<open>
  \<open>nbt_node_pack_full\<close> in output mode (\<open>file\<close> is \<open>NULL\<close>).  \<open>compress\<close> stands for GLib's
  \<open>GZlibCompressor\<close> behind the output stream, giving the converted bytes or \<open>None\<close> for
  an error.  The result is the returned block, \<open>None\<close> for \<open>NULL\<close>, which is also what
  a run returns whose \<open>ret\<close> is not \<open>0\<close> or that was cancelled.
\<close>

definition nbt_node_pack_full ::
  "bool \<Rightarrow> (guint64 \<Rightarrow> guint32) \<Rightarrow> (GZlibCompressorFormat \<Rightarrow> guint8 list \<Rightarrow> guint8 list option)
     \<Rightarrow> NbtNode option \<Rightarrow> NBT_Compression \<Rightarrow> guint8 list option c_run" where
  "nbt_node_pack_full cancelled double_to_float compress node compression =
     (case (case node of
              None \<Rightarrow> Returns (LIBNBT_ERROR_INTERNAL, [])
            | Some root \<Rightarrow>
                nbt_node_write_nbt_to_gbytearray cancelled double_to_float [] root True) of
        Undefined \<Rightarrow> Undefined
      | Returns (ret, buf) \<Rightarrow>
          (if ret = 0 \<and> \<not> cancelled then
             (let format =
                    (if compression = NBT_Compression_GZIP then G_ZLIB_COMPRESSOR_FORMAT_GZIP
                     else if compression = NBT_Compression_ZLIB then G_ZLIB_COMPRESSOR_FORMAT_ZLIB
                     else G_ZLIB_COMPRESSOR_FORMAT_RAW)
              in Returns (compress format buf))
           else Returns None))"

section \<open>Builders and getters (\<open>nbt_util.c\<close>)\<close>

text \<open>\<open>g_strdup\<close> copies the string and maps \<open>NULL\<close> to \<open>NULL\<close>.\<close>

definition create_node :: "nat \<Rightarrow> guint8 list option \<Rightarrow> NbtNode" where
  "create_node tag k = GNode (g_new0_NbtData\<lparr>type := tag, key := k\<rparr>) []"

text \<open>The values are \<open>gint8\<close>, \<open>gint16\<close>, \<open>gint32\<close> and \<open>gint64\<close>: the assignment to the
  \<open>int64_t\<close> extends the sign.\<close>

definition nbt_node_new_byte :: "guint8 list option \<Rightarrow> 8 word \<Rightarrow> NbtNode" where
  "nbt_node_new_byte k v =
     (case create_node TAG_Byte k of GNode d cs \<Rightarrow> GNode (d\<lparr>value_i := scast v\<rparr>) cs)"

definition nbt_node_new_short :: "guint8 list option \<Rightarrow> 16 word \<Rightarrow> NbtNode" where
  "nbt_node_new_short k v =
     (case create_node TAG_Short k of GNode d cs \<Rightarrow> GNode (d\<lparr>value_i := scast v\<rparr>) cs)"

definition nbt_node_new_int :: "guint8 list option \<Rightarrow> 32 word \<Rightarrow> NbtNode" where
  "nbt_node_new_int k v =
     (case create_node TAG_Int k of GNode d cs \<Rightarrow> GNode (d\<lparr>value_i := scast v\<rparr>) cs)"

definition nbt_node_new_long :: "guint8 list option \<Rightarrow> 64 word \<Rightarrow> NbtNode" where
  "nbt_node_new_long k v =
     (case create_node TAG_Long k of GNode d cs \<Rightarrow> GNode (d\<lparr>value_i := v\<rparr>) cs)"

text \<open>
  \<open>fill_failed\<close>: \<open>failed\<close> is \<open>None\<close> for a \<open>NULL\<close> pointer and the content of the
  \<open>gboolean\<close> it points to otherwise; the result is the content afterwards.
\<close>

definition fill_failed :: "bool option \<Rightarrow> bool \<Rightarrow> bool option" where
  "fill_failed failed v = (case failed of None \<Rightarrow> None | Some _ \<Rightarrow> Some v)"

text \<open>
  The getters return the value and the content of \<open>*failed\<close> afterwards.  The node is a
  \<open>const\<close> pointer and is not written.  The integer getters convert the \<open>int64_t\<close> to
  their return type; \<open>double_to_float\<close> is that conversion in \<open>nbt_node_get_float\<close>.
  The sentinel \<open>0.0f\<close> has the bit pattern \<open>0\<close> as a \<open>float\<close> and as a \<open>double\<close>.
\<close>

definition nbt_node_get_byte :: "NbtNode option \<Rightarrow> bool option \<Rightarrow> 8 word \<times> bool option" where
  "nbt_node_get_byte node failed =
     (case node of
        None \<Rightarrow> (- 1, fill_failed failed True)
      | Some n \<Rightarrow>
          if type (node_data n) = TAG_Byte
          then (ucast (value_i (node_data n)), fill_failed failed False)
          else (- 1, fill_failed failed True))"

definition nbt_node_get_short :: "NbtNode option \<Rightarrow> bool option \<Rightarrow> 16 word \<times> bool option" where
  "nbt_node_get_short node failed =
     (case node of
        None \<Rightarrow> (- 1, fill_failed failed True)
      | Some n \<Rightarrow>
          if type (node_data n) = TAG_Short
          then (ucast (value_i (node_data n)), fill_failed failed False)
          else (- 1, fill_failed failed True))"

definition nbt_node_get_int :: "NbtNode option \<Rightarrow> bool option \<Rightarrow> 32 word \<times> bool option" where
  "nbt_node_get_int node failed =
     (case node of
        None \<Rightarrow> (- 1, fill_failed failed True)
      | Some n \<Rightarrow>
          if type (node_data n) = TAG_Int
          then (ucast (value_i (node_data n)), fill_failed failed False)
          else (- 1, fill_failed failed True))"

definition nbt_node_get_long :: "NbtNode option \<Rightarrow> bool option \<Rightarrow> 64 word \<times> bool option" where
  "nbt_node_get_long node failed =
     (case node of
        None \<Rightarrow> (- 1, fill_failed failed True)
      | Some n \<Rightarrow>
          if type (node_data n) = TAG_Long
          then (value_i (node_data n), fill_failed failed False)
          else (- 1, fill_failed failed True))"

definition nbt_node_get_float ::
  "(guint64 \<Rightarrow> guint32) \<Rightarrow> NbtNode option \<Rightarrow> bool option \<Rightarrow> guint32 \<times> bool option" where
  "nbt_node_get_float double_to_float node failed =
     (case node of
        None \<Rightarrow> (0, fill_failed failed True)
      | Some n \<Rightarrow>
          if type (node_data n) = TAG_Float
          then (double_to_float (value_d (node_data n)), fill_failed failed False)
          else (0, fill_failed failed True))"

definition nbt_node_get_double :: "NbtNode option \<Rightarrow> bool option \<Rightarrow> guint64 \<times> bool option" where
  "nbt_node_get_double node failed =
     (case node of
        None \<Rightarrow> (0, fill_failed failed True)
      | Some n \<Rightarrow>
          if type (node_data n) = TAG_Double
          then (value_d (node_data n), fill_failed failed False)
          else (0, fill_failed failed True))"

definition nbt_node_get_string :: "NbtNode option \<Rightarrow> bool option \<Rightarrow> array_ptr \<times> bool option" where
  "nbt_node_get_string node failed =
     (case node of
        None \<Rightarrow> (NULL_array, fill_failed failed True)
      | Some n \<Rightarrow>
          if type (node_data n) = TAG_String
          then (value_a_value (node_data n), fill_failed failed False)
          else (NULL_array, fill_failed failed True))"

text \<open>
  The array getters also take \<open>int *len\<close>: \<open>None\<close> for \<open>NULL\<close>, the content of the \<open>int\<close>
  otherwise.  They return the pointer and the contents of \<open>*len\<close> and \<open>*failed\<close> afterwards.
\<close>

definition nbt_node_get_byte_array ::
  "NbtNode option \<Rightarrow> guint32 option \<Rightarrow> bool option \<Rightarrow> array_ptr \<times> guint32 option \<times> bool option" where
  "nbt_node_get_byte_array node n failed =
     (if node = None \<or> n = None then (NULL_array, n, fill_failed failed True)
      else
        (case node of
           None \<Rightarrow> (NULL_array, n, fill_failed failed True)
         | Some nd \<Rightarrow>
             if type (node_data nd) = TAG_Byte_Array
             then (value_a_value (node_data nd), Some (value_a_len (node_data nd)),
                   fill_failed failed False)
             else (NULL_array, n, fill_failed failed True)))"

definition nbt_node_get_int_array ::
  "NbtNode option \<Rightarrow> guint32 option \<Rightarrow> bool option \<Rightarrow> array_ptr \<times> guint32 option \<times> bool option" where
  "nbt_node_get_int_array node n failed =
     (if node = None \<or> n = None then (NULL_array, n, fill_failed failed True)
      else
        (case node of
           None \<Rightarrow> (NULL_array, n, fill_failed failed True)
         | Some nd \<Rightarrow>
             if type (node_data nd) = TAG_Int_Array
             then (value_a_value (node_data nd), Some (value_a_len (node_data nd)),
                   fill_failed failed False)
             else (NULL_array, n, fill_failed failed True)))"

definition nbt_node_get_long_array ::
  "NbtNode option \<Rightarrow> guint32 option \<Rightarrow> bool option \<Rightarrow> array_ptr \<times> guint32 option \<times> bool option" where
  "nbt_node_get_long_array node n failed =
     (if node = None \<or> n = None then (NULL_array, n, fill_failed failed True)
      else
        (case node of
           None \<Rightarrow> (NULL_array, n, fill_failed failed True)
         | Some nd \<Rightarrow>
             if type (node_data nd) = TAG_Long_Array
             then (value_a_value (node_data nd), Some (value_a_len (node_data nd)),
                   fill_failed failed False)
             else (NULL_array, n, fill_failed failed True)))"

section \<open>Insertion into a tree (\<open>nbt_util.c\<close>)\<close>

text \<open>
  The insertion functions work on nodes that the caller holds by pointer: the node to
  insert may already hang in a tree, or be the parent itself.  So the nodes live in a
  heap here, a list of cells addressed by their index.  A cell is a \<open>GNode\<close>: its data,
  its parent (\<open>None\<close> for \<open>NULL\<close>) and the addresses of its children in order, which stand
  for the chain of \<open>children\<close>, \<open>next\<close> and \<open>prev\<close> pointers.  An address outside the heap
  is a dangling pointer, and following it is undefined behaviour.
\<close>

record cell =
  cell_data :: NbtData
  parent :: "nat option"
  children :: "nat list"

type_synonym heap = "cell list"

definition G_NODE_IS_ROOT :: "heap \<Rightarrow> nat \<Rightarrow> bool" where
  "G_NODE_IS_ROOT h node \<longleftrightarrow> parent (h ! node) = None"

text \<open>Linking \<open>node\<close> under \<open>p\<close> with the new list of children \<open>cs\<close>.\<close>

definition link_node :: "heap \<Rightarrow> nat \<Rightarrow> nat \<Rightarrow> nat list \<Rightarrow> heap" where
  "link_node h p node cs =
     (let h1 = h[node := (h ! node)\<lparr>parent := Some p\<rparr>]
      in h1[p := (h1 ! p)\<lparr>children := cs\<rparr>])"

fun insert_before_sibling :: "nat \<Rightarrow> nat \<Rightarrow> nat list \<Rightarrow> nat list" where
  "insert_before_sibling sibling node [] = [node]"
| "insert_before_sibling sibling node (c # cs) =
     (if c = sibling then node # c # cs else c # insert_before_sibling sibling node cs)"

fun insert_after_sibling :: "nat \<Rightarrow> nat \<Rightarrow> nat list \<Rightarrow> nat list" where
  "insert_after_sibling sibling node [] = [node]"
| "insert_after_sibling sibling node (c # cs) =
     (if c = sibling then c # node # cs else c # insert_after_sibling sibling node cs)"

text \<open>
  GLib's \<open>g_node_insert_before\<close>, \<open>g_node_insert_after\<close>, \<open>g_node_prepend\<close> and
  \<open>g_node_append\<close>, after the reference manual: the node must be a root and the sibling,
  if given, a child of the parent, or nothing is changed (\<open>g_return_val_if_fail\<close>).
  Without a sibling, \<open>g_node_insert_before\<close> appends and \<open>g_node_insert_after\<close> prepends.
\<close>

definition g_node_insert_before :: "heap \<Rightarrow> nat \<Rightarrow> nat option \<Rightarrow> nat \<Rightarrow> heap" where
  "g_node_insert_before h p sibling node =
     (if \<not> G_NODE_IS_ROOT h node then h
      else
        (case sibling of
           None \<Rightarrow> link_node h p node (children (h ! p) @ [node])
         | Some s \<Rightarrow>
             if parent (h ! s) \<noteq> Some p then h
             else link_node h p node (insert_before_sibling s node (children (h ! p)))))"

definition g_node_insert_after :: "heap \<Rightarrow> nat \<Rightarrow> nat option \<Rightarrow> nat \<Rightarrow> heap" where
  "g_node_insert_after h p sibling node =
     (if \<not> G_NODE_IS_ROOT h node then h
      else
        (case sibling of
           None \<Rightarrow> link_node h p node (node # children (h ! p))
         | Some s \<Rightarrow>
             if parent (h ! s) \<noteq> Some p then h
             else link_node h p node (insert_after_sibling s node (children (h ! p)))))"

definition g_node_prepend :: "heap \<Rightarrow> nat \<Rightarrow> nat \<Rightarrow> heap" where
  "g_node_prepend h p node =
     (if \<not> G_NODE_IS_ROOT h node then h else link_node h p node (node # children (h ! p)))"

definition g_node_append :: "heap \<Rightarrow> nat \<Rightarrow> nat \<Rightarrow> heap" where
  "g_node_append h p node = g_node_insert_before h p None node"

definition live :: "heap \<Rightarrow> nat \<Rightarrow> bool" where
  "live h a \<longleftrightarrow> a < length h"

definition kind :: "heap \<Rightarrow> nat \<Rightarrow> nat" where
  "kind h a = type (cell_data (h ! a))"

text \<open>The result of an insertion: the returned \<open>gboolean\<close> and the heap afterwards.\<close>

definition nbt_node_prepend :: "heap \<Rightarrow> nat option \<Rightarrow> nat option \<Rightarrow> (bool \<times> heap) c_run" where
  "nbt_node_prepend h node child =
     (case (node, child) of
        (Some n, Some c) \<Rightarrow>
          if \<not> live h n then Undefined
          else if \<not> (kind h n = TAG_Compound \<or> kind h n = TAG_List) then Returns (False, h)
          else if kind h n = TAG_List \<and> children (h ! n) \<noteq> [] then
            (if \<not> live h (hd (children (h ! n))) \<or> \<not> live h c then Undefined
             else if kind h (hd (children (h ! n))) \<noteq> kind h c then Returns (False, h)
             else Returns (True, g_node_prepend h n c))
          else if \<not> live h c then Undefined
          else Returns (True, g_node_prepend h n c)
      | _ \<Rightarrow> Returns (False, h))"

definition nbt_node_append :: "heap \<Rightarrow> nat option \<Rightarrow> nat option \<Rightarrow> (bool \<times> heap) c_run" where
  "nbt_node_append h node child =
     (case (node, child) of
        (Some n, Some c) \<Rightarrow>
          if \<not> live h n then Undefined
          else if \<not> (kind h n = TAG_Compound \<or> kind h n = TAG_List) then Returns (False, h)
          else if kind h n = TAG_List \<and> children (h ! n) \<noteq> [] then
            (if \<not> live h (hd (children (h ! n))) \<or> \<not> live h c then Undefined
             else if kind h (hd (children (h ! n))) \<noteq> kind h c then Returns (False, h)
             else Returns (True, g_node_append h n c))
          else if \<not> live h c then Undefined
          else Returns (True, g_node_append h n c)
      | _ \<Rightarrow> Returns (False, h))"

definition nbt_node_insert_before ::
  "heap \<Rightarrow> nat option \<Rightarrow> nat option \<Rightarrow> nat option \<Rightarrow> (bool \<times> heap) c_run" where
  "nbt_node_insert_before h p sibling node =
     (case (node, p) of
        (Some n, Some pa) \<Rightarrow>
          if \<not> live h n then Undefined
          else if \<not> G_NODE_IS_ROOT h n then Returns (False, h)
          else if \<not> live h pa then Undefined
          else if \<not> (kind h pa = TAG_Compound \<or> kind h pa = TAG_List) then Returns (False, h)
          else if kind h pa = TAG_List then
            (case sibling of
               Some s \<Rightarrow>
                 if \<not> live h s then Undefined
                 else if parent (h ! s) \<noteq> Some pa then Returns (False, h)
                 else if kind h n \<noteq> kind h s then Returns (False, h)
                 else Returns (True, g_node_insert_before h pa sibling n)
             | None \<Rightarrow>
                 (case children (h ! pa) of
                    [] \<Rightarrow> Returns (True, g_node_insert_before h pa sibling n)
                  | first_child # _ \<Rightarrow>
                      if \<not> live h first_child then Undefined
                      else if kind h first_child \<noteq> kind h n then Returns (False, h)
                      else Returns (True, g_node_insert_before h pa sibling n)))
          else
            (case sibling of
               Some s \<Rightarrow>
                 if \<not> live h s then Undefined
                 else Returns (True, g_node_insert_before h pa sibling n)
             | None \<Rightarrow> Returns (True, g_node_insert_before h pa sibling n))
      | _ \<Rightarrow> Returns (False, h))"

definition nbt_node_insert_after ::
  "heap \<Rightarrow> nat option \<Rightarrow> nat option \<Rightarrow> nat option \<Rightarrow> (bool \<times> heap) c_run" where
  "nbt_node_insert_after h p sibling node =
     (case (node, p) of
        (Some n, Some pa) \<Rightarrow>
          if \<not> live h n then Undefined
          else if \<not> G_NODE_IS_ROOT h n then Returns (False, h)
          else if \<not> live h pa then Undefined
          else if \<not> (kind h pa = TAG_Compound \<or> kind h pa = TAG_List) then Returns (False, h)
          else if kind h pa = TAG_List then
            (case sibling of
               Some s \<Rightarrow>
                 if \<not> live h s then Undefined
                 else if parent (h ! s) \<noteq> Some pa then Returns (False, h)
                 else if kind h n \<noteq> kind h s then Returns (False, h)
                 else Returns (True, g_node_insert_after h pa sibling n)
             | None \<Rightarrow>
                 (case children (h ! pa) of
                    [] \<Rightarrow> Returns (True, g_node_insert_after h pa sibling n)
                  | first_child # _ \<Rightarrow>
                      if \<not> live h first_child then Undefined
                      else if kind h first_child \<noteq> kind h n then Returns (False, h)
                      else Returns (True, g_node_insert_after h pa sibling n)))
          else
            (case sibling of
               Some s \<Rightarrow>
                 if \<not> live h s then Undefined
                 else Returns (True, g_node_insert_after h pa sibling n)
             | None \<Rightarrow> Returns (True, g_node_insert_after h pa sibling n))
      | _ \<Rightarrow> Returns (False, h))"

text \<open>
  The heap is well linked when every child and parent address is live, the children of
  a cell name it as their parent, and a cell with a parent is among its children.
  Invariant I3: the children of every list have one kind.
\<close>

definition well_linked :: "heap \<Rightarrow> bool" where
  "well_linked h \<longleftrightarrow>
     (\<forall>a < length h.
        (\<forall>c \<in> set (children (h ! a)). c < length h \<and> parent (h ! c) = Some a) \<and>
        (case parent (h ! a) of
           None \<Rightarrow> True
         | Some p \<Rightarrow> p < length h \<and> a \<in> set (children (h ! p))))"

definition I3 :: "heap \<Rightarrow> bool" where
  "I3 h \<longleftrightarrow>
     (\<forall>a < length h. kind h a = TAG_List \<longrightarrow>
        (\<forall>c1 \<in> set (children (h ! a)). \<forall>c2 \<in> set (children (h ! a)). kind h c1 = kind h c2))"

definition heap_ok :: "heap \<Rightarrow> bool" where
  "heap_ok h \<longleftrightarrow> well_linked h \<and> I3 h"

section \<open>Region files (\<open>MCA_WriteRaw_File\<close>, \<open>MCA_ReadRaw\<close>)\<close>

text \<open>
  A \<open>FILE\<close> opened for writing: its bytes and the file position.  Writing behind the end
  fills the gap with zero bytes.  \<open>fseek\<close> to a negative offset fails and leaves the
  position where it was.  The calls are taken to succeed otherwise.
\<close>

record FILE =
  bytes :: "guint8 list"
  fpos :: nat

definition fwrite :: "guint8 list \<Rightarrow> nat \<Rightarrow> FILE \<Rightarrow> FILE" where
  "fwrite ptr n fp =
     \<lparr>bytes = take (fpos fp) (bytes fp @ replicate (fpos fp - length (bytes fp)) 0)
                @ take n ptr @ drop (fpos fp + length (take n ptr)) (bytes fp),
      fpos = fpos fp + length (take n ptr)\<rparr>"

definition fputc :: "guint8 \<Rightarrow> FILE \<Rightarrow> FILE" where
  "fputc c fp = fwrite [c] 1 fp"

definition fseek_SET :: "FILE \<Rightarrow> int \<Rightarrow> FILE" where
  "fseek_SET fp off = (if off < 0 then fp else fp\<lparr>fpos := nat off\<rparr>)"

definition fseek_END :: "FILE \<Rightarrow> FILE" where
  "fseek_END fp = fp\<lparr>fpos := length (bytes fp)\<rparr>"

definition ftell :: "FILE \<Rightarrow> int" where
  "ftell fp = int (fpos fp)"

text \<open>The value of an \<open>int\<close> expression: 32 bits, two's complement.\<close>

definition c_int :: "int \<Rightarrow> int" where
  "c_int x = signed_take_bit 31 x"

abbreviation (input) CHUNKS_IN_REGION :: nat where "CHUNKS_IN_REGION \<equiv> 1024"

abbreviation (input) LIBNBT_ERROR_INVALID_DATA :: guint32 where
  "LIBNBT_ERROR_INVALID_DATA \<equiv> 0xf0000000 OR 0x4"

text \<open>
  \<open>MCA\<close>: the arrays of \<open>CHUNKS_IN_REGION\<close> entries are functions of the index.  The
  fields \<open>data\<close>, \<open>hasPosition\<close>, \<open>x\<close> and \<open>z\<close> play no part in writing and are left out.
\<close>

record MCA =
  rawdata :: "nat \<Rightarrow> guint8 list option"
  size :: "nat \<Rightarrow> guint32"
  epoch :: "nat \<Rightarrow> guint32"

text \<open>
  The body of the first loop of \<open>MCA_WriteRaw_File\<close> for slot \<open>i\<close>, on the file, the
  cursor \<open>current\<close> and the table \<open>offsets\<close>.
\<close>

definition MCA_WriteRaw_File_slot ::
  "MCA \<Rightarrow> FILE \<times> int \<times> (nat \<Rightarrow> guint32) \<Rightarrow> nat \<Rightarrow> FILE \<times> int \<times> (nat \<Rightarrow> guint32)" where
  "MCA_WriteRaw_File_slot mca st i =
     (case st of (fp, current, offsets) \<Rightarrow>
        (case rawdata mca i of
           None \<Rightarrow> (fp, current, offsets(i := 0))
         | Some raw \<Rightarrow>
             (let fp1 = fseek_SET fp (c_int (current * 2 ^ 12));
                  offsets1 = offsets(i := word_of_int (c_int (current * 2 ^ 8)));
                  sz = size mca i + 1;
                  fp2 = fputc (ucast (drop_bit 24 sz AND 0xff)) fp1;
                  fp3 = fputc (ucast (drop_bit 16 sz AND 0xff)) fp2;
                  fp4 = fputc (ucast (drop_bit 8 sz AND 0xff)) fp3;
                  fp5 = fputc (ucast (sz AND 0xff)) fp4;
                  fp6 = fputc 2 fp5;
                  fp7 = fwrite raw (unat (sz - 1)) fp6;
                  newpos = c_int (ftell fp7 div 2 ^ 12 + 1);
                  offsets2 = offsets1(i := offsets1 i OR
                                            word_of_int (and (c_int (newpos - current)) 0xff))
              in (fp7, newpos, offsets2))))"

text \<open>The first loop after \<open>k\<close> slots; the cursor starts at \<open>2\<close>.\<close>

primrec MCA_WriteRaw_File_loop ::
  "MCA \<Rightarrow> FILE \<Rightarrow> nat \<Rightarrow> FILE \<times> int \<times> (nat \<Rightarrow> guint32)" where
  "MCA_WriteRaw_File_loop mca fp 0 = (fp, 2, (\<lambda>_. 0))"
| "MCA_WriteRaw_File_loop mca fp (Suc k) =
     MCA_WriteRaw_File_slot mca (MCA_WriteRaw_File_loop mca fp k) k"

text \<open>
  \<open>MCA_WriteRaw_File\<close>: the chunks, the table of offsets, the time stamps (\<open>now\<close> is what
  \<open>time (NULL)\<close> returns) and the padding.  The result is the returned \<open>int\<close> and the file.
\<close>

definition MCA_WriteRaw_File :: "FILE option \<Rightarrow> MCA option \<Rightarrow> guint32 \<Rightarrow> guint32 \<times> FILE option" where
  "MCA_WriteRaw_File fp mca now =
     (case (fp, mca) of
        (Some f, Some m) \<Rightarrow>
          (case MCA_WriteRaw_File_loop m f CHUNKS_IN_REGION of
             (f1, current, offsets) \<Rightarrow>
               (let f2 = fseek_SET f1 0;
                    f3 = foldl (\<lambda>g i.
                           fputc (ucast (offsets i AND 0xff))
                             (fputc (ucast (drop_bit 8 (offsets i) AND 0xff))
                               (fputc (ucast (drop_bit 16 (offsets i) AND 0xff))
                                 (fputc (ucast (drop_bit 24 (offsets i) AND 0xff)) g))))
                           f2 [0..<CHUNKS_IN_REGION];
                    t = bswap_32 now;
                    f4 = foldl (\<lambda>g i. fwrite (store_uint32 t) 4 g) f3 [0..<CHUNKS_IN_REGION];
                    f5 = fseek_END f4;
                    n = ftell f5;
                    f6 = (if n mod 4096 \<noteq> 0
                          then fputc 0 (fseek_SET f5 ((n div 2 ^ 12 + 1) * 2 ^ 12 - 1))
                          else f5)
                in (0, Some f6)))
      | _ \<Rightarrow> (LIBNBT_ERROR_INVALID_DATA, fp))"

text \<open>
  \<open>MCA_ReadRaw\<close> up to the end of its first loop, which reads the table of offsets:
  \<open>Inl\<close> the value of the early \<open>return LIBNBT_ERROR_INVALID_DATA\<close>, or \<open>Inr\<close> the buffer
  and the array \<open>offsets\<close> with which the function goes on.  \<open>length_arg\<close> is the
  argument \<open>length\<close>.  \<open>temp >> 8 << 12\<close> and \<open>(temp & 0xff) << 12\<close> are 32-bit, the
  sum \<open>tsize\<close> is 64-bit.  A failed \<open>LIBNBT_getUint32\<close> leaves \<open>temp\<close> zero and the buffer
  where it was.  The entries of \<open>offsets\<close> are not initialised in C; each is assigned
  before the loop ends.
\<close>

definition MCA_ReadRaw_offsets_slot ::
  "nat \<Rightarrow> bool \<Rightarrow> NBT_Buffer \<times> (nat \<Rightarrow> guint64) \<Rightarrow> nat
     \<Rightarrow> guint32 + NBT_Buffer \<times> (nat \<Rightarrow> guint64)" where
  "MCA_ReadRaw_offsets_slot length_arg skip_chunk_error st j =
     (case st of (buffer, offsets) \<Rightarrow>
        (let (ret, temp, buffer1) =
               (case LIBNBT_getUint32 buffer of
                  None \<Rightarrow> (0 :: nat, 0, buffer)
                | Some (v, b1) \<Rightarrow> (4, v, b1));
             off = (ucast (push_bit 12 (drop_bit 8 temp)) :: guint64);
             tsize = ucast (push_bit 12 (temp AND 0xff)) + off
         in if ret = 0 \<or> unat tsize > length_arg then
              (if skip_chunk_error then Inr (buffer1, offsets(j := 0))
               else Inl LIBNBT_ERROR_INVALID_DATA)
            else Inr (buffer1, offsets(j := off))))"

primrec MCA_ReadRaw_offsets_loop ::
  "nat \<Rightarrow> bool \<Rightarrow> NBT_Buffer \<Rightarrow> nat \<Rightarrow> guint32 + NBT_Buffer \<times> (nat \<Rightarrow> guint64)" where
  "MCA_ReadRaw_offsets_loop length_arg skip_chunk_error buffer 0 = Inr (buffer, (\<lambda>_. 0))"
| "MCA_ReadRaw_offsets_loop length_arg skip_chunk_error buffer (Suc k) =
     (case MCA_ReadRaw_offsets_loop length_arg skip_chunk_error buffer k of
        Inl e \<Rightarrow> Inl e
      | Inr st \<Rightarrow> MCA_ReadRaw_offsets_slot length_arg skip_chunk_error st k)"

definition MCA_ReadRaw_offsets ::
  "guint8 list option \<Rightarrow> nat \<Rightarrow> bool \<Rightarrow> guint32 + NBT_Buffer \<times> (nat \<Rightarrow> guint64)" where
  "MCA_ReadRaw_offsets dat length_arg skip_chunk_error =
     (if length_arg \<le> 8192 \<or> dat = None then Inl LIBNBT_ERROR_INVALID_DATA
      else MCA_ReadRaw_offsets_loop length_arg skip_chunk_error (init_buffer dat length_arg)
             CHUNKS_IN_REGION)"

section \<open>Properties\<close>

subsection \<open>Round trip of documents and strings\<close>

lemma write_string_document:
  "nbt_node_write_nbt_to_gbytearray False double_to_float []
     (GNode \<lparr>type = TAG_Compound, key = None, value_i = 0, value_d = 0,
              value_a_value = NULL_array, value_a_len = 0\<rparr>
        [GNode \<lparr>type = TAG_String, key = Some [0x73], value_i = 0, value_d = 0,
                 value_a_value = Chars [0x41, 0xF0, 0x9D, 0x84, 0x9E],
                 value_a_len = 8\<rparr> []]) True =
   Returns (0, [10, 0, 0, 8, 0, 1, 0x73, 0, 7, 0x41, 0xED, 0xA0, 0xB4, 0xED, 0xB0, 0x9E, 0])"
  by code_simp

lemma write_double_document:
  "nbt_node_write_nbt_to_gbytearray False double_to_float []
     (GNode \<lparr>type = TAG_Double, key = None, value_i = 0, value_d = 0x0102030405060708,
              value_a_value = NULL_array, value_a_len = 0\<rparr> []) True =
   Returns (0, [6, 0, 0, 8, 7, 6, 5, 4, 3, 2, 1])"
  by code_simp

lemma read_string_document:
  "nbt_node_new_opt False float_to_double decompress
     [10, 0, 0, 8, 0, 1, 0x73, 0, 7, 0x41, 0xED, 0xA0, 0xB4, 0xED, 0xB4, 0x9E, 0] 17 =
     Done (Some (GNode \<lparr>type = TAG_Compound, key = None, value_i = 0, value_d = 0,
                         value_a_value = NULL_array, value_a_len = 0\<rparr>
                   [GNode \<lparr>type = TAG_String, key = Some [0x73], value_i = 0, value_d = 0,
                            value_a_value = Chars [0x41, 0xF0, 0x9D, 0x84, 0x9E],
                            value_a_len = 8\<rparr> []]), None)"
  by code_simp

lemma read_double_document:
  "nbt_node_new_opt False float_to_double decompress [6, 0, 0, 1, 2, 3, 4, 5, 6, 7, 8] 11 =
     Done (Some (GNode \<lparr>type = TAG_Double, key = None, value_i = 0,
                         value_d = 0x0102030405060708,
                         value_a_value = NULL_array, value_a_len = 0\<rparr> []), None)"
  by code_simp

text \<open>
  Claim C1 (decoding a well-formed document and encoding the tree again gives the
  document back).  The code does not do that.  The document below is a compound with one
  string \<open>s\<close> holding \<open>A\<close> and U+1D11E as a surrogate pair in Modified UTF-8.  It decodes
  without error, and \<open>nbt_node_pack_full\<close> hands the compressor a byte array that differs
  from the document in the second byte of the low surrogate (\<open>B0\<close> for \<open>B4\<close>).  The second
  document is a single \<open>double\<close>: its eight bytes come back in reverse order, because the
  value is byte-swapped twice before it is appended.  In both cases the array goes through
  the raw \<open>deflate\<close> format, which is what \<open>NBT_Compression_NONE\<close> selects.
\<close>

theorem C1_round_trip_diverges:
  "nbt_node_new_opt False float_to_double decompress
     [10, 0, 0, 8, 0, 1, 0x73, 0, 7, 0x41, 0xED, 0xA0, 0xB4, 0xED, 0xB4, 0x9E, 0] 17 =
     Done (Some (GNode \<lparr>type = TAG_Compound, key = None, value_i = 0, value_d = 0,
                         value_a_value = NULL_array, value_a_len = 0\<rparr>
                   [GNode \<lparr>type = TAG_String, key = Some [0x73], value_i = 0, value_d = 0,
                            value_a_value = Chars [0x41, 0xF0, 0x9D, 0x84, 0x9E],
                            value_a_len = 8\<rparr> []]), None)
   \<and> nbt_node_pack_full False double_to_float compress
       (Some (GNode \<lparr>type = TAG_Compound, key = None, value_i = 0, value_d = 0,
                      value_a_value = NULL_array, value_a_len = 0\<rparr>
                [GNode \<lparr>type = TAG_String, key = Some [0x73], value_i = 0, value_d = 0,
                         value_a_value = Chars [0x41, 0xF0, 0x9D, 0x84, 0x9E],
                         value_a_len = 8\<rparr> []]))
       NBT_Compression_NONE =
     Returns (compress G_ZLIB_COMPRESSOR_FORMAT_RAW
       [10, 0, 0, 8, 0, 1, 0x73, 0, 7, 0x41, 0xED, 0xA0, 0xB4, 0xED, 0xB0, 0x9E, 0])
   \<and> nbt_node_new_opt False float_to_double decompress [6, 0, 0, 1, 2, 3, 4, 5, 6, 7, 8] 11 =
     Done (Some (GNode \<lparr>type = TAG_Double, key = None, value_i = 0,
                         value_d = 0x0102030405060708,
                         value_a_value = NULL_array, value_a_len = 0\<rparr> []), None)
   \<and> nbt_node_pack_full False double_to_float compress
       (Some (GNode \<lparr>type = TAG_Double, key = None, value_i = 0,
                      value_d = 0x0102030405060708,
                      value_a_value = NULL_array, value_a_len = 0\<rparr> []))
       NBT_Compression_NONE =
     Returns (compress G_ZLIB_COMPRESSOR_FORMAT_RAW [6, 0, 0, 8, 7, 6, 5, 4, 3, 2, 1])"
  by (simp add: nbt_node_pack_full_def read_string_document read_double_document
        write_string_document write_double_document
        del: nbt_node_write_nbt_to_gbytearray.simps)

text \<open>
  Claim C2 (a code point from U+10000 on is written as its two surrogates in the
  three-byte form; \<open>A\<close> and U+1D11E give \<open>41 ED A0 B4 ED B4 9E\<close>, and these bytes decode
  to the original string).  The decoder does turn the seven bytes into the five-byte
  UTF-8 string, but the encoder writes \<open>41 ED A0 B4 ED B0 9E\<close>: it adds bits 6 to 9 of
  each surrogate half without shifting them down, and they are lost when the sum is
  stored in a byte.  What it writes decodes to U+1D01E.
\<close>

theorem C2_supplementary_encoding:
  "convert_string_to_mutf8 (Some [0x41, 0xF0, 0x9D, 0x84, 0x9E, 0]) =
     Returns (Some [0x41, 0xED, 0xA0, 0xB4, 0xED, 0xB0, 0x9E])
   \<and> convert_string (Some [0x41, 0xED, 0xA0, 0xB4, 0xED, 0xB4, 0x9E, 0]) 7 =
     Returns (Some [0x41, 0xF0, 0x9D, 0x84, 0x9E])
   \<and> convert_string (Some [0x41, 0xED, 0xA0, 0xB4, 0xED, 0xB0, 0x9E, 0]) 7 =
     Returns (Some [0x41, 0xF0, 0x9D, 0x80, 0x9E])"
  by code_simp

subsection \<open>Integer payloads\<close>

text \<open>
  Claim C3 (the decoder stores a Byte, Short, Int or Long sign-extended in the
  \<open>int64\<close> payload; the wire byte \<open>FF\<close> becomes \<open>-1\<close>).  The decoder reads into an unsigned
  variable and stores \<open>255\<close>; a Short \<open>FFFF\<close> becomes \<open>65535\<close>.  The builder
  \<open>nbt_node_new_byte\<close> stores \<open>-1\<close> for the same tag, and \<open>nbt_node_get_byte\<close> returns
  \<open>-1\<close> for both nodes.
\<close>

theorem C3_byte_zero_extended:
  "nbt_node_new_opt False float_to_double decompress [1, 0, 0, 0xFF] 4 =
     Done (Some (GNode \<lparr>type = TAG_Byte, key = None, value_i = 255, value_d = 0,
                         value_a_value = NULL_array, value_a_len = 0\<rparr> []), None)
   \<and> sint (255 :: guint64) = 255
   \<and> nbt_node_new_opt False float_to_double decompress [2, 0, 0, 0xFF, 0xFF] 5 =
     Done (Some (GNode \<lparr>type = TAG_Short, key = None, value_i = 65535, value_d = 0,
                         value_a_value = NULL_array, value_a_len = 0\<rparr> []), None)
   \<and> nbt_node_new_byte None (- 1) =
     GNode \<lparr>type = TAG_Byte, key = None, value_i = - 1, value_d = 0,
            value_a_value = NULL_array, value_a_len = 0\<rparr> []
   \<and> sint (value_i (node_data (nbt_node_new_byte None (- 1)))) = - 1
   \<and> nbt_node_get_byte
       (Some (GNode \<lparr>type = TAG_Byte, key = None, value_i = 255, value_d = 0,
                      value_a_value = NULL_array, value_a_len = 0\<rparr> [])) (Some True) =
     (- 1, Some False)
   \<and> nbt_node_get_byte (Some (nbt_node_new_byte None (- 1))) (Some True) = (- 1, Some False)"
  by code_simp

subsection \<open>Leading bytes of Modified UTF-8\<close>

text \<open>
  Claim C7 (a string with a leading byte from \<open>F0\<close> to \<open>FF\<close> is rejected).  \<open>skip_len\<close>
  tests the leading byte with the mask \<open>E0\<close>, so these bytes count as the start of a
  three-byte unit: \<open>F0 80 81\<close> is converted to the string of the single code point U+0001,
  and a String tag with this payload decodes without error.
\<close>

theorem C7_leader_F0_accepted:
  "skip_len 0xF0 = 3 \<and> skip_len 0xFF = 3
   \<and> convert_string (Some [0xF0, 0x80, 0x81, 0]) 3 = Returns (Some [0x01])
   \<and> nbt_node_new_opt False float_to_double decompress [8, 0, 0, 0, 3, 0xF0, 0x80, 0x81] 8 =
     Done (Some (GNode \<lparr>type = TAG_String, key = None, value_i = 0, value_d = 0,
                         value_a_value = Chars [0x01], value_a_len = 4\<rparr> []), None)"
  by code_simp

subsection \<open>Leftover data\<close>

lemma nbt_node_new_opt_parsed:
  assumes "dat \<noteq> []" and "n \<le> length dat"
    and "nbt_node_new_opt_buffer cancelled decompress dat n = Inr buffer"
    and "parse_value (3 * len buffer + 2) cancelled float_to_double
           (node_data (create_nbt TAG_End)) buffer False = r"
  shows "nbt_node_new_opt cancelled float_to_double decompress dat n =
           (case r of
              OutOfFuel \<Rightarrow> OutOfFuel
            | UB \<Rightarrow> UB
            | Failed e \<Rightarrow> Done (None, Some (NBT_GLIB_PARSE_ERROR e))
            | Done (root, buffer1) \<Rightarrow>
                (if pos buffer1 \<noteq> len buffer1 then
                   Done (Some root,
                         Some (NBT_GLIB_PARSE_ERROR NBT_GLIB_PARSE_ERROR_LEFTOVER_DATA))
                 else Done (Some root, None)))"
proof -
  have "\<not> (dat = [] \<or> length dat < n)" using assms(1,2) by simp
  then show ?thesis
    unfolding nbt_node_new_opt_def by (simp only: if_False assms(3) sum.case assms(4))
qed

lemma nbt_node_new_opt_only_leftover:
  assumes a: "nbt_node_new_opt cancelled float_to_double decompress dat n = Done (Some root, Some e)"
  shows "e = NBT_GLIB_PARSE_ERROR NBT_GLIB_PARSE_ERROR_LEFTOVER_DATA"
proof -
  from a have ok: "dat \<noteq> []" "n \<le> length dat"
    unfolding nbt_node_new_opt_def by (auto split: if_splits)
  show ?thesis
  proof (cases "nbt_node_new_opt_buffer cancelled decompress dat n")
    case (Inl x)
    with a ok show ?thesis unfolding nbt_node_new_opt_def
      by (simp)
  next
    case (Inr buffer)
    define r where "r = parse_value (3 * len buffer + 2) cancelled float_to_double
                     (node_data (create_nbt TAG_End)) buffer False"
    from a show ?thesis
      unfolding nbt_node_new_opt_parsed [OF ok Inr r_def [symmetric]]
      by (cases r) (auto split: if_splits)
  qed
qed

text \<open>
  Claim C6 (when the outermost tag parses and the cursor stays before the end of the
  buffer, the decoder reports \<open>LEFTOVER_DATA\<close> and still returns the parsed tree; no other
  error comes with a tree).  Both halves hold for every input and both framings: the first
  for the buffer that \<open>nbt_node_new_opt\<close> builds and the run of \<open>parse_value\<close> on it, the
  second for every result of \<open>nbt_node_new_opt\<close>.
\<close>

theorem C6_leftover_data:
  "(dat \<noteq> [] \<and> n \<le> length dat
      \<and> nbt_node_new_opt_buffer cancelled decompress dat n = Inr buffer
      \<and> parse_value (3 * len buffer + 2) cancelled float_to_double
            (node_data (create_nbt TAG_End)) buffer False = Done (root, buffer1)
      \<and> pos buffer1 < len buffer1
    \<longrightarrow> nbt_node_new_opt cancelled float_to_double decompress dat n =
          Done (Some root, Some (NBT_GLIB_PARSE_ERROR NBT_GLIB_PARSE_ERROR_LEFTOVER_DATA)))
   \<and> (nbt_node_new_opt cancelled float_to_double decompress dat n = Done (Some root', Some e)
    \<longrightarrow> e = NBT_GLIB_PARSE_ERROR NBT_GLIB_PARSE_ERROR_LEFTOVER_DATA)"
proof (intro conjI impI)
  assume a: "dat \<noteq> [] \<and> n \<le> length dat
      \<and> nbt_node_new_opt_buffer cancelled decompress dat n = Inr buffer
      \<and> parse_value (3 * len buffer + 2) cancelled float_to_double
            (node_data (create_nbt TAG_End)) buffer False = Done (root, buffer1)
      \<and> pos buffer1 < len buffer1"
  then have a1: "dat \<noteq> []" and a2: "n \<le> length dat"
    and a3: "nbt_node_new_opt_buffer cancelled decompress dat n = Inr buffer"
    and a4: "parse_value (3 * len buffer + 2) cancelled float_to_double
            (node_data (create_nbt TAG_End)) buffer False = Done (root, buffer1)"
    and a5: "pos buffer1 < len buffer1"
    by blast+
  show "nbt_node_new_opt cancelled float_to_double decompress dat n =
          Done (Some root, Some (NBT_GLIB_PARSE_ERROR NBT_GLIB_PARSE_ERROR_LEFTOVER_DATA))"
    unfolding nbt_node_new_opt_parsed [OF a1 a2 a3 a4] using a5 by simp
next
  assume "nbt_node_new_opt cancelled float_to_double decompress dat n = Done (Some root', Some e)"
  then show "e = NBT_GLIB_PARSE_ERROR NBT_GLIB_PARSE_ERROR_LEFTOVER_DATA"
    by (rule nbt_node_new_opt_only_leftover)
qed

lemma leftover_example_buffer:
  "nbt_node_new_opt_buffer False (\<lambda>_ _. None) [1, 0, 0, 42, 99] 5 =
     Inr \<lparr>data = Some [1, 0, 0, 42, 99], len = 5, pos = 0\<rparr>"
  by code_simp

lemma leftover_example_parse:
  "parse_value (3 * len \<lparr>data = Some [1, 0, 0, 42, 99], len = 5, pos = 0\<rparr> + 2) False (\<lambda>_. 0)
     (node_data (create_nbt TAG_End)) \<lparr>data = Some [1, 0, 0, 42, 99], len = 5, pos = 0\<rparr> False =
   Done (GNode \<lparr>type = TAG_Byte, key = None, value_i = 42, value_d = 0,
                value_a_value = NULL_array, value_a_len = 0\<rparr> [],
         \<lparr>data = Some [1, 0, 0, 42, 99], len = 5, pos = 4\<rparr>)"
  by code_simp

theorem C6_leftover_data_witness:
  "nbt_node_new_opt False (\<lambda>_. 0) (\<lambda>_ _. None) [1, 0, 0, 42, 99] 5 =
     Done (Some (GNode \<lparr>type = TAG_Byte, key = None, value_i = 42, value_d = 0,
                         value_a_value = NULL_array, value_a_len = 0\<rparr> []),
           Some (NBT_GLIB_PARSE_ERROR NBT_GLIB_PARSE_ERROR_LEFTOVER_DATA))"
proof -
  have h1: "[1, 0, 0, 42, 99 :: guint8] \<noteq> []" by simp
  have h2: "5 \<le> length [1, 0, 0, 42, 99 :: guint8]" by simp
  have h5: "pos \<lparr>data = Some [1, 0, 0, 42, 99], len = 5, pos = 4\<rparr>
              < len \<lparr>data = Some [1, 0, 0, 42, 99 :: guint8], len = 5, pos = 4\<rparr>" by simp
  show ?thesis
    by (rule mp [OF conjunct1 [OF C6_leftover_data
          [where buffer = "\<lparr>data = Some [1, 0, 0, 42, 99], len = 5, pos = 0\<rparr>"
             and ?buffer1.0 = "\<lparr>data = Some [1, 0, 0, 42, 99], len = 5, pos = 4\<rparr>"]]])
       (intro conjI h1 h2 h5 leftover_example_buffer leftover_example_parse)
qed

subsection \<open>Getters\<close>

text \<open>
  Claim C10 as stated (a getter whose kind matches the node sets \<open>*failed\<close> to \<open>FALSE\<close> and
  returns the payload) fails for the array getters: called with \<open>len = NULL\<close> on a node of
  the matching kind, \<open>nbt_node_get_byte_array\<close> sets \<open>*failed\<close> to \<open>TRUE\<close> and returns \<open>NULL\<close>.
\<close>

theorem C10_array_getter_counterexample:
  "nbt_node_get_byte_array
     (Some (GNode \<lparr>type = TAG_Byte_Array, key = None, value_i = 0, value_d = 0,
                    value_a_value = Bytes [1, 2], value_a_len = 2\<rparr> [])) None (Some False) =
   (NULL_array, None, Some True)"
  by (simp add: nbt_node_get_byte_array_def fill_failed_def)

text \<open>
  Claim C10, amended.  Every getter, applied to \<open>NULL\<close> or to a node of another kind, sets
  \<open>*failed\<close> to \<open>TRUE\<close> and returns its sentinel (\<open>-1\<close>, the bit pattern of \<open>0.0\<close>, \<open>NULL\<close>);
  the array getters do the same when \<open>len\<close> is \<open>NULL\<close>, and leave \<open>*len\<close> alone.  Applied to
  a node of its kind (and, for the array getters, with a \<open>len\<close> that is not \<open>NULL\<close>) it sets
  \<open>*failed\<close> to \<open>FALSE\<close> and returns the payload: the \<open>int64\<close> converted to the return
  type for the integers, the \<open>double\<close> converted to \<open>float\<close> for \<open>nbt_node_get_float\<close>, the
  pointer and the length in \<open>*len\<close> for the arrays.  A \<open>failed\<close> that is \<open>NULL\<close> is not
  written.  The node is an argument only: no getter returns or changes it.
\<close>

theorem C10_getters:
  "((\<forall>nd. node = Some nd \<longrightarrow> type (node_data nd) \<noteq> TAG_Byte) \<longrightarrow>
      nbt_node_get_byte node failed = (- 1, fill_failed failed True))
   \<and> (node = Some n \<and> type (node_data n) = TAG_Byte \<longrightarrow>
      nbt_node_get_byte node failed = (ucast (value_i (node_data n)), fill_failed failed False))
   \<and> ((\<forall>nd. node = Some nd \<longrightarrow> type (node_data nd) \<noteq> TAG_Short) \<longrightarrow>
      nbt_node_get_short node failed = (- 1, fill_failed failed True))
   \<and> (node = Some n \<and> type (node_data n) = TAG_Short \<longrightarrow>
      nbt_node_get_short node failed = (ucast (value_i (node_data n)), fill_failed failed False))
   \<and> ((\<forall>nd. node = Some nd \<longrightarrow> type (node_data nd) \<noteq> TAG_Int) \<longrightarrow>
      nbt_node_get_int node failed = (- 1, fill_failed failed True))
   \<and> (node = Some n \<and> type (node_data n) = TAG_Int \<longrightarrow>
      nbt_node_get_int node failed = (ucast (value_i (node_data n)), fill_failed failed False))
   \<and> ((\<forall>nd. node = Some nd \<longrightarrow> type (node_data nd) \<noteq> TAG_Long) \<longrightarrow>
      nbt_node_get_long node failed = (- 1, fill_failed failed True))
   \<and> (node = Some n \<and> type (node_data n) = TAG_Long \<longrightarrow>
      nbt_node_get_long node failed = (value_i (node_data n), fill_failed failed False))
   \<and> ((\<forall>nd. node = Some nd \<longrightarrow> type (node_data nd) \<noteq> TAG_Float) \<longrightarrow>
      nbt_node_get_float double_to_float node failed = (0, fill_failed failed True))
   \<and> (node = Some n \<and> type (node_data n) = TAG_Float \<longrightarrow>
      nbt_node_get_float double_to_float node failed =
        (double_to_float (value_d (node_data n)), fill_failed failed False))
   \<and> ((\<forall>nd. node = Some nd \<longrightarrow> type (node_data nd) \<noteq> TAG_Double) \<longrightarrow>
      nbt_node_get_double node failed = (0, fill_failed failed True))
   \<and> (node = Some n \<and> type (node_data n) = TAG_Double \<longrightarrow>
      nbt_node_get_double node failed = (value_d (node_data n), fill_failed failed False))
   \<and> ((\<forall>nd. node = Some nd \<longrightarrow> type (node_data nd) \<noteq> TAG_String) \<longrightarrow>
      nbt_node_get_string node failed = (NULL_array, fill_failed failed True))
   \<and> (node = Some n \<and> type (node_data n) = TAG_String \<longrightarrow>
      nbt_node_get_string node failed = (value_a_value (node_data n), fill_failed failed False))
   \<and> ((\<forall>nd. node = Some nd \<longrightarrow> type (node_data nd) \<noteq> TAG_Byte_Array) \<or> len_p = None \<longrightarrow>
      nbt_node_get_byte_array node len_p failed = (NULL_array, len_p, fill_failed failed True))
   \<and> (node = Some n \<and> type (node_data n) = TAG_Byte_Array \<and> len_p = Some l \<longrightarrow>
      nbt_node_get_byte_array node len_p failed =
        (value_a_value (node_data n), Some (value_a_len (node_data n)), fill_failed failed False))
   \<and> ((\<forall>nd. node = Some nd \<longrightarrow> type (node_data nd) \<noteq> TAG_Int_Array) \<or> len_p = None \<longrightarrow>
      nbt_node_get_int_array node len_p failed = (NULL_array, len_p, fill_failed failed True))
   \<and> (node = Some n \<and> type (node_data n) = TAG_Int_Array \<and> len_p = Some l \<longrightarrow>
      nbt_node_get_int_array node len_p failed =
        (value_a_value (node_data n), Some (value_a_len (node_data n)), fill_failed failed False))
   \<and> ((\<forall>nd. node = Some nd \<longrightarrow> type (node_data nd) \<noteq> TAG_Long_Array) \<or> len_p = None \<longrightarrow>
      nbt_node_get_long_array node len_p failed = (NULL_array, len_p, fill_failed failed True))
   \<and> (node = Some n \<and> type (node_data n) = TAG_Long_Array \<and> len_p = Some l \<longrightarrow>
      nbt_node_get_long_array node len_p failed =
        (value_a_value (node_data n), Some (value_a_len (node_data n)), fill_failed failed False))
   \<and> fill_failed (Some b) v = Some v \<and> fill_failed None v = None"
  apply (intro conjI)
  subgoal by (cases node) (simp_all add: nbt_node_get_byte_def)
  subgoal by (simp add: nbt_node_get_byte_def)
  subgoal by (cases node) (simp_all add: nbt_node_get_short_def)
  subgoal by (simp add: nbt_node_get_short_def)
  subgoal by (cases node) (simp_all add: nbt_node_get_int_def)
  subgoal by (simp add: nbt_node_get_int_def)
  subgoal by (cases node) (simp_all add: nbt_node_get_long_def)
  subgoal by (simp add: nbt_node_get_long_def)
  subgoal by (cases node) (simp_all add: nbt_node_get_float_def)
  subgoal by (simp add: nbt_node_get_float_def)
  subgoal by (cases node) (simp_all add: nbt_node_get_double_def)
  subgoal by (simp add: nbt_node_get_double_def)
  subgoal by (cases node) (simp_all add: nbt_node_get_string_def)
  subgoal by (simp add: nbt_node_get_string_def)
  subgoal by (cases node) (auto simp: nbt_node_get_byte_array_def)
  subgoal by (simp add: nbt_node_get_byte_array_def)
  subgoal by (cases node) (auto simp: nbt_node_get_int_array_def)
  subgoal by (simp add: nbt_node_get_int_array_def)
  subgoal by (cases node) (auto simp: nbt_node_get_long_array_def)
  subgoal by (simp add: nbt_node_get_long_array_def)
  subgoal by (simp add: fill_failed_def)
  subgoal by (simp add: fill_failed_def)
  done

theorem C10_getters_witness:
  "nbt_node_get_byte (Some (GNode (g_new0_NbtData\<lparr>type := TAG_Byte, value_i := 255\<rparr>) [])) (Some True) = (- 1, Some False)
   \<and> nbt_node_get_short (Some (GNode (g_new0_NbtData\<lparr>type := TAG_Byte, value_i := 255\<rparr>) [])) (Some False) = (- 1, Some True)
   \<and> nbt_node_get_short (Some (GNode (g_new0_NbtData\<lparr>type := TAG_Short, value_i := 7\<rparr>) [])) (Some True) = (7, Some False)
   \<and> nbt_node_get_int (Some (GNode (g_new0_NbtData\<lparr>type := TAG_Short, value_i := 7\<rparr>) [])) (Some False) = (- 1, Some True)
   \<and> nbt_node_get_int (Some (GNode (g_new0_NbtData\<lparr>type := TAG_Int, value_i := 7\<rparr>) [])) (Some True) = (7, Some False)
   \<and> nbt_node_get_long (Some (GNode (g_new0_NbtData\<lparr>type := TAG_Int, value_i := 7\<rparr>) [])) (Some False) = (- 1, Some True)
   \<and> nbt_node_get_long (Some (GNode (g_new0_NbtData\<lparr>type := TAG_Long, value_i := 7\<rparr>) [])) (Some True) = (7, Some False)
   \<and> nbt_node_get_float (\<lambda>d. ucast d) (Some (GNode (g_new0_NbtData\<lparr>type := TAG_Long, value_i := 7\<rparr>) [])) (Some False) = (0, Some True)
   \<and> nbt_node_get_float (\<lambda>d. ucast d) (Some (GNode (g_new0_NbtData\<lparr>type := TAG_Float, value_d := 7\<rparr>) [])) (Some True) = (7, Some False)
   \<and> nbt_node_get_double (Some (GNode (g_new0_NbtData\<lparr>type := TAG_Float, value_d := 7\<rparr>) [])) (Some False) = (0, Some True)
   \<and> nbt_node_get_double (Some (GNode (g_new0_NbtData\<lparr>type := TAG_Double, value_d := 7\<rparr>) [])) (Some True) = (7, Some False)
   \<and> nbt_node_get_string (Some (GNode (g_new0_NbtData\<lparr>type := TAG_Double, value_d := 7\<rparr>) [])) (Some False) = (NULL_array, Some True)
   \<and> nbt_node_get_string (Some (GNode (g_new0_NbtData\<lparr>type := TAG_String, value_a_value := Chars [0x41]\<rparr>) [])) (Some True) = (Chars [0x41], Some False)
   \<and> nbt_node_get_byte_array (Some (GNode (g_new0_NbtData\<lparr>type := TAG_String, value_a_value := Chars [0x41]\<rparr>) [])) (Some 0) (Some False) = (NULL_array, Some 0, Some True)
   \<and> nbt_node_get_byte_array (Some (GNode (g_new0_NbtData\<lparr>type := TAG_Byte_Array, value_a_value := Bytes [1, 2], value_a_len := 2\<rparr>) [])) (Some 0) (Some True) = (Bytes [1, 2], Some 2, Some False)
   \<and> nbt_node_get_int_array (Some (GNode (g_new0_NbtData\<lparr>type := TAG_Byte_Array, value_a_value := Bytes [1, 2], value_a_len := 2\<rparr>) [])) (Some 0) (Some False) = (NULL_array, Some 0, Some True)
   \<and> nbt_node_get_int_array (Some (GNode (g_new0_NbtData\<lparr>type := TAG_Int_Array, value_a_value := Ints [1, 2], value_a_len := 2\<rparr>) [])) (Some 0) (Some True) = (Ints [1, 2], Some 2, Some False)
   \<and> nbt_node_get_long_array (Some (GNode (g_new0_NbtData\<lparr>type := TAG_Int_Array, value_a_value := Ints [1, 2], value_a_len := 2\<rparr>) [])) (Some 0) (Some False) = (NULL_array, Some 0, Some True)
   \<and> nbt_node_get_long_array (Some (GNode (g_new0_NbtData\<lparr>type := TAG_Long_Array, value_a_value := Longs [1, 2], value_a_len := 2\<rparr>) [])) (Some 0) (Some True) = (Longs [1, 2], Some 2, Some False)
   \<and> nbt_node_get_byte (Some (GNode (g_new0_NbtData\<lparr>type := TAG_Long_Array, value_a_value := Longs [1, 2], value_a_len := 2\<rparr>) [])) (Some False) = (- 1, Some True)
   \<and> nbt_node_get_byte None (Some False) = (- 1, Some True)
   \<and> nbt_node_get_byte_array (Some (GNode (g_new0_NbtData\<lparr>type := TAG_Byte_Array, value_a_value := Bytes [1, 2], value_a_len := 2\<rparr>) [])) None (Some False) = (NULL_array, None, Some True)"
  using
    
C10_getters [where node = "Some (GNode (g_new0_NbtData\<lparr>type := TAG_Byte, value_i := 255\<rparr>) [])" and n = "GNode (g_new0_NbtData\<lparr>type := TAG_Byte, value_i := 255\<rparr>) []"
        and failed = "Some True" and len_p = "Some 0" and l = 0 and double_to_float = "\<lambda>d. ucast d"]    C10_getters [where node = "Some (GNode (g_new0_NbtData\<lparr>type := TAG_Byte, value_i := 255\<rparr>) [])" and n = "GNode (g_new0_NbtData\<lparr>type := TAG_Byte, value_i := 255\<rparr>) []"
        and failed = "Some False" and len_p = "Some 0" and l = 0 and double_to_float = "\<lambda>d. ucast d"]    C10_getters [where node = "Some (GNode (g_new0_NbtData\<lparr>type := TAG_Short, value_i := 7\<rparr>) [])" and n = "GNode (g_new0_NbtData\<lparr>type := TAG_Short, value_i := 7\<rparr>) []"
        and failed = "Some True" and len_p = "Some 0" and l = 0 and double_to_float = "\<lambda>d. ucast d"]    C10_getters [where node = "Some (GNode (g_new0_NbtData\<lparr>type := TAG_Short, value_i := 7\<rparr>) [])" and n = "GNode (g_new0_NbtData\<lparr>type := TAG_Short, value_i := 7\<rparr>) []"
        and failed = "Some False" and len_p = "Some 0" and l = 0 and double_to_float = "\<lambda>d. ucast d"]    C10_getters [where node = "Some (GNode (g_new0_NbtData\<lparr>type := TAG_Int, value_i := 7\<rparr>) [])" and n = "GNode (g_new0_NbtData\<lparr>type := TAG_Int, value_i := 7\<rparr>) []"
        and failed = "Some True" and len_p = "Some 0" and l = 0 and double_to_float = "\<lambda>d. ucast d"]    C10_getters [where node = "Some (GNode (g_new0_NbtData\<lparr>type := TAG_Int, value_i := 7\<rparr>) [])" and n = "GNode (g_new0_NbtData\<lparr>type := TAG_Int, value_i := 7\<rparr>) []"
        and failed = "Some False" and len_p = "Some 0" and l = 0 and double_to_float = "\<lambda>d. ucast d"]    C10_getters [where node = "Some (GNode (g_new0_NbtData\<lparr>type := TAG_Long, value_i := 7\<rparr>) [])" and n = "GNode (g_new0_NbtData\<lparr>type := TAG_Long, value_i := 7\<rparr>) []"
        and failed = "Some True" and len_p = "Some 0" and l = 0 and double_to_float = "\<lambda>d. ucast d"]    C10_getters [where node = "Some (GNode (g_new0_NbtData\<lparr>type := TAG_Long, value_i := 7\<rparr>) [])" and n = "GNode (g_new0_NbtData\<lparr>type := TAG_Long, value_i := 7\<rparr>) []"
        and failed = "Some False" and len_p = "Some 0" and l = 0 and double_to_float = "\<lambda>d. ucast d"]    C10_getters [where node = "Some (GNode (g_new0_NbtData\<lparr>type := TAG_Float, value_d := 7\<rparr>) [])" and n = "GNode (g_new0_NbtData\<lparr>type := TAG_Float, value_d := 7\<rparr>) []"
        and failed = "Some True" and len_p = "Some 0" and l = 0 and double_to_float = "\<lambda>d. ucast d"]    C10_getters [where node = "Some (GNode (g_new0_NbtData\<lparr>type := TAG_Float, value_d := 7\<rparr>) [])" and n = "GNode (g_new0_NbtData\<lparr>type := TAG_Float, value_d := 7\<rparr>) []"
        and failed = "Some False" and len_p = "Some 0" and l = 0 and double_to_float = "\<lambda>d. ucast d"]    C10_getters [where node = "Some (GNode (g_new0_NbtData\<lparr>type := TAG_Double, value_d := 7\<rparr>) [])" and n = "GNode (g_new0_NbtData\<lparr>type := TAG_Double, value_d := 7\<rparr>) []"
        and failed = "Some True" and len_p = "Some 0" and l = 0 and double_to_float = "\<lambda>d. ucast d"]    C10_getters [where node = "Some (GNode (g_new0_NbtData\<lparr>type := TAG_Double, value_d := 7\<rparr>) [])" and n = "GNode (g_new0_NbtData\<lparr>type := TAG_Double, value_d := 7\<rparr>) []"
        and failed = "Some False" and len_p = "Some 0" and l = 0 and double_to_float = "\<lambda>d. ucast d"]    C10_getters [where node = "Some (GNode (g_new0_NbtData\<lparr>type := TAG_String, value_a_value := Chars [0x41]\<rparr>) [])" and n = "GNode (g_new0_NbtData\<lparr>type := TAG_String, value_a_value := Chars [0x41]\<rparr>) []"
        and failed = "Some True" and len_p = "Some 0" and l = 0 and double_to_float = "\<lambda>d. ucast d"]    C10_getters [where node = "Some (GNode (g_new0_NbtData\<lparr>type := TAG_String, value_a_value := Chars [0x41]\<rparr>) [])" and n = "GNode (g_new0_NbtData\<lparr>type := TAG_String, value_a_value := Chars [0x41]\<rparr>) []"
        and failed = "Some False" and len_p = "Some 0" and l = 0 and double_to_float = "\<lambda>d. ucast d"]    C10_getters [where node = "Some (GNode (g_new0_NbtData\<lparr>type := TAG_Byte_Array, value_a_value := Bytes [1, 2], value_a_len := 2\<rparr>) [])" and n = "GNode (g_new0_NbtData\<lparr>type := TAG_Byte_Array, value_a_value := Bytes [1, 2], value_a_len := 2\<rparr>) []"
        and failed = "Some True" and len_p = "Some 0" and l = 0 and double_to_float = "\<lambda>d. ucast d"]    C10_getters [where node = "Some (GNode (g_new0_NbtData\<lparr>type := TAG_Byte_Array, value_a_value := Bytes [1, 2], value_a_len := 2\<rparr>) [])" and n = "GNode (g_new0_NbtData\<lparr>type := TAG_Byte_Array, value_a_value := Bytes [1, 2], value_a_len := 2\<rparr>) []"
        and failed = "Some False" and len_p = "Some 0" and l = 0 and double_to_float = "\<lambda>d. ucast d"]    C10_getters [where node = "Some (GNode (g_new0_NbtData\<lparr>type := TAG_Int_Array, value_a_value := Ints [1, 2], value_a_len := 2\<rparr>) [])" and n = "GNode (g_new0_NbtData\<lparr>type := TAG_Int_Array, value_a_value := Ints [1, 2], value_a_len := 2\<rparr>) []"
        and failed = "Some True" and len_p = "Some 0" and l = 0 and double_to_float = "\<lambda>d. ucast d"]    C10_getters [where node = "Some (GNode (g_new0_NbtData\<lparr>type := TAG_Int_Array, value_a_value := Ints [1, 2], value_a_len := 2\<rparr>) [])" and n = "GNode (g_new0_NbtData\<lparr>type := TAG_Int_Array, value_a_value := Ints [1, 2], value_a_len := 2\<rparr>) []"
        and failed = "Some False" and len_p = "Some 0" and l = 0 and double_to_float = "\<lambda>d. ucast d"]    C10_getters [where node = "Some (GNode (g_new0_NbtData\<lparr>type := TAG_Long_Array, value_a_value := Longs [1, 2], value_a_len := 2\<rparr>) [])" and n = "GNode (g_new0_NbtData\<lparr>type := TAG_Long_Array, value_a_value := Longs [1, 2], value_a_len := 2\<rparr>) []"
        and failed = "Some True" and len_p = "Some 0" and l = 0 and double_to_float = "\<lambda>d. ucast d"]    C10_getters [where node = "Some (GNode (g_new0_NbtData\<lparr>type := TAG_Long_Array, value_a_value := Longs [1, 2], value_a_len := 2\<rparr>) [])" and n = "GNode (g_new0_NbtData\<lparr>type := TAG_Long_Array, value_a_value := Longs [1, 2], value_a_len := 2\<rparr>) []"
        and failed = "Some False" and len_p = "Some 0" and l = 0 and double_to_float = "\<lambda>d. ucast d"]    C10_getters [where node = None and failed = "Some False" and len_p = "Some 0"
        and double_to_float = "\<lambda>d. ucast d"]    C10_getters [where node = "Some (GNode (g_new0_NbtData\<lparr>type := TAG_Byte_Array, value_a_value := Bytes [1, 2], value_a_len := 2\<rparr>) [])" and n = "GNode (g_new0_NbtData\<lparr>type := TAG_Byte_Array, value_a_value := Bytes [1, 2], value_a_len := 2\<rparr>) []"
        and failed = "Some False" and len_p = None and double_to_float = "\<lambda>d. ucast d"]
  by (simp add: fill_failed_def)

subsection \<open>The sector cursor of the region writer\<close>

lemma fpos_fwrite: "fpos (fwrite ptr n fp) = fpos fp + min n (length ptr)"
  by (simp add: fwrite_def min_def)

lemma fpos_fputc: "fpos (fputc c fp) = fpos fp + 1"
  by (simp add: fputc_def fpos_fwrite)

lemma fpos_fseek_SET: "0 \<le> off \<Longrightarrow> fpos (fseek_SET fp off) = nat off"
  by (simp add: fseek_SET_def)

lemma c_int_id: "- (2 ^ 31) \<le> x \<Longrightarrow> x < 2 ^ 31 \<Longrightarrow> c_int x = x"
  unfolding c_int_def by (rule signed_take_bit_int_eq_self) simp_all

lemma slot_cursor:
  assumes raw: "rawdata mca i = Some raw"
    and len: "unat (size mca i) \<le> length raw"
    and cur: "0 \<le> current"
    and fit: "current * 4096 + int (unat (size mca i)) + 5 < 2 ^ 31"
  shows "fst (snd (MCA_WriteRaw_File_slot mca (fp, current, offsets) i)) =
           current + (int (unat (size mca i)) + 5) div 4096 + 1"
proof -
  have small: "current * 4096 < 2 ^ 31" using fit by linarith
  have seek: "c_int (current * 4096) = current * 4096"
    using cur small by (simp add: c_int_id)
  have nonneg: "0 \<le> current * 4096" using cur by simp
  let ?fp7 = "fwrite raw (unat (size mca i + 1 - 1))
      (fputc 2 (fputc (ucast ((size mca i + 1) AND 0xff))
        (fputc (ucast (drop_bit 8 (size mca i + 1) AND 0xff))
          (fputc (ucast (drop_bit 16 (size mca i + 1) AND 0xff))
            (fputc (ucast (drop_bit 24 (size mca i + 1) AND 0xff))
              (fseek_SET fp (current * 4096)))))))"
  have tell: "ftell ?fp7 = current * 4096 + 5 + int (unat (size mca i))"
    using len nonneg by (simp add: ftell_def fpos_fwrite fpos_fputc fpos_fseek_SET)
  have div: "(current * 4096 + 5 + int (unat (size mca i))) div 2 ^ 12
               = current + (int (unat (size mca i)) + 5) div 4096"
    by simp
  have "(int (unat (size mca i)) + 5) div 4096 \<le> int (unat (size mca i)) + 5"
    by (rule order_trans [OF zdiv_mono2 [of _ 1 4096]]) simp_all
  then have bound: "current + (int (unat (size mca i)) + 5) div 4096 + 1 < 2 ^ 31"
    using cur fit by linarith
  have pos: "0 \<le> (int (unat (size mca i)) + 5) div 4096"
    by (simp add: pos_imp_zdiv_nonneg_iff add_nonneg_nonneg)
  have newpos: "c_int (ftell ?fp7 div 2 ^ 12 + 1) = current + (int (unat (size mca i)) + 5) div 4096 + 1"
    unfolding tell div using cur bound pos by (intro c_int_id) linarith+
  show ?thesis
    using newpos by (simp add: MCA_WriteRaw_File_slot_def raw seek Let_def)
qed

lemma slot_absent:
  "rawdata mca i = None \<Longrightarrow>
     fst (snd (MCA_WriteRaw_File_slot mca (fp, current, offsets) i)) = current"
  by (simp add: MCA_WriteRaw_File_slot_def)

lemma sector_ceiling:
  fixes x :: int
  assumes "0 \<le> x"
  shows "x div 4096 + 1 = (x + 4095) div 4096 + (if x mod 4096 = 0 then 1 else 0)"
proof -
  define q where "q = x div 4096"
  define r where "r = x mod 4096"
  have x: "x = r + 4096 * q" by (simp add: q_def r_def)
  have r: "0 \<le> r" "r < 4096" by (simp_all add: r_def)
  have split: "(x + 4095) div 4096 = q + (r + 4095) div 4096"
    unfolding x by (simp add: add.commute add.left_commute)
  show ?thesis
  proof (cases "r = 0")
    case True
    then show ?thesis using split by (simp add: q_def r_def)
  next
    case False
    with r have "4096 \<le> r + 4095" "r + 4095 - 4096 < 4096" "0 \<le> r + 4095 - 4096" by simp_all
    then have "(r + 4095) div 4096 = 1"
      using div_pos_geq [of 4096 "r + 4095"] div_pos_pos_trivial [of "r + 4095 - 4096" 4096]
      by simp
    with False split show ?thesis by (simp add: q_def r_def)
  qed
qed

text \<open>
  Claim C9 (the cursor of the next free sector starts at \<open>2\<close> and advances after each
  written slot by the ceiling of \<open>(bytes + 5) / 4096\<close> sectors).  The cursor starts at
  \<open>2\<close> and an absent slot leaves it where it is.  A present slot of \<open>bytes\<close> bytes
  advances it by \<open>(bytes + 5) div 4096 + 1\<close> sectors: that is the ceiling when
  \<open>bytes + 5\<close> is no multiple of \<open>4096\<close>, and one sector more than the ceiling when it
  is.  This holds as long as the block of the slot has the bytes that \<open>size\<close> announces
  and the file offsets fit the \<open>int\<close> that holds the cursor.  The sector count that the
  table of offsets records for the slot is this advance, so for a multiple of \<open>4096\<close> it
  names a sector behind the written bytes; the last subsection runs such a slot through
  \<open>MCA_WriteRaw_File\<close> and \<open>MCA_ReadRaw\<close>.
\<close>

theorem C9_cursor:
  "fst (snd (MCA_WriteRaw_File_loop mca fp 0)) = 2
   \<and> (rawdata mca k = None \<longrightarrow>
        fst (snd (MCA_WriteRaw_File_loop mca fp (Suc k))) =
          fst (snd (MCA_WriteRaw_File_loop mca fp k)))
   \<and> (rawdata mca k = Some raw \<and> unat (size mca k) \<le> length raw
        \<and> 0 \<le> fst (snd (MCA_WriteRaw_File_loop mca fp k))
        \<and> fst (snd (MCA_WriteRaw_File_loop mca fp k)) * 4096 + int (unat (size mca k)) + 5
            < 2 ^ 31 \<longrightarrow>
        fst (snd (MCA_WriteRaw_File_loop mca fp (Suc k))) =
          fst (snd (MCA_WriteRaw_File_loop mca fp k)) + (int (unat (size mca k)) + 5) div 4096 + 1
        \<and> (int (unat (size mca k)) + 5) div 4096 + 1 =
            (int (unat (size mca k)) + 5 + 4095) div 4096
              + (if (int (unat (size mca k)) + 5) mod 4096 = 0 then 1 else 0))"
proof (intro conjI impI)
  show "fst (snd (MCA_WriteRaw_File_loop mca fp 0)) = 2" by simp
next
  assume "rawdata mca k = None"
  then show "fst (snd (MCA_WriteRaw_File_loop mca fp (Suc k))) =
          fst (snd (MCA_WriteRaw_File_loop mca fp k))"
    by (cases "MCA_WriteRaw_File_loop mca fp k") (simp add: slot_absent)
next
  assume a: "rawdata mca k = Some raw \<and> unat (size mca k) \<le> length raw
        \<and> 0 \<le> fst (snd (MCA_WriteRaw_File_loop mca fp k))
        \<and> fst (snd (MCA_WriteRaw_File_loop mca fp k)) * 4096 + int (unat (size mca k)) + 5
            < 2 ^ 31"
  obtain f c offs where st: "MCA_WriteRaw_File_loop mca fp k = (f, c, offs)"
    by (cases "MCA_WriteRaw_File_loop mca fp k") auto
  from a st have "fst (snd (MCA_WriteRaw_File_slot mca (f, c, offs) k)) =
      c + (int (unat (size mca k)) + 5) div 4096 + 1"
    by (intro slot_cursor [where raw = raw]) simp_all
  then show "fst (snd (MCA_WriteRaw_File_loop mca fp (Suc k))) =
          fst (snd (MCA_WriteRaw_File_loop mca fp k)) + (int (unat (size mca k)) + 5) div 4096 + 1"
    by (simp add: st)
next
  show "(int (unat (size mca k)) + 5) div 4096 + 1 =
            (int (unat (size mca k)) + 5 + 4095) div 4096
              + (if (int (unat (size mca k)) + 5) mod 4096 = 0 then 1 else 0)"
    by (rule sector_ceiling) simp
qed

subsection \<open>Lists of element kind End\<close>

text \<open>
  Claim C4 (a List header with element kind End and a length that is not zero makes
  the decoder fail with \<open>NBT_GLIB_PARSE_ERROR_INVALID_TAG\<close>, and \<open>nbt_node_new_opt\<close> returns
  \<open>NULL\<close>; an empty List of element kind End decodes).  The first part is the run of
  \<open>parse_value\<close> on a node that is a List, at any depth, with or without a name, once the
  header is read: it fails with that code when the length is not zero and returns the
  list without children when it is.  The next six parts say that a failure of a run of
  \<open>parse_value\<close> on an element of a list or a member of a compound, at the first or a
  later position, is the failure of the loop, and a failure of the loop is the failure
  of the run on the list or the compound.  The last part says that a failure of the
  outermost run is what \<open>nbt_node_new_opt\<close> leaves in \<open>*err\<close>, returning \<open>NULL\<close>.
\<close>

theorem C4_list_of_end:
  "(data b \<noteq> None
      \<and> parse_value_tag d b = Done (TAG_List, d1, b1)
      \<and> parse_value_key skipkey d1 b1 = Done (d2, b2)
      \<and> LIBNBT_getUint8 b2 = Some (0, b3)
      \<and> LIBNBT_getUint32 b3 = Some (n, b4)
    \<longrightarrow> (n \<noteq> 0 \<longrightarrow>
           parse_value (Suc fuel) False float_to_double d b skipkey =
             Failed NBT_GLIB_PARSE_ERROR_INVALID_TAG)
       \<and> (n = 0 \<longrightarrow>
           parse_value (Suc (Suc fuel)) False float_to_double d b skipkey =
             Done (GNode d2 [], b4)))
   \<and> (i < m
      \<and> parse_value fuel False float_to_double (node_data (create_nbt list_type)) lb True =
          Failed e
    \<longrightarrow> parse_value_list (Suc fuel) False float_to_double list_type i m kids lb = Failed e)
   \<and> (i < m
      \<and> parse_value fuel False float_to_double (node_data (create_nbt list_type)) lb True =
          Done (child, lb1)
      \<and> parse_value_list fuel False float_to_double list_type (i + 1) m (kids @ [child]) lb1 =
          Failed e
    \<longrightarrow> parse_value_list (Suc fuel) False float_to_double list_type i m kids lb = Failed e)
   \<and> (LIBNBT_getUint8 cb = Some (t, cb1) \<and> t \<noteq> 0
      \<and> parse_value fuel False float_to_double (node_data (create_nbt (unat t))) cb1 False =
          Failed e
    \<longrightarrow> parse_value_compound (Suc fuel) False float_to_double kids cb = Failed e)
   \<and> (LIBNBT_getUint8 cb = Some (t, cb1) \<and> t \<noteq> 0
      \<and> parse_value fuel False float_to_double (node_data (create_nbt (unat t))) cb1 False =
          Done (child, cb2)
      \<and> parse_value_compound fuel False float_to_double (kids @ [child]) cb2 = Failed e
    \<longrightarrow> parse_value_compound (Suc fuel) False float_to_double kids cb = Failed e)
   \<and> (data b \<noteq> None
      \<and> parse_value_tag d b = Done (TAG_List, d1, b1)
      \<and> parse_value_key skipkey d1 b1 = Done (d2, b2)
      \<and> parse_value_list_head b2 = Done (list_type, m, b3)
      \<and> parse_value_list fuel False float_to_double list_type 0 m [] b3 = Failed e
    \<longrightarrow> parse_value (Suc fuel) False float_to_double d b skipkey = Failed e)
   \<and> (data b \<noteq> None
      \<and> parse_value_tag d b = Done (TAG_Compound, d1, b1)
      \<and> parse_value_key skipkey d1 b1 = Done (d2, b2)
      \<and> parse_value_compound fuel False float_to_double [] b2 = Failed e
    \<longrightarrow> parse_value (Suc fuel) False float_to_double d b skipkey = Failed e)
   \<and> (dat \<noteq> [] \<and> len_arg \<le> length dat
      \<and> nbt_node_new_opt_buffer False decompress dat len_arg = Inr buffer
      \<and> parse_value (3 * len buffer + 2) False float_to_double
            (node_data (create_nbt TAG_End)) buffer False = Failed e
    \<longrightarrow> nbt_node_new_opt False float_to_double decompress dat len_arg =
          Done (None, Some (NBT_GLIB_PARSE_ERROR e)))"
  apply (intro conjI impI)
  subgoal by (auto simp add: parse_value.simps on_success_def parse_value_list_head_def)
  subgoal by (auto simp add: parse_value.simps parse_value_list.simps on_success_def
        parse_value_list_head_def)
  subgoal by (simp add: parse_value_list.simps on_success_def)
  subgoal by (simp add: parse_value_list.simps on_success_def)
  subgoal by (simp add: parse_value_compound.simps on_success_def)
  subgoal by (simp add: parse_value_compound.simps on_success_def)
  subgoal by (auto simp add: parse_value.simps on_success_def)
  subgoal by (auto simp add: parse_value.simps on_success_def)
  subgoal by (simp add: nbt_node_new_opt_parsed)
  done

lemma bad_root_hyp:
  "data (\<lparr>data = Some [9, 0, 0, 0, 0, 0, 0, 1], len = 8, pos = 0\<rparr>) \<noteq> None
     \<and> parse_value_tag (node_data (create_nbt TAG_End)) (\<lparr>data = Some [9, 0, 0, 0, 0, 0, 0, 1], len = 8, pos = 0\<rparr>) = Done (TAG_List, g_new0_NbtData\<lparr>type := TAG_List\<rparr>, \<lparr>data = Some [9, 0, 0, 0, 0, 0, 0, 1], len = 8, pos = 1\<rparr>)
     \<and> parse_value_key False (g_new0_NbtData\<lparr>type := TAG_List\<rparr>) (\<lparr>data = Some [9, 0, 0, 0, 0, 0, 0, 1], len = 8, pos = 1\<rparr>) = Done (g_new0_NbtData\<lparr>type := TAG_List\<rparr>, \<lparr>data = Some [9, 0, 0, 0, 0, 0, 0, 1], len = 8, pos = 3\<rparr>)
     \<and> LIBNBT_getUint8 (\<lparr>data = Some [9, 0, 0, 0, 0, 0, 0, 1], len = 8, pos = 3\<rparr>) = Some (0, \<lparr>data = Some [9, 0, 0, 0, 0, 0, 0, 1], len = 8, pos = 4\<rparr>)
     \<and> LIBNBT_getUint32 (\<lparr>data = Some [9, 0, 0, 0, 0, 0, 0, 1], len = 8, pos = 4\<rparr>) = Some (1, \<lparr>data = Some [9, 0, 0, 0, 0, 0, 0, 1], len = 8, pos = 8\<rparr>)"
  by code_simp

lemma empty_root_hyp:
  "data (\<lparr>data = Some [9, 0, 0, 0, 0, 0, 0, 0], len = 8, pos = 0\<rparr>) \<noteq> None
     \<and> parse_value_tag (node_data (create_nbt TAG_End)) (\<lparr>data = Some [9, 0, 0, 0, 0, 0, 0, 0], len = 8, pos = 0\<rparr>) = Done (TAG_List, g_new0_NbtData\<lparr>type := TAG_List\<rparr>, \<lparr>data = Some [9, 0, 0, 0, 0, 0, 0, 0], len = 8, pos = 1\<rparr>)
     \<and> parse_value_key False (g_new0_NbtData\<lparr>type := TAG_List\<rparr>) (\<lparr>data = Some [9, 0, 0, 0, 0, 0, 0, 0], len = 8, pos = 1\<rparr>) = Done (g_new0_NbtData\<lparr>type := TAG_List\<rparr>, \<lparr>data = Some [9, 0, 0, 0, 0, 0, 0, 0], len = 8, pos = 3\<rparr>)
     \<and> LIBNBT_getUint8 (\<lparr>data = Some [9, 0, 0, 0, 0, 0, 0, 0], len = 8, pos = 3\<rparr>) = Some (0, \<lparr>data = Some [9, 0, 0, 0, 0, 0, 0, 0], len = 8, pos = 4\<rparr>)
     \<and> LIBNBT_getUint32 (\<lparr>data = Some [9, 0, 0, 0, 0, 0, 0, 0], len = 8, pos = 4\<rparr>) = Some (0, \<lparr>data = Some [9, 0, 0, 0, 0, 0, 0, 0], len = 8, pos = 8\<rparr>)"
  by code_simp

lemma bad_element_hyp:
  "(0 :: nat) < 1
     \<and> parse_value (Suc 0) False (\<lambda>_. 0) (node_data (create_nbt TAG_List)) (\<lparr>data = Some [9, 0, 0, 9, 0, 0, 0, 1, 0, 0, 0, 0, 1], len = 13, pos = 8\<rparr>) True = Failed NBT_GLIB_PARSE_ERROR_INVALID_TAG"
  by code_simp

lemma bad_second_element_hyp:
  "(0 :: nat) < 2
     \<and> parse_value (Suc (Suc 0)) False (\<lambda>_. 0) (node_data (create_nbt TAG_List)) (\<lparr>data = Some [9, 0, 0, 9, 0, 0, 0, 2, 0, 0, 0, 0, 0, 0, 0, 0, 0, 1], len = 18, pos = 8\<rparr>) True = Done (GNode (g_new0_NbtData\<lparr>type := TAG_List\<rparr>) [], \<lparr>data = Some [9, 0, 0, 9, 0, 0, 0, 2, 0, 0, 0, 0, 0, 0, 0, 0, 0, 1], len = 18, pos = 13\<rparr>)
     \<and> parse_value_list (Suc (Suc 0)) False (\<lambda>_. 0) TAG_List (0 + 1) 2 ([] @ [GNode (g_new0_NbtData\<lparr>type := TAG_List\<rparr>) []]) (\<lparr>data = Some [9, 0, 0, 9, 0, 0, 0, 2, 0, 0, 0, 0, 0, 0, 0, 0, 0, 1], len = 18, pos = 13\<rparr>) = Failed NBT_GLIB_PARSE_ERROR_INVALID_TAG"
  by code_simp

lemma bad_member_hyp:
  "LIBNBT_getUint8 (\<lparr>data = Some [10, 0, 0, 9, 0, 0, 0, 0, 0, 0, 1], len = 11, pos = 3\<rparr>) = Some (9, \<lparr>data = Some [10, 0, 0, 9, 0, 0, 0, 0, 0, 0, 1], len = 11, pos = 4\<rparr>)
     \<and> (9 :: guint8) \<noteq> 0
     \<and> parse_value (Suc 0) False (\<lambda>_. 0) (node_data (create_nbt (unat (9 :: guint8)))) (\<lparr>data = Some [10, 0, 0, 9, 0, 0, 0, 0, 0, 0, 1], len = 11, pos = 4\<rparr>) False = Failed NBT_GLIB_PARSE_ERROR_INVALID_TAG"
  by code_simp

lemma bad_second_member_hyp:
  "LIBNBT_getUint8 (\<lparr>data = Some [10, 0, 0, 1, 0, 0, 5, 9, 0, 0, 0, 0, 0, 0, 1], len = 15, pos = 3\<rparr>) = Some (1, \<lparr>data = Some [10, 0, 0, 1, 0, 0, 5, 9, 0, 0, 0, 0, 0, 0, 1], len = 15, pos = 4\<rparr>)
     \<and> (1 :: guint8) \<noteq> 0
     \<and> parse_value (Suc (Suc 0)) False (\<lambda>_. 0) (node_data (create_nbt (unat (1 :: guint8)))) (\<lparr>data = Some [10, 0, 0, 1, 0, 0, 5, 9, 0, 0, 0, 0, 0, 0, 1], len = 15, pos = 4\<rparr>) False = Done (GNode (g_new0_NbtData\<lparr>type := TAG_Byte, value_i := 5\<rparr>) [], \<lparr>data = Some [10, 0, 0, 1, 0, 0, 5, 9, 0, 0, 0, 0, 0, 0, 1], len = 15, pos = 7\<rparr>)
     \<and> parse_value_compound (Suc (Suc 0)) False (\<lambda>_. 0) ([] @ [GNode (g_new0_NbtData\<lparr>type := TAG_Byte, value_i := 5\<rparr>) []]) (\<lparr>data = Some [10, 0, 0, 1, 0, 0, 5, 9, 0, 0, 0, 0, 0, 0, 1], len = 15, pos = 7\<rparr>) = Failed NBT_GLIB_PARSE_ERROR_INVALID_TAG"
  by code_simp

lemma list_fails_hyp:
  "data (\<lparr>data = Some [9, 0, 0, 9, 0, 0, 0, 1, 0, 0, 0, 0, 1], len = 13, pos = 0\<rparr>) \<noteq> None
     \<and> parse_value_tag (node_data (create_nbt TAG_End)) (\<lparr>data = Some [9, 0, 0, 9, 0, 0, 0, 1, 0, 0, 0, 0, 1], len = 13, pos = 0\<rparr>) = Done (TAG_List, g_new0_NbtData\<lparr>type := TAG_List\<rparr>, \<lparr>data = Some [9, 0, 0, 9, 0, 0, 0, 1, 0, 0, 0, 0, 1], len = 13, pos = 1\<rparr>)
     \<and> parse_value_key False (g_new0_NbtData\<lparr>type := TAG_List\<rparr>) (\<lparr>data = Some [9, 0, 0, 9, 0, 0, 0, 1, 0, 0, 0, 0, 1], len = 13, pos = 1\<rparr>) = Done (g_new0_NbtData\<lparr>type := TAG_List\<rparr>, \<lparr>data = Some [9, 0, 0, 9, 0, 0, 0, 1, 0, 0, 0, 0, 1], len = 13, pos = 3\<rparr>)
     \<and> parse_value_list_head (\<lparr>data = Some [9, 0, 0, 9, 0, 0, 0, 1, 0, 0, 0, 0, 1], len = 13, pos = 3\<rparr>) = Done (TAG_List, 1, \<lparr>data = Some [9, 0, 0, 9, 0, 0, 0, 1, 0, 0, 0, 0, 1], len = 13, pos = 8\<rparr>)
     \<and> parse_value_list (Suc (Suc 0)) False (\<lambda>_. 0) TAG_List 0 1 [] (\<lparr>data = Some [9, 0, 0, 9, 0, 0, 0, 1, 0, 0, 0, 0, 1], len = 13, pos = 8\<rparr>) = Failed NBT_GLIB_PARSE_ERROR_INVALID_TAG"
  by code_simp

lemma compound_fails_hyp:
  "data (\<lparr>data = Some [10, 0, 0, 9, 0, 0, 0, 0, 0, 0, 1], len = 11, pos = 0\<rparr>) \<noteq> None
     \<and> parse_value_tag (node_data (create_nbt TAG_End)) (\<lparr>data = Some [10, 0, 0, 9, 0, 0, 0, 0, 0, 0, 1], len = 11, pos = 0\<rparr>) = Done (TAG_Compound, g_new0_NbtData\<lparr>type := TAG_Compound\<rparr>, \<lparr>data = Some [10, 0, 0, 9, 0, 0, 0, 0, 0, 0, 1], len = 11, pos = 1\<rparr>)
     \<and> parse_value_key False (g_new0_NbtData\<lparr>type := TAG_Compound\<rparr>) (\<lparr>data = Some [10, 0, 0, 9, 0, 0, 0, 0, 0, 0, 1], len = 11, pos = 1\<rparr>) = Done (g_new0_NbtData\<lparr>type := TAG_Compound\<rparr>, \<lparr>data = Some [10, 0, 0, 9, 0, 0, 0, 0, 0, 0, 1], len = 11, pos = 3\<rparr>)
     \<and> parse_value_compound (Suc (Suc 0)) False (\<lambda>_. 0) [] (\<lparr>data = Some [10, 0, 0, 9, 0, 0, 0, 0, 0, 0, 1], len = 11, pos = 3\<rparr>) = Failed NBT_GLIB_PARSE_ERROR_INVALID_TAG"
  by code_simp

lemma no_tree_hyp:
  "[9, 0, 0, 0, 0, 0, 0, 1] \<noteq> ([] :: guint8 list)
     \<and> 8 \<le> length [9, 0, 0, 0, 0, 0, 0, 1 :: guint8]
     \<and> nbt_node_new_opt_buffer False (\<lambda>_ _. None) [9, 0, 0, 0, 0, 0, 0, 1] 8 = Inr (\<lparr>data = Some [9, 0, 0, 0, 0, 0, 0, 1], len = 8, pos = 0\<rparr>)
     \<and> parse_value (3 * len (\<lparr>data = Some [9, 0, 0, 0, 0, 0, 0, 1], len = 8, pos = 0\<rparr>) + 2) False (\<lambda>_. 0) (node_data (create_nbt TAG_End)) (\<lparr>data = Some [9, 0, 0, 0, 0, 0, 0, 1], len = 8, pos = 0\<rparr>) False = Failed NBT_GLIB_PARSE_ERROR_INVALID_TAG"
  by code_simp

theorem C4_list_of_end_witness:
  "parse_value (Suc 0) False (\<lambda>_. 0) (node_data (create_nbt TAG_End)) (\<lparr>data = Some [9, 0, 0, 0, 0, 0, 0, 1], len = 8, pos = 0\<rparr>) False = Failed NBT_GLIB_PARSE_ERROR_INVALID_TAG
   \<and> parse_value (Suc (Suc 0)) False (\<lambda>_. 0) (node_data (create_nbt TAG_End)) (\<lparr>data = Some [9, 0, 0, 0, 0, 0, 0, 0], len = 8, pos = 0\<rparr>) False = Done (GNode (g_new0_NbtData\<lparr>type := TAG_List\<rparr>) [], \<lparr>data = Some [9, 0, 0, 0, 0, 0, 0, 0], len = 8, pos = 8\<rparr>)
   \<and> parse_value_list (Suc (Suc 0)) False (\<lambda>_. 0) TAG_List 0 1 [] (\<lparr>data = Some [9, 0, 0, 9, 0, 0, 0, 1, 0, 0, 0, 0, 1], len = 13, pos = 8\<rparr>) = Failed NBT_GLIB_PARSE_ERROR_INVALID_TAG
   \<and> parse_value_list (Suc (Suc (Suc 0))) False (\<lambda>_. 0) TAG_List 0 2 [] (\<lparr>data = Some [9, 0, 0, 9, 0, 0, 0, 2, 0, 0, 0, 0, 0, 0, 0, 0, 0, 1], len = 18, pos = 8\<rparr>) = Failed NBT_GLIB_PARSE_ERROR_INVALID_TAG
   \<and> parse_value_compound (Suc (Suc 0)) False (\<lambda>_. 0) [] (\<lparr>data = Some [10, 0, 0, 9, 0, 0, 0, 0, 0, 0, 1], len = 11, pos = 3\<rparr>) = Failed NBT_GLIB_PARSE_ERROR_INVALID_TAG
   \<and> parse_value_compound (Suc (Suc (Suc 0))) False (\<lambda>_. 0) [] (\<lparr>data = Some [10, 0, 0, 1, 0, 0, 5, 9, 0, 0, 0, 0, 0, 0, 1], len = 15, pos = 3\<rparr>) = Failed NBT_GLIB_PARSE_ERROR_INVALID_TAG
   \<and> parse_value (Suc (Suc (Suc 0))) False (\<lambda>_. 0) (node_data (create_nbt TAG_End)) (\<lparr>data = Some [9, 0, 0, 9, 0, 0, 0, 1, 0, 0, 0, 0, 1], len = 13, pos = 0\<rparr>) False = Failed NBT_GLIB_PARSE_ERROR_INVALID_TAG
   \<and> parse_value (Suc (Suc (Suc 0))) False (\<lambda>_. 0) (node_data (create_nbt TAG_End)) (\<lparr>data = Some [10, 0, 0, 9, 0, 0, 0, 0, 0, 0, 1], len = 11, pos = 0\<rparr>) False = Failed NBT_GLIB_PARSE_ERROR_INVALID_TAG
   \<and> nbt_node_new_opt False (\<lambda>_. 0) (\<lambda>_ _. None) [9, 0, 0, 0, 0, 0, 0, 1] 8 = Done (None, Some (NBT_GLIB_PARSE_ERROR NBT_GLIB_PARSE_ERROR_INVALID_TAG))"
proof -
  have bad_root: "parse_value (Suc 0) False (\<lambda>_. 0) (node_data (create_nbt TAG_End)) (\<lparr>data = Some [9, 0, 0, 0, 0, 0, 0, 1], len = 8, pos = 0\<rparr>) False = Failed NBT_GLIB_PARSE_ERROR_INVALID_TAG"
    using C4_list_of_end [where b = "\<lparr>data = Some [9, 0, 0, 0, 0, 0, 0, 1], len = 8, pos = 0\<rparr>" and d = "node_data (create_nbt TAG_End)" and ?d1.0 = "g_new0_NbtData\<lparr>type := TAG_List\<rparr>" and ?b1.0 = "\<lparr>data = Some [9, 0, 0, 0, 0, 0, 0, 1], len = 8, pos = 1\<rparr>" and skipkey = "False" and ?d2.0 = "g_new0_NbtData\<lparr>type := TAG_List\<rparr>" and ?b2.0 = "\<lparr>data = Some [9, 0, 0, 0, 0, 0, 0, 1], len = 8, pos = 3\<rparr>" and ?b3.0 = "\<lparr>data = Some [9, 0, 0, 0, 0, 0, 0, 1], len = 8, pos = 4\<rparr>" and n = "1" and ?b4.0 = "\<lparr>data = Some [9, 0, 0, 0, 0, 0, 0, 1], len = 8, pos = 8\<rparr>" and fuel = "0" and float_to_double = "(\<lambda>_. 0)", THEN conjunct1, THEN mp, OF bad_root_hyp]
    by simp
  have empty_root: "parse_value (Suc (Suc 0)) False (\<lambda>_. 0) (node_data (create_nbt TAG_End)) (\<lparr>data = Some [9, 0, 0, 0, 0, 0, 0, 0], len = 8, pos = 0\<rparr>) False = Done (GNode (g_new0_NbtData\<lparr>type := TAG_List\<rparr>) [], \<lparr>data = Some [9, 0, 0, 0, 0, 0, 0, 0], len = 8, pos = 8\<rparr>)"
    using C4_list_of_end [where b = "\<lparr>data = Some [9, 0, 0, 0, 0, 0, 0, 0], len = 8, pos = 0\<rparr>" and d = "node_data (create_nbt TAG_End)" and ?d1.0 = "g_new0_NbtData\<lparr>type := TAG_List\<rparr>" and ?b1.0 = "\<lparr>data = Some [9, 0, 0, 0, 0, 0, 0, 0], len = 8, pos = 1\<rparr>" and skipkey = "False" and ?d2.0 = "g_new0_NbtData\<lparr>type := TAG_List\<rparr>" and ?b2.0 = "\<lparr>data = Some [9, 0, 0, 0, 0, 0, 0, 0], len = 8, pos = 3\<rparr>" and ?b3.0 = "\<lparr>data = Some [9, 0, 0, 0, 0, 0, 0, 0], len = 8, pos = 4\<rparr>" and n = "0" and ?b4.0 = "\<lparr>data = Some [9, 0, 0, 0, 0, 0, 0, 0], len = 8, pos = 8\<rparr>" and fuel = "0" and float_to_double = "(\<lambda>_. 0)", THEN conjunct1, THEN mp, OF empty_root_hyp]
    by simp
  have bad_element: "parse_value_list (Suc (Suc 0)) False (\<lambda>_. 0) TAG_List 0 1 [] (\<lparr>data = Some [9, 0, 0, 9, 0, 0, 0, 1, 0, 0, 0, 0, 1], len = 13, pos = 8\<rparr>) = Failed NBT_GLIB_PARSE_ERROR_INVALID_TAG"
    using C4_list_of_end [where i = "0" and m = "1" and fuel = "Suc 0" and float_to_double = "(\<lambda>_. 0)" and list_type = "TAG_List" and lb = "\<lparr>data = Some [9, 0, 0, 9, 0, 0, 0, 1, 0, 0, 0, 0, 1], len = 13, pos = 8\<rparr>" and e = "NBT_GLIB_PARSE_ERROR_INVALID_TAG" and kids = "[]", THEN conjunct2, THEN conjunct1, THEN mp, OF bad_element_hyp]
    by simp
  have bad_second_element: "parse_value_list (Suc (Suc (Suc 0))) False (\<lambda>_. 0) TAG_List 0 2 [] (\<lparr>data = Some [9, 0, 0, 9, 0, 0, 0, 2, 0, 0, 0, 0, 0, 0, 0, 0, 0, 1], len = 18, pos = 8\<rparr>) = Failed NBT_GLIB_PARSE_ERROR_INVALID_TAG"
    using C4_list_of_end [where i = "0" and m = "2" and fuel = "Suc (Suc 0)" and float_to_double = "(\<lambda>_. 0)" and list_type = "TAG_List" and lb = "\<lparr>data = Some [9, 0, 0, 9, 0, 0, 0, 2, 0, 0, 0, 0, 0, 0, 0, 0, 0, 1], len = 18, pos = 8\<rparr>" and e = "NBT_GLIB_PARSE_ERROR_INVALID_TAG" and kids = "[]" and child = "GNode (g_new0_NbtData\<lparr>type := TAG_List\<rparr>) []" and ?lb1.0 = "\<lparr>data = Some [9, 0, 0, 9, 0, 0, 0, 2, 0, 0, 0, 0, 0, 0, 0, 0, 0, 1], len = 18, pos = 13\<rparr>", THEN conjunct2, THEN conjunct2, THEN conjunct1, THEN mp, OF bad_second_element_hyp]
    by simp
  have bad_member: "parse_value_compound (Suc (Suc 0)) False (\<lambda>_. 0) [] (\<lparr>data = Some [10, 0, 0, 9, 0, 0, 0, 0, 0, 0, 1], len = 11, pos = 3\<rparr>) = Failed NBT_GLIB_PARSE_ERROR_INVALID_TAG"
    using C4_list_of_end [where cb = "\<lparr>data = Some [10, 0, 0, 9, 0, 0, 0, 0, 0, 0, 1], len = 11, pos = 3\<rparr>" and t = "9" and ?cb1.0 = "\<lparr>data = Some [10, 0, 0, 9, 0, 0, 0, 0, 0, 0, 1], len = 11, pos = 4\<rparr>" and fuel = "Suc 0" and float_to_double = "(\<lambda>_. 0)" and e = "NBT_GLIB_PARSE_ERROR_INVALID_TAG" and kids = "[]", THEN conjunct2, THEN conjunct2, THEN conjunct2, THEN conjunct1, THEN mp, OF bad_member_hyp]
    by simp
  have bad_second_member: "parse_value_compound (Suc (Suc (Suc 0))) False (\<lambda>_. 0) [] (\<lparr>data = Some [10, 0, 0, 1, 0, 0, 5, 9, 0, 0, 0, 0, 0, 0, 1], len = 15, pos = 3\<rparr>) = Failed NBT_GLIB_PARSE_ERROR_INVALID_TAG"
    using C4_list_of_end [where cb = "\<lparr>data = Some [10, 0, 0, 1, 0, 0, 5, 9, 0, 0, 0, 0, 0, 0, 1], len = 15, pos = 3\<rparr>" and t = "1" and ?cb1.0 = "\<lparr>data = Some [10, 0, 0, 1, 0, 0, 5, 9, 0, 0, 0, 0, 0, 0, 1], len = 15, pos = 4\<rparr>" and fuel = "Suc (Suc 0)" and float_to_double = "(\<lambda>_. 0)" and e = "NBT_GLIB_PARSE_ERROR_INVALID_TAG" and kids = "[]" and child = "GNode (g_new0_NbtData\<lparr>type := TAG_Byte, value_i := 5\<rparr>) []" and ?cb2.0 = "\<lparr>data = Some [10, 0, 0, 1, 0, 0, 5, 9, 0, 0, 0, 0, 0, 0, 1], len = 15, pos = 7\<rparr>", THEN conjunct2, THEN conjunct2, THEN conjunct2, THEN conjunct2, THEN conjunct1, THEN mp, OF bad_second_member_hyp]
    by simp
  have list_fails: "parse_value (Suc (Suc (Suc 0))) False (\<lambda>_. 0) (node_data (create_nbt TAG_End)) (\<lparr>data = Some [9, 0, 0, 9, 0, 0, 0, 1, 0, 0, 0, 0, 1], len = 13, pos = 0\<rparr>) False = Failed NBT_GLIB_PARSE_ERROR_INVALID_TAG"
    using C4_list_of_end [where b = "\<lparr>data = Some [9, 0, 0, 9, 0, 0, 0, 1, 0, 0, 0, 0, 1], len = 13, pos = 0\<rparr>" and d = "node_data (create_nbt TAG_End)" and ?d1.0 = "g_new0_NbtData\<lparr>type := TAG_List\<rparr>" and ?b1.0 = "\<lparr>data = Some [9, 0, 0, 9, 0, 0, 0, 1, 0, 0, 0, 0, 1], len = 13, pos = 1\<rparr>" and skipkey = "False" and ?d2.0 = "g_new0_NbtData\<lparr>type := TAG_List\<rparr>" and ?b2.0 = "\<lparr>data = Some [9, 0, 0, 9, 0, 0, 0, 1, 0, 0, 0, 0, 1], len = 13, pos = 3\<rparr>" and list_type = "TAG_List" and m = "1" and ?b3.0 = "\<lparr>data = Some [9, 0, 0, 9, 0, 0, 0, 1, 0, 0, 0, 0, 1], len = 13, pos = 8\<rparr>" and fuel = "Suc (Suc 0)" and float_to_double = "(\<lambda>_. 0)" and e = "NBT_GLIB_PARSE_ERROR_INVALID_TAG", THEN conjunct2, THEN conjunct2, THEN conjunct2, THEN conjunct2, THEN conjunct2, THEN conjunct1, THEN mp, OF list_fails_hyp]
    by simp
  have compound_fails: "parse_value (Suc (Suc (Suc 0))) False (\<lambda>_. 0) (node_data (create_nbt TAG_End)) (\<lparr>data = Some [10, 0, 0, 9, 0, 0, 0, 0, 0, 0, 1], len = 11, pos = 0\<rparr>) False = Failed NBT_GLIB_PARSE_ERROR_INVALID_TAG"
    using C4_list_of_end [where b = "\<lparr>data = Some [10, 0, 0, 9, 0, 0, 0, 0, 0, 0, 1], len = 11, pos = 0\<rparr>" and d = "node_data (create_nbt TAG_End)" and ?d1.0 = "g_new0_NbtData\<lparr>type := TAG_Compound\<rparr>" and ?b1.0 = "\<lparr>data = Some [10, 0, 0, 9, 0, 0, 0, 0, 0, 0, 1], len = 11, pos = 1\<rparr>" and skipkey = "False" and ?d2.0 = "g_new0_NbtData\<lparr>type := TAG_Compound\<rparr>" and ?b2.0 = "\<lparr>data = Some [10, 0, 0, 9, 0, 0, 0, 0, 0, 0, 1], len = 11, pos = 3\<rparr>" and fuel = "Suc (Suc 0)" and float_to_double = "(\<lambda>_. 0)" and e = "NBT_GLIB_PARSE_ERROR_INVALID_TAG", THEN conjunct2, THEN conjunct2, THEN conjunct2, THEN conjunct2, THEN conjunct2, THEN conjunct2, THEN conjunct1, THEN mp, OF compound_fails_hyp]
    by simp
  have no_tree: "nbt_node_new_opt False (\<lambda>_. 0) (\<lambda>_ _. None) [9, 0, 0, 0, 0, 0, 0, 1] 8 = Done (None, Some (NBT_GLIB_PARSE_ERROR NBT_GLIB_PARSE_ERROR_INVALID_TAG))"
    using C4_list_of_end [where dat = "[9, 0, 0, 0, 0, 0, 0, 1]" and len_arg = "8" and decompress = "(\<lambda>_ _. None)" and buffer = "\<lparr>data = Some [9, 0, 0, 0, 0, 0, 0, 1], len = 8, pos = 0\<rparr>" and float_to_double = "(\<lambda>_. 0)" and e = "NBT_GLIB_PARSE_ERROR_INVALID_TAG", THEN conjunct2, THEN conjunct2, THEN conjunct2, THEN conjunct2, THEN conjunct2, THEN conjunct2, THEN conjunct2, THEN mp, OF no_tree_hyp]
    by simp
  show ?thesis
    by (intro conjI bad_root empty_root bad_element bad_second_element bad_member bad_second_member list_fails compound_fails no_tree)
qed

subsection \<open>Insertion keeps the children of a list of one kind\<close>

lemma length_link_node [simp]: "length (link_node h p node cs) = length h"
  by (simp add: link_node_def Let_def)

lemma cell_data_link_node [simp]:
  "a < length h \<Longrightarrow> cell_data (link_node h p node cs ! a) = cell_data (h ! a)"
  by (cases "a = node"; cases "a = p") (simp_all add: link_node_def Let_def nth_list_update)

lemma kind_link_node [simp]: "a < length h \<Longrightarrow> kind (link_node h p node cs) a = kind h a"
  by (simp add: kind_def)

lemma children_link_node:
  "a < length h \<Longrightarrow>
     children (link_node h p node cs ! a) = (if a = p then cs else children (h ! a))"
  by (cases "a = node"; cases "a = p") (simp_all add: link_node_def Let_def nth_list_update)

lemma parent_link_node:
  "a < length h \<Longrightarrow> p < length h \<Longrightarrow>
     parent (link_node h p node cs ! a) = (if a = node then Some p else parent (h ! a))"
  by (cases "a = node"; cases "a = p") (simp_all add: link_node_def Let_def nth_list_update)

lemma set_insert_before_sibling [simp]:
  "set (insert_before_sibling s node cs) = insert node (set cs)"
  by (induction cs) auto

lemma set_insert_after_sibling [simp]:
  "set (insert_after_sibling s node cs) = insert node (set cs)"
  by (induction cs) auto

lemma wl_child:
  "well_linked h \<Longrightarrow> a < length h \<Longrightarrow> c \<in> set (children (h ! a)) \<Longrightarrow>
     c < length h \<and> parent (h ! c) = Some a"
  unfolding well_linked_def by simp

lemma wl_parent:
  "well_linked h \<Longrightarrow> a < length h \<Longrightarrow> parent (h ! a) = Some q \<Longrightarrow>
     q < length h \<and> a \<in> set (children (h ! q))"
  unfolding well_linked_def by (drule spec [of _ a]) simp

lemma well_linkedI:
  assumes "\<And>a c. a < length h \<Longrightarrow> c \<in> set (children (h ! a)) \<Longrightarrow>
             c < length h \<and> parent (h ! c) = Some a"
    and "\<And>a q. a < length h \<Longrightarrow> parent (h ! a) = Some q \<Longrightarrow>
             q < length h \<and> a \<in> set (children (h ! q))"
  shows "well_linked h"
  unfolding well_linked_def
proof (intro allI impI conjI ballI)
  fix a c assume "a < length h" "c \<in> set (children (h ! a))"
  from assms(1) [OF this] show "c < length h" "parent (h ! c) = Some a" by simp_all
next
  fix a assume a: "a < length h"
  show "case parent (h ! a) of None \<Rightarrow> True | Some p \<Rightarrow> p < length h \<and> a \<in> set (children (h ! p))"
  proof (cases "parent (h ! a)")
    case None then show ?thesis by simp
  next
    case (Some q)
    from assms(2) [OF a Some] Some show ?thesis by simp
  qed
qed

lemma root_not_child:
  assumes "well_linked h" and "a < length h" and "parent (h ! node) = None"
  shows "node \<notin> set (children (h ! a))"
proof
  assume "node \<in> set (children (h ! a))"
  from wl_child [OF assms(1,2) this] assms(3) show False by simp
qed

lemma link_node_well_linked:
  assumes wl: "well_linked h" and p: "p < length h" and n: "node < length h"
    and root: "parent (h ! node) = None"
    and cs: "set cs = insert node (set (children (h ! p)))"
  shows "well_linked (link_node h p node cs)"
proof (rule well_linkedI)
  fix a c
  assume a: "a < length (link_node h p node cs)"
    and c: "c \<in> set (children (link_node h p node cs ! a))"
  from a have a': "a < length h" by simp
  have c_cases: "c = node \<and> a = p \<or> c \<in> set (children (h ! a))"
  proof (cases "a = p")
    case True
    with c a' cs show ?thesis by (simp add: children_link_node)
  next
    case False
    with c a' show ?thesis by (simp add: children_link_node)
  qed
  have c_live: "c < length h"
    using c_cases n wl_child [OF wl a'] by blast
  have "parent (link_node h p node cs ! c) = Some a"
  proof (cases "c = node")
    case True
    with c_cases root_not_child [OF wl a' root] have "a = p" by blast
    with True n p show ?thesis by (simp add: parent_link_node)
  next
    case False
    with c_cases have "c \<in> set (children (h ! a))" by blast
    with wl_child [OF wl a'] have "parent (h ! c) = Some a" by blast
    with False c_live p show ?thesis by (simp add: parent_link_node)
  qed
  with c_live show "c < length (link_node h p node cs)
      \<and> parent (link_node h p node cs ! c) = Some a" by simp
next
  fix a q
  assume a: "a < length (link_node h p node cs)"
    and q: "parent (link_node h p node cs ! a) = Some q"
  from a have a': "a < length h" by simp
  have both: "q < length h \<and> a \<in> set (children (link_node h p node cs ! q))"
  proof (cases "a = node")
    case True
    with q a' p have "q = p" by (simp add: parent_link_node)
    with p cs True show ?thesis by (simp add: children_link_node)
  next
    case False
    with q a' p have pa: "parent (h ! a) = Some q" by (simp add: parent_link_node)
    from wl_parent [OF wl a' pa] have ql: "q < length h" and mem: "a \<in> set (children (h ! q))"
      by blast+
    show ?thesis
    proof (cases "q = p")
      case True
      with ql mem cs show ?thesis by (simp add: children_link_node)
    next
      case False
      with ql mem show ?thesis by (simp add: children_link_node)
    qed
  qed
  then show "q < length (link_node h p node cs)
      \<and> a \<in> set (children (link_node h p node cs ! q))" by simp
qed

lemma link_node_I3:
  assumes wl: "well_linked h" and i3: "I3 h" and p: "p < length h" and n: "node < length h"
    and cs: "set cs = insert node (set (children (h ! p)))"
    and kinds: "kind h p = TAG_List \<longrightarrow> (\<forall>c \<in> set (children (h ! p)). kind h c = kind h node)"
  shows "I3 (link_node h p node cs)"
  unfolding I3_def
proof (intro allI impI ballI)
  fix a c1 c2
  assume a: "a < length (link_node h p node cs)"
    and l: "kind (link_node h p node cs) a = TAG_List"
    and c1: "c1 \<in> set (children (link_node h p node cs ! a))"
    and c2: "c2 \<in> set (children (link_node h p node cs ! a))"
  from a have a': "a < length h" by simp
  from l a' have l': "kind h a = TAG_List" by simp
  show "kind (link_node h p node cs) c1 = kind (link_node h p node cs) c2"
  proof (cases "a = p")
    case True
    from c1 c2 a' True cs have m: "c1 = node \<or> c1 \<in> set (children (h ! p))"
      "c2 = node \<or> c2 \<in> set (children (h ! p))"
      by (simp_all add: children_link_node)
    with wl_child [OF wl p] n have live: "c1 < length h" "c2 < length h" by blast+
    from m kinds l' True have "kind h c1 = kind h node" "kind h c2 = kind h node" by blast+
    with live show ?thesis by simp
  next
    case False
    with c1 c2 a' have m: "c1 \<in> set (children (h ! a))" "c2 \<in> set (children (h ! a))"
      by (simp_all add: children_link_node)
    with wl_child [OF wl a'] have live: "c1 < length h" "c2 < length h" by blast+
    from i3 a' l' m have "kind h c1 = kind h c2" unfolding I3_def by blast
    with live show ?thesis by simp
  qed
qed

lemma link_node_ok:
  assumes "heap_ok h" and "p < length h" and "node < length h"
    and "parent (h ! node) = None"
    and "set cs = insert node (set (children (h ! p)))"
    and "kind h p = TAG_List \<longrightarrow> (\<forall>c \<in> set (children (h ! p)). kind h c = kind h node)"
  shows "heap_ok (link_node h p node cs)"
  using assms link_node_well_linked [of h p node cs] link_node_I3 [of h p node cs]
  unfolding heap_ok_def by blast

lemma g_node_insert_before_ok:
  assumes ok: "heap_ok h" and p: "p < length h" and n: "node < length h"
    and kinds: "kind h p = TAG_List \<longrightarrow> (\<forall>c \<in> set (children (h ! p)). kind h c = kind h node)"
  shows "heap_ok (g_node_insert_before h p sibling node)"
proof (cases "G_NODE_IS_ROOT h node")
  case False
  with ok show ?thesis by (simp add: g_node_insert_before_def)
next
  case True
  then have root: "parent (h ! node) = None" by (simp add: G_NODE_IS_ROOT_def)
  show ?thesis
  proof (cases sibling)
    case None
    with True show ?thesis
      by (simp add: g_node_insert_before_def link_node_ok [OF ok p n root _ kinds])
  next
    case (Some s)
    with True ok show ?thesis
      by (simp add: g_node_insert_before_def link_node_ok [OF ok p n root _ kinds])
  qed
qed

lemma g_node_insert_after_ok:
  assumes ok: "heap_ok h" and p: "p < length h" and n: "node < length h"
    and kinds: "kind h p = TAG_List \<longrightarrow> (\<forall>c \<in> set (children (h ! p)). kind h c = kind h node)"
  shows "heap_ok (g_node_insert_after h p sibling node)"
proof (cases "G_NODE_IS_ROOT h node")
  case False
  with ok show ?thesis by (simp add: g_node_insert_after_def)
next
  case True
  then have root: "parent (h ! node) = None" by (simp add: G_NODE_IS_ROOT_def)
  show ?thesis
  proof (cases sibling)
    case None
    with True show ?thesis
      by (simp add: g_node_insert_after_def link_node_ok [OF ok p n root _ kinds])
  next
    case (Some s)
    with True ok show ?thesis
      by (simp add: g_node_insert_after_def link_node_ok [OF ok p n root _ kinds])
  qed
qed

lemma g_node_prepend_ok:
  assumes ok: "heap_ok h" and p: "p < length h" and n: "node < length h"
    and kinds: "kind h p = TAG_List \<longrightarrow> (\<forall>c \<in> set (children (h ! p)). kind h c = kind h node)"
  shows "heap_ok (g_node_prepend h p node)"
proof (cases "G_NODE_IS_ROOT h node")
  case False
  with ok show ?thesis by (simp add: g_node_prepend_def)
next
  case True
  then have root: "parent (h ! node) = None" by (simp add: G_NODE_IS_ROOT_def)
  with True show ?thesis
    by (simp add: g_node_prepend_def link_node_ok [OF ok p n root _ kinds])
qed

lemma g_node_append_ok:
  assumes ok: "heap_ok h" and p: "p < length h" and n: "node < length h"
    and kinds: "kind h p = TAG_List \<longrightarrow> (\<forall>c \<in> set (children (h ! p)). kind h c = kind h node)"
  shows "heap_ok (g_node_append h p node)"
  unfolding g_node_append_def by (rule g_node_insert_before_ok [OF assms])

text \<open>In a list all children have the kind of any one of them.\<close>

lemma list_kinds:
  assumes "heap_ok h" and "p < length h" and "x \<in> set (children (h ! p))"
    and "kind h x = k"
  shows "kind h p = TAG_List \<longrightarrow> (\<forall>c \<in> set (children (h ! p)). kind h c = k)"
  using assms unfolding heap_ok_def I3_def by blast

lemma hd_children: "children (h ! p) \<noteq> [] \<Longrightarrow> hd (children (h ! p)) \<in> set (children (h ! p))"
  by simp

lemma nbt_node_prepend_ok:
  assumes ok: "heap_ok h" and r: "nbt_node_prepend h node child = Returns (res, h')"
  shows "heap_ok h'"
proof (cases node)
  case None
  with r ok show ?thesis by (simp add: nbt_node_prepend_def)
next
  case (Some n)
  note node = this
  show ?thesis
  proof (cases child)
    case None
    with r ok node show ?thesis by (simp add: nbt_node_prepend_def)
  next
    case (Some c)
    show ?thesis
    proof (cases "res")
      case False
      with r ok node Some show ?thesis
        by (auto simp: nbt_node_prepend_def split: if_splits)
    next
      case True
      with r node Some have n: "n < length h" and c: "c < length h"
        and h': "h' = g_node_prepend h n c"
        and chk: "kind h n = TAG_List \<and> children (h ! n) \<noteq> [] \<longrightarrow>
                    kind h (hd (children (h ! n))) = kind h c"
        by (auto simp: nbt_node_prepend_def live_def split: if_splits)
      have kinds: "kind h n = TAG_List \<longrightarrow> (\<forall>x \<in> set (children (h ! n)). kind h x = kind h c)"
      proof (cases "children (h ! n) = []")
        case True then show ?thesis by simp
      next
        case False
        with chk list_kinds [OF ok n hd_children [OF False], of "kind h c"]
        show ?thesis by blast
      qed
      show ?thesis unfolding h' by (rule g_node_prepend_ok [OF ok n c kinds])
    qed
  qed
qed

lemma nbt_node_append_ok:
  assumes ok: "heap_ok h" and r: "nbt_node_append h node child = Returns (res, h')"
  shows "heap_ok h'"
proof (cases node)
  case None
  with r ok show ?thesis by (simp add: nbt_node_append_def)
next
  case (Some n)
  note node = this
  show ?thesis
  proof (cases child)
    case None
    with r ok node show ?thesis by (simp add: nbt_node_append_def)
  next
    case (Some c)
    show ?thesis
    proof (cases "res")
      case False
      with r ok node Some show ?thesis
        by (auto simp: nbt_node_append_def split: if_splits)
    next
      case True
      with r node Some have n: "n < length h" and c: "c < length h"
        and h': "h' = g_node_append h n c"
        and chk: "kind h n = TAG_List \<and> children (h ! n) \<noteq> [] \<longrightarrow>
                    kind h (hd (children (h ! n))) = kind h c"
        by (auto simp: nbt_node_append_def live_def split: if_splits)
      have kinds: "kind h n = TAG_List \<longrightarrow> (\<forall>x \<in> set (children (h ! n)). kind h x = kind h c)"
      proof (cases "children (h ! n) = []")
        case True then show ?thesis by simp
      next
        case False
        with chk list_kinds [OF ok n hd_children [OF False], of "kind h c"]
        show ?thesis by blast
      qed
      show ?thesis unfolding h' by (rule g_node_append_ok [OF ok n c kinds])
    qed
  qed
qed

lemma nbt_node_insert_before_ok:
  assumes ok: "heap_ok h" and r: "nbt_node_insert_before h p sibling node = Returns (res, h')"
  shows "heap_ok h'"
proof (cases "res \<and> p \<noteq> None \<and> node \<noteq> None")
  case False
  with r ok show ?thesis
    by (auto simp: nbt_node_insert_before_def split: if_splits option.splits list.splits)
next
  case True
  then obtain pa n where p: "p = Some pa" and node: "node = Some n" and res: res by auto
  from r p node res have n: "n < length h" and pa: "pa < length h"
    and h': "h' = g_node_insert_before h pa sibling n"
    by (auto simp: nbt_node_insert_before_def live_def split: if_splits option.splits list.splits)
  have kinds: "kind h pa = TAG_List \<longrightarrow> (\<forall>x \<in> set (children (h ! pa)). kind h x = kind h n)"
  proof (cases "kind h pa = TAG_List \<and> children (h ! pa) \<noteq> []")
    case False
    then show ?thesis by auto
  next
    case True
    show ?thesis
    proof (cases sibling)
      case None
      with r p node res True have "kind h (hd (children (h ! pa))) = kind h n"
        by (auto simp: nbt_node_insert_before_def split: if_splits list.splits)
      with list_kinds [OF ok pa hd_children, of "kind h n"] True show ?thesis by blast
    next
      case (Some s)
      with r p node res True have s: "s < length h" and ps: "parent (h ! s) = Some pa"
        and ks: "kind h s = kind h n"
        by (auto simp: nbt_node_insert_before_def live_def split: if_splits)
      from ok have "well_linked h" by (simp add: heap_ok_def)
      from wl_parent [OF this s ps] have "s \<in> set (children (h ! pa))" by simp
      from list_kinds [OF ok pa this ks] show ?thesis .
    qed
  qed
  show ?thesis unfolding h' by (rule g_node_insert_before_ok [OF ok pa n kinds])
qed

lemma nbt_node_insert_after_ok:
  assumes ok: "heap_ok h" and r: "nbt_node_insert_after h p sibling node = Returns (res, h')"
  shows "heap_ok h'"
proof (cases "res \<and> p \<noteq> None \<and> node \<noteq> None")
  case False
  with r ok show ?thesis
    by (auto simp: nbt_node_insert_after_def split: if_splits option.splits list.splits)
next
  case True
  then obtain pa n where p: "p = Some pa" and node: "node = Some n" and res: res by auto
  from r p node res have n: "n < length h" and pa: "pa < length h"
    and h': "h' = g_node_insert_after h pa sibling n"
    by (auto simp: nbt_node_insert_after_def live_def split: if_splits option.splits list.splits)
  have kinds: "kind h pa = TAG_List \<longrightarrow> (\<forall>x \<in> set (children (h ! pa)). kind h x = kind h n)"
  proof (cases "kind h pa = TAG_List \<and> children (h ! pa) \<noteq> []")
    case False
    then show ?thesis by auto
  next
    case True
    show ?thesis
    proof (cases sibling)
      case None
      with r p node res True have "kind h (hd (children (h ! pa))) = kind h n"
        by (auto simp: nbt_node_insert_after_def split: if_splits list.splits)
      with list_kinds [OF ok pa hd_children, of "kind h n"] True show ?thesis by blast
    next
      case (Some s)
      with r p node res True have s: "s < length h" and ps: "parent (h ! s) = Some pa"
        and ks: "kind h s = kind h n"
        by (auto simp: nbt_node_insert_after_def live_def split: if_splits)
      from ok have "well_linked h" by (simp add: heap_ok_def)
      from wl_parent [OF this s ps] have "s \<in> set (children (h ! pa))" by simp
      from list_kinds [OF ok pa this ks] show ?thesis .
    qed
  qed
  show ?thesis unfolding h' by (rule g_node_insert_after_ok [OF ok pa n kinds])
qed

text \<open>Failure on a parent of the wrong kind.\<close>

lemma wrong_kind_fails:
  assumes "n < length h" and "c < length h"
    and "kind h n \<noteq> TAG_Compound" and "kind h n \<noteq> TAG_List"
  shows "nbt_node_prepend h (Some n) (Some c) = Returns (False, h)"
    and "nbt_node_append h (Some n) (Some c) = Returns (False, h)"
    and "nbt_node_insert_before h (Some n) sibling (Some c) = Returns (False, h)"
    and "nbt_node_insert_after h (Some n) sibling (Some c) = Returns (False, h)"
  using assms
  by (simp_all add: nbt_node_prepend_def nbt_node_append_def nbt_node_insert_before_def
        nbt_node_insert_after_def live_def)

text \<open>Failure on a list with a child of another kind.\<close>

lemma other_kind_fails:
  assumes ok: "heap_ok h" and n: "n < length h" and c: "c < length h"
    and l: "kind h n = TAG_List" and x: "x \<in> set (children (h ! n))"
    and k: "kind h x \<noteq> kind h c"
    and s: "\<forall>s. sibling = Some s \<longrightarrow> s < length h"
  shows "nbt_node_prepend h (Some n) (Some c) = Returns (False, h)"
    and "nbt_node_append h (Some n) (Some c) = Returns (False, h)"
    and "nbt_node_insert_before h (Some n) sibling (Some c) = Returns (False, h)"
    and "nbt_node_insert_after h (Some n) sibling (Some c) = Returns (False, h)"
proof -
  from ok have wl: "well_linked h" by (simp add: heap_ok_def)
  from x have ne: "children (h ! n) \<noteq> []" by auto
  then obtain y ys where ch: "children (h ! n) = y # ys" by (cases "children (h ! n)") auto
  from list_kinds [OF ok n x refl] l have all: "\<forall>c' \<in> set (children (h ! n)). kind h c' = kind h x"
    by blast
  with ch have ky: "kind h y = kind h x" by simp
  from wl_child [OF wl n, of y] ch have ylive: "y < length h" by simp
  show "nbt_node_prepend h (Some n) (Some c) = Returns (False, h)"
    using n c l ch ky k ylive by (simp add: nbt_node_prepend_def live_def)
  show "nbt_node_append h (Some n) (Some c) = Returns (False, h)"
    using n c l ch ky k ylive by (simp add: nbt_node_append_def live_def)
  have sib: "\<And>s. sibling = Some s \<Longrightarrow> parent (h ! s) = Some n \<Longrightarrow> kind h c \<noteq> kind h s"
  proof -
    fix s assume "sibling = Some s" and ps: "parent (h ! s) = Some n"
    with s have "s < length h" by simp
    from wl_parent [OF wl this ps] all have "kind h s = kind h x" by simp
    with k show "kind h c \<noteq> kind h s" by simp
  qed
  show "nbt_node_insert_before h (Some n) sibling (Some c) = Returns (False, h)"
    using n c l ch ky k ylive s sib
    by (cases sibling) (auto simp: nbt_node_insert_before_def live_def)
  show "nbt_node_insert_after h (Some n) sibling (Some c) = Returns (False, h)"
    using n c l ch ky k ylive s sib
    by (cases sibling) (auto simp: nbt_node_insert_after_def live_def)
qed

lemma example_heap_ok:
  "well_linked
     [\<lparr>cell_data = g_new0_NbtData\<lparr>type := TAG_List\<rparr>, parent = None, children = [1]\<rparr>,
      \<lparr>cell_data = g_new0_NbtData\<lparr>type := TAG_Int\<rparr>, parent = Some 0, children = []\<rparr>,
      \<lparr>cell_data = g_new0_NbtData\<lparr>type := TAG_Int\<rparr>, parent = None, children = []\<rparr>,
      \<lparr>cell_data = g_new0_NbtData\<lparr>type := TAG_Byte\<rparr>, parent = None, children = []\<rparr>]
   \<and> I3
     [\<lparr>cell_data = g_new0_NbtData\<lparr>type := TAG_List\<rparr>, parent = None, children = [1]\<rparr>,
      \<lparr>cell_data = g_new0_NbtData\<lparr>type := TAG_Int\<rparr>, parent = Some 0, children = []\<rparr>,
      \<lparr>cell_data = g_new0_NbtData\<lparr>type := TAG_Int\<rparr>, parent = None, children = []\<rparr>,
      \<lparr>cell_data = g_new0_NbtData\<lparr>type := TAG_Byte\<rparr>, parent = None, children = []\<rparr>]"
  by code_simp

lemma example_nbt_node_prepend:
  "nbt_node_prepend
     [\<lparr>cell_data = g_new0_NbtData\<lparr>type := TAG_List\<rparr>, parent = None, children = [1]\<rparr>,
      \<lparr>cell_data = g_new0_NbtData\<lparr>type := TAG_Int\<rparr>, parent = Some 0, children = []\<rparr>,
      \<lparr>cell_data = g_new0_NbtData\<lparr>type := TAG_Int\<rparr>, parent = None, children = []\<rparr>,
      \<lparr>cell_data = g_new0_NbtData\<lparr>type := TAG_Byte\<rparr>, parent = None, children = []\<rparr>] (Some 0) (Some 2) =
   Returns (True,
     [\<lparr>cell_data = g_new0_NbtData\<lparr>type := TAG_List\<rparr>, parent = None, children = [2, 1]\<rparr>,
      \<lparr>cell_data = g_new0_NbtData\<lparr>type := TAG_Int\<rparr>, parent = Some 0, children = []\<rparr>,
      \<lparr>cell_data = g_new0_NbtData\<lparr>type := TAG_Int\<rparr>, parent = Some 0, children = []\<rparr>,
      \<lparr>cell_data = g_new0_NbtData\<lparr>type := TAG_Byte\<rparr>, parent = None, children = []\<rparr>])"
  by code_simp

lemma example_nbt_node_append:
  "nbt_node_append
     [\<lparr>cell_data = g_new0_NbtData\<lparr>type := TAG_List\<rparr>, parent = None, children = [1]\<rparr>,
      \<lparr>cell_data = g_new0_NbtData\<lparr>type := TAG_Int\<rparr>, parent = Some 0, children = []\<rparr>,
      \<lparr>cell_data = g_new0_NbtData\<lparr>type := TAG_Int\<rparr>, parent = None, children = []\<rparr>,
      \<lparr>cell_data = g_new0_NbtData\<lparr>type := TAG_Byte\<rparr>, parent = None, children = []\<rparr>] (Some 0) (Some 2) =
   Returns (True,
     [\<lparr>cell_data = g_new0_NbtData\<lparr>type := TAG_List\<rparr>, parent = None, children = [1, 2]\<rparr>,
      \<lparr>cell_data = g_new0_NbtData\<lparr>type := TAG_Int\<rparr>, parent = Some 0, children = []\<rparr>,
      \<lparr>cell_data = g_new0_NbtData\<lparr>type := TAG_Int\<rparr>, parent = Some 0, children = []\<rparr>,
      \<lparr>cell_data = g_new0_NbtData\<lparr>type := TAG_Byte\<rparr>, parent = None, children = []\<rparr>])"
  by code_simp

lemma example_nbt_node_insert_before:
  "nbt_node_insert_before
     [\<lparr>cell_data = g_new0_NbtData\<lparr>type := TAG_List\<rparr>, parent = None, children = [1]\<rparr>,
      \<lparr>cell_data = g_new0_NbtData\<lparr>type := TAG_Int\<rparr>, parent = Some 0, children = []\<rparr>,
      \<lparr>cell_data = g_new0_NbtData\<lparr>type := TAG_Int\<rparr>, parent = None, children = []\<rparr>,
      \<lparr>cell_data = g_new0_NbtData\<lparr>type := TAG_Byte\<rparr>, parent = None, children = []\<rparr>] (Some 0) (Some 1) (Some 2) =
   Returns (True,
     [\<lparr>cell_data = g_new0_NbtData\<lparr>type := TAG_List\<rparr>, parent = None, children = [2, 1]\<rparr>,
      \<lparr>cell_data = g_new0_NbtData\<lparr>type := TAG_Int\<rparr>, parent = Some 0, children = []\<rparr>,
      \<lparr>cell_data = g_new0_NbtData\<lparr>type := TAG_Int\<rparr>, parent = Some 0, children = []\<rparr>,
      \<lparr>cell_data = g_new0_NbtData\<lparr>type := TAG_Byte\<rparr>, parent = None, children = []\<rparr>])"
  by code_simp

lemma example_nbt_node_insert_after:
  "nbt_node_insert_after
     [\<lparr>cell_data = g_new0_NbtData\<lparr>type := TAG_List\<rparr>, parent = None, children = [1]\<rparr>,
      \<lparr>cell_data = g_new0_NbtData\<lparr>type := TAG_Int\<rparr>, parent = Some 0, children = []\<rparr>,
      \<lparr>cell_data = g_new0_NbtData\<lparr>type := TAG_Int\<rparr>, parent = None, children = []\<rparr>,
      \<lparr>cell_data = g_new0_NbtData\<lparr>type := TAG_Byte\<rparr>, parent = None, children = []\<rparr>] (Some 0) (Some 1) (Some 2) =
   Returns (True,
     [\<lparr>cell_data = g_new0_NbtData\<lparr>type := TAG_List\<rparr>, parent = None, children = [1, 2]\<rparr>,
      \<lparr>cell_data = g_new0_NbtData\<lparr>type := TAG_Int\<rparr>, parent = Some 0, children = []\<rparr>,
      \<lparr>cell_data = g_new0_NbtData\<lparr>type := TAG_Int\<rparr>, parent = Some 0, children = []\<rparr>,
      \<lparr>cell_data = g_new0_NbtData\<lparr>type := TAG_Byte\<rparr>, parent = None, children = []\<rparr>])"
  by code_simp

text \<open>
  Claim C8 (the four insertion functions fail, returning \<open>FALSE\<close> and changing nothing,
  when the parent is neither a Compound nor a List, and when the parent is a List with
  children and the new child has another kind than they; so trees built through them
  keep invariant I3).  The first part is the wrong kind of parent, the second a list
  that has a child \<open>x\<close> of another kind than the new child, in a heap that is well linked
  and satisfies I3.  The third part is the invariant: whatever the arguments, when the
  heap is well linked and satisfies I3 before one of the four functions returns, it is
  so afterwards.
\<close>

theorem C8_insertion_keeps_list_kind:
  "(live h n \<and> live h c \<and> kind h n \<noteq> TAG_Compound \<and> kind h n \<noteq> TAG_List \<longrightarrow>
      nbt_node_prepend h (Some n) (Some c) = Returns (False, h)
      \<and> nbt_node_append h (Some n) (Some c) = Returns (False, h)
      \<and> nbt_node_insert_before h (Some n) sibling (Some c) = Returns (False, h)
      \<and> nbt_node_insert_after h (Some n) sibling (Some c) = Returns (False, h))
   \<and> (well_linked h \<and> I3 h \<and> live h n \<and> live h c
        \<and> (\<forall>s. sibling = Some s \<longrightarrow> live h s)
        \<and> kind h n = TAG_List \<and> x \<in> set (children (h ! n)) \<and> kind h x \<noteq> kind h c \<longrightarrow>
      nbt_node_prepend h (Some n) (Some c) = Returns (False, h)
      \<and> nbt_node_append h (Some n) (Some c) = Returns (False, h)
      \<and> nbt_node_insert_before h (Some n) sibling (Some c) = Returns (False, h)
      \<and> nbt_node_insert_after h (Some n) sibling (Some c) = Returns (False, h))
   \<and> (well_linked h \<and> I3 h \<longrightarrow>
        (nbt_node_prepend h node child = Returns (res, h') \<longrightarrow> well_linked h' \<and> I3 h')
        \<and> (nbt_node_append h node child = Returns (res, h') \<longrightarrow> well_linked h' \<and> I3 h')
        \<and> (nbt_node_insert_before h node sibling child = Returns (res, h') \<longrightarrow>
              well_linked h' \<and> I3 h')
        \<and> (nbt_node_insert_after h node sibling child = Returns (res, h') \<longrightarrow>
              well_linked h' \<and> I3 h'))"
proof (intro conjI impI)
  assume a: "live h n \<and> live h c \<and> kind h n \<noteq> TAG_Compound \<and> kind h n \<noteq> TAG_List"
  then have l: "n < length h" "c < length h" and k: "kind h n \<noteq> TAG_Compound" "kind h n \<noteq> TAG_List"
    by (simp_all add: live_def)
  show "nbt_node_prepend h (Some n) (Some c) = Returns (False, h)"
    by (rule wrong_kind_fails [OF l k])
  show "nbt_node_append h (Some n) (Some c) = Returns (False, h)"
    by (rule wrong_kind_fails [OF l k])
  show "nbt_node_insert_before h (Some n) sibling (Some c) = Returns (False, h)"
    by (rule wrong_kind_fails [OF l k])
  show "nbt_node_insert_after h (Some n) sibling (Some c) = Returns (False, h)"
    by (rule wrong_kind_fails [OF l k])
next
  assume a: "well_linked h \<and> I3 h \<and> live h n \<and> live h c
        \<and> (\<forall>s. sibling = Some s \<longrightarrow> live h s)
        \<and> kind h n = TAG_List \<and> x \<in> set (children (h ! n)) \<and> kind h x \<noteq> kind h c"
  then have ok: "heap_ok h" and l: "n < length h" "c < length h"
    and rest: "kind h n = TAG_List" "x \<in> set (children (h ! n))" "kind h x \<noteq> kind h c"
      "\<forall>s. sibling = Some s \<longrightarrow> s < length h"
    by (simp_all add: live_def heap_ok_def)
  show "nbt_node_prepend h (Some n) (Some c) = Returns (False, h)"
    by (rule other_kind_fails [OF ok l rest])
  show "nbt_node_append h (Some n) (Some c) = Returns (False, h)"
    by (rule other_kind_fails [OF ok l rest])
  show "nbt_node_insert_before h (Some n) sibling (Some c) = Returns (False, h)"
    by (rule other_kind_fails [OF ok l rest])
  show "nbt_node_insert_after h (Some n) sibling (Some c) = Returns (False, h)"
    by (rule other_kind_fails [OF ok l rest])
next
  assume a: "well_linked h \<and> I3 h" and r: "nbt_node_prepend h node child = Returns (res, h')"
  from a have ok: "heap_ok h" by (simp add: heap_ok_def)
  from nbt_node_prepend_ok [OF ok r] show "well_linked h'" "I3 h'" by (simp_all add: heap_ok_def)
next
  assume a: "well_linked h \<and> I3 h" and r: "nbt_node_append h node child = Returns (res, h')"
  from a have ok: "heap_ok h" by (simp add: heap_ok_def)
  from nbt_node_append_ok [OF ok r] show "well_linked h'" "I3 h'" by (simp_all add: heap_ok_def)
next
  assume a: "well_linked h \<and> I3 h"
    and r: "nbt_node_insert_before h node sibling child = Returns (res, h')"
  from a have ok: "heap_ok h" by (simp add: heap_ok_def)
  from nbt_node_insert_before_ok [OF ok r] show "well_linked h'" "I3 h'" by (simp_all add: heap_ok_def)
next
  assume a: "well_linked h \<and> I3 h"
    and r: "nbt_node_insert_after h node sibling child = Returns (res, h')"
  from a have ok: "heap_ok h" by (simp add: heap_ok_def)
  from nbt_node_insert_after_ok [OF ok r] show "well_linked h'" "I3 h'" by (simp_all add: heap_ok_def)
qed

theorem C8_insertion_keeps_list_kind_witness:
  "nbt_node_prepend [\<lparr>cell_data = g_new0_NbtData\<lparr>type := TAG_List\<rparr>, parent = None, children = [1]\<rparr>,
      \<lparr>cell_data = g_new0_NbtData\<lparr>type := TAG_Int\<rparr>, parent = Some 0, children = []\<rparr>,
      \<lparr>cell_data = g_new0_NbtData\<lparr>type := TAG_Int\<rparr>, parent = None, children = []\<rparr>,
      \<lparr>cell_data = g_new0_NbtData\<lparr>type := TAG_Byte\<rparr>, parent = None, children = []\<rparr>] (Some 3) (Some 2) = Returns (False, [\<lparr>cell_data = g_new0_NbtData\<lparr>type := TAG_List\<rparr>, parent = None, children = [1]\<rparr>,
      \<lparr>cell_data = g_new0_NbtData\<lparr>type := TAG_Int\<rparr>, parent = Some 0, children = []\<rparr>,
      \<lparr>cell_data = g_new0_NbtData\<lparr>type := TAG_Int\<rparr>, parent = None, children = []\<rparr>,
      \<lparr>cell_data = g_new0_NbtData\<lparr>type := TAG_Byte\<rparr>, parent = None, children = []\<rparr>])
   \<and> nbt_node_append [\<lparr>cell_data = g_new0_NbtData\<lparr>type := TAG_List\<rparr>, parent = None, children = [1]\<rparr>,
      \<lparr>cell_data = g_new0_NbtData\<lparr>type := TAG_Int\<rparr>, parent = Some 0, children = []\<rparr>,
      \<lparr>cell_data = g_new0_NbtData\<lparr>type := TAG_Int\<rparr>, parent = None, children = []\<rparr>,
      \<lparr>cell_data = g_new0_NbtData\<lparr>type := TAG_Byte\<rparr>, parent = None, children = []\<rparr>] (Some 3) (Some 2) = Returns (False, [\<lparr>cell_data = g_new0_NbtData\<lparr>type := TAG_List\<rparr>, parent = None, children = [1]\<rparr>,
      \<lparr>cell_data = g_new0_NbtData\<lparr>type := TAG_Int\<rparr>, parent = Some 0, children = []\<rparr>,
      \<lparr>cell_data = g_new0_NbtData\<lparr>type := TAG_Int\<rparr>, parent = None, children = []\<rparr>,
      \<lparr>cell_data = g_new0_NbtData\<lparr>type := TAG_Byte\<rparr>, parent = None, children = []\<rparr>])
   \<and> nbt_node_insert_before [\<lparr>cell_data = g_new0_NbtData\<lparr>type := TAG_List\<rparr>, parent = None, children = [1]\<rparr>,
      \<lparr>cell_data = g_new0_NbtData\<lparr>type := TAG_Int\<rparr>, parent = Some 0, children = []\<rparr>,
      \<lparr>cell_data = g_new0_NbtData\<lparr>type := TAG_Int\<rparr>, parent = None, children = []\<rparr>,
      \<lparr>cell_data = g_new0_NbtData\<lparr>type := TAG_Byte\<rparr>, parent = None, children = []\<rparr>] (Some 3) None (Some 2) = Returns (False, [\<lparr>cell_data = g_new0_NbtData\<lparr>type := TAG_List\<rparr>, parent = None, children = [1]\<rparr>,
      \<lparr>cell_data = g_new0_NbtData\<lparr>type := TAG_Int\<rparr>, parent = Some 0, children = []\<rparr>,
      \<lparr>cell_data = g_new0_NbtData\<lparr>type := TAG_Int\<rparr>, parent = None, children = []\<rparr>,
      \<lparr>cell_data = g_new0_NbtData\<lparr>type := TAG_Byte\<rparr>, parent = None, children = []\<rparr>])
   \<and> nbt_node_insert_after [\<lparr>cell_data = g_new0_NbtData\<lparr>type := TAG_List\<rparr>, parent = None, children = [1]\<rparr>,
      \<lparr>cell_data = g_new0_NbtData\<lparr>type := TAG_Int\<rparr>, parent = Some 0, children = []\<rparr>,
      \<lparr>cell_data = g_new0_NbtData\<lparr>type := TAG_Int\<rparr>, parent = None, children = []\<rparr>,
      \<lparr>cell_data = g_new0_NbtData\<lparr>type := TAG_Byte\<rparr>, parent = None, children = []\<rparr>] (Some 3) None (Some 2) = Returns (False, [\<lparr>cell_data = g_new0_NbtData\<lparr>type := TAG_List\<rparr>, parent = None, children = [1]\<rparr>,
      \<lparr>cell_data = g_new0_NbtData\<lparr>type := TAG_Int\<rparr>, parent = Some 0, children = []\<rparr>,
      \<lparr>cell_data = g_new0_NbtData\<lparr>type := TAG_Int\<rparr>, parent = None, children = []\<rparr>,
      \<lparr>cell_data = g_new0_NbtData\<lparr>type := TAG_Byte\<rparr>, parent = None, children = []\<rparr>])
   \<and> nbt_node_prepend [\<lparr>cell_data = g_new0_NbtData\<lparr>type := TAG_List\<rparr>, parent = None, children = [1]\<rparr>,
      \<lparr>cell_data = g_new0_NbtData\<lparr>type := TAG_Int\<rparr>, parent = Some 0, children = []\<rparr>,
      \<lparr>cell_data = g_new0_NbtData\<lparr>type := TAG_Int\<rparr>, parent = None, children = []\<rparr>,
      \<lparr>cell_data = g_new0_NbtData\<lparr>type := TAG_Byte\<rparr>, parent = None, children = []\<rparr>] (Some 0) (Some 3) = Returns (False, [\<lparr>cell_data = g_new0_NbtData\<lparr>type := TAG_List\<rparr>, parent = None, children = [1]\<rparr>,
      \<lparr>cell_data = g_new0_NbtData\<lparr>type := TAG_Int\<rparr>, parent = Some 0, children = []\<rparr>,
      \<lparr>cell_data = g_new0_NbtData\<lparr>type := TAG_Int\<rparr>, parent = None, children = []\<rparr>,
      \<lparr>cell_data = g_new0_NbtData\<lparr>type := TAG_Byte\<rparr>, parent = None, children = []\<rparr>])
   \<and> nbt_node_append [\<lparr>cell_data = g_new0_NbtData\<lparr>type := TAG_List\<rparr>, parent = None, children = [1]\<rparr>,
      \<lparr>cell_data = g_new0_NbtData\<lparr>type := TAG_Int\<rparr>, parent = Some 0, children = []\<rparr>,
      \<lparr>cell_data = g_new0_NbtData\<lparr>type := TAG_Int\<rparr>, parent = None, children = []\<rparr>,
      \<lparr>cell_data = g_new0_NbtData\<lparr>type := TAG_Byte\<rparr>, parent = None, children = []\<rparr>] (Some 0) (Some 3) = Returns (False, [\<lparr>cell_data = g_new0_NbtData\<lparr>type := TAG_List\<rparr>, parent = None, children = [1]\<rparr>,
      \<lparr>cell_data = g_new0_NbtData\<lparr>type := TAG_Int\<rparr>, parent = Some 0, children = []\<rparr>,
      \<lparr>cell_data = g_new0_NbtData\<lparr>type := TAG_Int\<rparr>, parent = None, children = []\<rparr>,
      \<lparr>cell_data = g_new0_NbtData\<lparr>type := TAG_Byte\<rparr>, parent = None, children = []\<rparr>])
   \<and> nbt_node_insert_before [\<lparr>cell_data = g_new0_NbtData\<lparr>type := TAG_List\<rparr>, parent = None, children = [1]\<rparr>,
      \<lparr>cell_data = g_new0_NbtData\<lparr>type := TAG_Int\<rparr>, parent = Some 0, children = []\<rparr>,
      \<lparr>cell_data = g_new0_NbtData\<lparr>type := TAG_Int\<rparr>, parent = None, children = []\<rparr>,
      \<lparr>cell_data = g_new0_NbtData\<lparr>type := TAG_Byte\<rparr>, parent = None, children = []\<rparr>] (Some 0) (Some 1) (Some 3) = Returns (False, [\<lparr>cell_data = g_new0_NbtData\<lparr>type := TAG_List\<rparr>, parent = None, children = [1]\<rparr>,
      \<lparr>cell_data = g_new0_NbtData\<lparr>type := TAG_Int\<rparr>, parent = Some 0, children = []\<rparr>,
      \<lparr>cell_data = g_new0_NbtData\<lparr>type := TAG_Int\<rparr>, parent = None, children = []\<rparr>,
      \<lparr>cell_data = g_new0_NbtData\<lparr>type := TAG_Byte\<rparr>, parent = None, children = []\<rparr>])
   \<and> nbt_node_insert_after [\<lparr>cell_data = g_new0_NbtData\<lparr>type := TAG_List\<rparr>, parent = None, children = [1]\<rparr>,
      \<lparr>cell_data = g_new0_NbtData\<lparr>type := TAG_Int\<rparr>, parent = Some 0, children = []\<rparr>,
      \<lparr>cell_data = g_new0_NbtData\<lparr>type := TAG_Int\<rparr>, parent = None, children = []\<rparr>,
      \<lparr>cell_data = g_new0_NbtData\<lparr>type := TAG_Byte\<rparr>, parent = None, children = []\<rparr>] (Some 0) (Some 1) (Some 3) = Returns (False, [\<lparr>cell_data = g_new0_NbtData\<lparr>type := TAG_List\<rparr>, parent = None, children = [1]\<rparr>,
      \<lparr>cell_data = g_new0_NbtData\<lparr>type := TAG_Int\<rparr>, parent = Some 0, children = []\<rparr>,
      \<lparr>cell_data = g_new0_NbtData\<lparr>type := TAG_Int\<rparr>, parent = None, children = []\<rparr>,
      \<lparr>cell_data = g_new0_NbtData\<lparr>type := TAG_Byte\<rparr>, parent = None, children = []\<rparr>])
   \<and> (well_linked
     [\<lparr>cell_data = g_new0_NbtData\<lparr>type := TAG_List\<rparr>, parent = None, children = [2, 1]\<rparr>,
      \<lparr>cell_data = g_new0_NbtData\<lparr>type := TAG_Int\<rparr>, parent = Some 0, children = []\<rparr>,
      \<lparr>cell_data = g_new0_NbtData\<lparr>type := TAG_Int\<rparr>, parent = Some 0, children = []\<rparr>,
      \<lparr>cell_data = g_new0_NbtData\<lparr>type := TAG_Byte\<rparr>, parent = None, children = []\<rparr>]
   \<and> I3
     [\<lparr>cell_data = g_new0_NbtData\<lparr>type := TAG_List\<rparr>, parent = None, children = [2, 1]\<rparr>,
      \<lparr>cell_data = g_new0_NbtData\<lparr>type := TAG_Int\<rparr>, parent = Some 0, children = []\<rparr>,
      \<lparr>cell_data = g_new0_NbtData\<lparr>type := TAG_Int\<rparr>, parent = Some 0, children = []\<rparr>,
      \<lparr>cell_data = g_new0_NbtData\<lparr>type := TAG_Byte\<rparr>, parent = None, children = []\<rparr>])
   \<and> (well_linked
     [\<lparr>cell_data = g_new0_NbtData\<lparr>type := TAG_List\<rparr>, parent = None, children = [1, 2]\<rparr>,
      \<lparr>cell_data = g_new0_NbtData\<lparr>type := TAG_Int\<rparr>, parent = Some 0, children = []\<rparr>,
      \<lparr>cell_data = g_new0_NbtData\<lparr>type := TAG_Int\<rparr>, parent = Some 0, children = []\<rparr>,
      \<lparr>cell_data = g_new0_NbtData\<lparr>type := TAG_Byte\<rparr>, parent = None, children = []\<rparr>]
   \<and> I3
     [\<lparr>cell_data = g_new0_NbtData\<lparr>type := TAG_List\<rparr>, parent = None, children = [1, 2]\<rparr>,
      \<lparr>cell_data = g_new0_NbtData\<lparr>type := TAG_Int\<rparr>, parent = Some 0, children = []\<rparr>,
      \<lparr>cell_data = g_new0_NbtData\<lparr>type := TAG_Int\<rparr>, parent = Some 0, children = []\<rparr>,
      \<lparr>cell_data = g_new0_NbtData\<lparr>type := TAG_Byte\<rparr>, parent = None, children = []\<rparr>])
   \<and> (well_linked
     [\<lparr>cell_data = g_new0_NbtData\<lparr>type := TAG_List\<rparr>, parent = None, children = [2, 1]\<rparr>,
      \<lparr>cell_data = g_new0_NbtData\<lparr>type := TAG_Int\<rparr>, parent = Some 0, children = []\<rparr>,
      \<lparr>cell_data = g_new0_NbtData\<lparr>type := TAG_Int\<rparr>, parent = Some 0, children = []\<rparr>,
      \<lparr>cell_data = g_new0_NbtData\<lparr>type := TAG_Byte\<rparr>, parent = None, children = []\<rparr>]
   \<and> I3
     [\<lparr>cell_data = g_new0_NbtData\<lparr>type := TAG_List\<rparr>, parent = None, children = [2, 1]\<rparr>,
      \<lparr>cell_data = g_new0_NbtData\<lparr>type := TAG_Int\<rparr>, parent = Some 0, children = []\<rparr>,
      \<lparr>cell_data = g_new0_NbtData\<lparr>type := TAG_Int\<rparr>, parent = Some 0, children = []\<rparr>,
      \<lparr>cell_data = g_new0_NbtData\<lparr>type := TAG_Byte\<rparr>, parent = None, children = []\<rparr>])
   \<and> (well_linked
     [\<lparr>cell_data = g_new0_NbtData\<lparr>type := TAG_List\<rparr>, parent = None, children = [1, 2]\<rparr>,
      \<lparr>cell_data = g_new0_NbtData\<lparr>type := TAG_Int\<rparr>, parent = Some 0, children = []\<rparr>,
      \<lparr>cell_data = g_new0_NbtData\<lparr>type := TAG_Int\<rparr>, parent = Some 0, children = []\<rparr>,
      \<lparr>cell_data = g_new0_NbtData\<lparr>type := TAG_Byte\<rparr>, parent = None, children = []\<rparr>]
   \<and> I3
     [\<lparr>cell_data = g_new0_NbtData\<lparr>type := TAG_List\<rparr>, parent = None, children = [1, 2]\<rparr>,
      \<lparr>cell_data = g_new0_NbtData\<lparr>type := TAG_Int\<rparr>, parent = Some 0, children = []\<rparr>,
      \<lparr>cell_data = g_new0_NbtData\<lparr>type := TAG_Int\<rparr>, parent = Some 0, children = []\<rparr>,
      \<lparr>cell_data = g_new0_NbtData\<lparr>type := TAG_Byte\<rparr>, parent = None, children = []\<rparr>])"
proof -
  let ?h = "[\<lparr>cell_data = g_new0_NbtData\<lparr>type := TAG_List\<rparr>, parent = None, children = [1]\<rparr>,
      \<lparr>cell_data = g_new0_NbtData\<lparr>type := TAG_Int\<rparr>, parent = Some 0, children = []\<rparr>,
      \<lparr>cell_data = g_new0_NbtData\<lparr>type := TAG_Int\<rparr>, parent = None, children = []\<rparr>,
      \<lparr>cell_data = g_new0_NbtData\<lparr>type := TAG_Byte\<rparr>, parent = None, children = []\<rparr>]"
  have l: "live ?h 3" "live ?h 2" "live ?h 0" "live ?h 1" by (simp_all add: live_def)
  have k: "kind ?h 3 = TAG_Byte" "kind ?h 2 = TAG_Int" "kind ?h 0 = TAG_List" "kind ?h 1 = TAG_Int"
    by (simp_all add: kind_def)
  have wrong: "live ?h 3 \<and> live ?h 2 \<and> kind ?h 3 \<noteq> TAG_Compound \<and> kind ?h 3 \<noteq> TAG_List"
    using l k by simp
  have other: "well_linked ?h \<and> I3 ?h \<and> live ?h 0 \<and> live ?h 3
        \<and> (\<forall>s. Some 1 = Some s \<longrightarrow> live ?h s)
        \<and> kind ?h 0 = TAG_List \<and> 1 \<in> set (children (?h ! 0)) \<and> kind ?h 1 \<noteq> kind ?h 3"
    using l k example_heap_ok by simp
  have other': "well_linked ?h \<and> I3 ?h \<and> live ?h 0 \<and> live ?h 3
        \<and> (\<forall>s. None = Some s \<longrightarrow> live ?h s)
        \<and> kind ?h 0 = TAG_List \<and> 1 \<in> set (children (?h ! 0)) \<and> kind ?h 1 \<noteq> kind ?h 3"
    using l k example_heap_ok by simp
  note a = C8_insertion_keeps_list_kind [where h = ?h and n = 3 and c = 2 and sibling = None,
      THEN conjunct1, THEN mp, OF wrong]
  note b = C8_insertion_keeps_list_kind [where h = ?h and n = 0 and c = 3 and x = 1
      and sibling = "Some 1", THEN conjunct2, THEN conjunct1, THEN mp, OF other]
  note b' = C8_insertion_keeps_list_kind [where h = ?h and n = 0 and c = 3 and x = 1
      and sibling = None, THEN conjunct2, THEN conjunct1, THEN mp, OF other']
  note c = C8_insertion_keeps_list_kind [where h = ?h, THEN conjunct2, THEN conjunct2, THEN mp,
      OF example_heap_ok]
  note c1 = c [THEN conjunct1, THEN mp, OF example_nbt_node_prepend]
  note c2 = c [THEN conjunct2, THEN conjunct1, THEN mp, OF example_nbt_node_append]
  note c3 = c [THEN conjunct2, THEN conjunct2, THEN conjunct1, THEN mp,
      OF example_nbt_node_insert_before]
  note c4 = c [THEN conjunct2, THEN conjunct2, THEN conjunct2, THEN mp,
      OF example_nbt_node_insert_after]
  from a b b' c1 c2 c3 c4 show ?thesis by blast
qed

subsection \<open>Truncated input\<close>

text \<open>
  A read that succeeds on a buffer does the same on the first \<open>k\<close> bytes of it when it
  ends at or before \<open>k\<close>, and fails there otherwise.
\<close>

lemma cut_simps [simp]:
  "pos (cut k b) = pos b" "len (cut k b) = k" "block (cut k b) = take k (block b)"
  "data (cut k b) = map_option (take k) (data b)"
  "cut k (b\<lparr>pos := p\<rparr>) = (cut k b)\<lparr>pos := p\<rparr>"
  by (simp_all add: cut_def block_def split: option.splits)

lemma load_uint16_take: "p + 2 \<le> k \<Longrightarrow> load_uint16 (take k d) p = load_uint16 d p"
  by (simp add: load_uint16_def)

lemma load_uint32_take: "p + 4 \<le> k \<Longrightarrow> load_uint32 (take k d) p = load_uint32 d p"
  by (simp add: load_uint32_def)

lemma load_uint64_take: "p + 8 \<le> k \<Longrightarrow> load_uint64 (take k d) p = load_uint64 d p"
  by (simp add: load_uint64_def)

lemma take_drop_take: "p + n \<le> k \<Longrightarrow> take n (drop p (take k d)) = take n (drop p d)"
  by (simp add: drop_take min_def)

lemma LIBNBT_getUint8_cut:
  "LIBNBT_getUint8 b = Some (v, b1) \<Longrightarrow>
     len b1 = len b \<and> pos b1 = pos b + 1
     \<and> LIBNBT_getUint8 (cut k b) = (if pos b1 \<le> k then Some (v, cut k b1) else None)"
  by (auto simp add: LIBNBT_getUint8_def split: if_splits)

lemma LIBNBT_getUint16_cut:
  "LIBNBT_getUint16 b = Some (v, b1) \<Longrightarrow>
     len b1 = len b \<and> pos b1 = pos b + 2
     \<and> LIBNBT_getUint16 (cut k b) = (if pos b1 \<le> k then Some (v, cut k b1) else None)"
  by (auto simp add: LIBNBT_getUint16_def load_uint16_take split: if_splits)

lemma LIBNBT_getUint32_cut:
  "LIBNBT_getUint32 b = Some (v, b1) \<Longrightarrow>
     len b1 = len b \<and> pos b1 = pos b + 4
     \<and> LIBNBT_getUint32 (cut k b) = (if pos b1 \<le> k then Some (v, cut k b1) else None)"
  by (auto simp add: LIBNBT_getUint32_def load_uint32_take split: if_splits)

lemma LIBNBT_getUint64_cut:
  "LIBNBT_getUint64 b = Some (v, b1) \<Longrightarrow>
     len b1 = len b \<and> pos b1 = pos b + 8
     \<and> LIBNBT_getUint64 (cut k b) = (if pos b1 \<le> k then Some (v, cut k b1) else None)"
  by (auto simp add: LIBNBT_getUint64_def load_uint64_take split: if_splits)

lemma LIBNBT_getKey_cut:
  assumes "LIBNBT_getKey b = Some (v, b1)"
  shows "len b1 = len b \<and> pos b < pos b1
     \<and> LIBNBT_getKey (cut k b) = (if pos b1 \<le> k then Some (v, cut k b1) else None)"
proof -
  from assms obtain n b0 where r: "LIBNBT_getUint16 b = Some (n, b0)"
    by (auto simp add: LIBNBT_getKey_def split: option.splits)
  note c = LIBNBT_getUint16_cut [OF r, of k]
  show ?thesis
  proof (cases "n = 0")
    case True
    with assms r c show ?thesis by (simp add: LIBNBT_getKey_def)
  next
    case False
    with assms r have le: "pos b0 + unat n \<le> len b0"
      and v: "v = Some (take (unat n) (drop (pos b0) (block b0)) @ [0])"
      and b1: "b1 = b0\<lparr>pos := pos b0 + unat n\<rparr>"
      by (auto simp add: LIBNBT_getKey_def split: if_splits)
    show ?thesis
    proof (cases "pos b1 \<le> k")
      case True
      with b1 have "pos b0 + unat n \<le> k" by simp
      with False c v b1 show ?thesis
        by (simp add: LIBNBT_getKey_def take_drop_take)
    next
      case nle: False
      with False c v b1 show ?thesis
        by (simp add: LIBNBT_getKey_def)
    qed
  qed
qed

lemma parse_value_tag_cut:
  assumes "parse_value_tag d b = Done (tag, d1, b1)" and "pos b \<le> k"
  shows "len b1 = len b \<and> pos b \<le> pos b1
     \<and> parse_value_tag d (cut k b)
         = (if pos b1 \<le> k then Done (tag, d1, cut k b1)
            else Failed NBT_GLIB_PARSE_ERROR_INTERRUPTED)"
proof (cases "type d = TAG_End")
  case True
  with assms obtain v where r: "LIBNBT_getUint8 b = Some (v, b1)"
    and v: "isValidTag (unat v)" "tag = unat v" "d1 = d\<lparr>type := unat v\<rparr>"
    by (auto simp add: parse_value_tag_def split: option.splits if_splits)
  from LIBNBT_getUint8_cut [OF r, of k] True v show ?thesis
    by (simp add: parse_value_tag_def)
next
  case False
  with assms show ?thesis by (auto simp add: parse_value_tag_def)
qed

lemma parse_value_key_cut:
  assumes "parse_value_key skipkey d b = Done (d1, b1)" and "pos b \<le> k"
  shows "len b1 = len b \<and> pos b \<le> pos b1
     \<and> parse_value_key skipkey d (cut k b)
         = (if pos b1 \<le> k then Done (d1, cut k b1)
            else Failed NBT_GLIB_PARSE_ERROR_INTERRUPTED)"
proof (cases skipkey)
  case True
  with assms show ?thesis by (simp add: parse_value_key_def)
next
  case False
  with assms obtain v where r: "LIBNBT_getKey b = Some (v, b1)"
    by (auto simp add: parse_value_key_def split: option.splits c_run.splits)
  from LIBNBT_getKey_cut [OF r, of k] False assms(1) r show ?thesis
    by (auto simp add: parse_value_key_def split: option.splits c_run.splits)
qed

lemma parse_value_list_head_cut:
  assumes "parse_value_list_head b = Done (list_type, n, b1)"
  shows "len b1 = len b \<and> pos b < pos b1
     \<and> parse_value_list_head (cut k b)
         = (if pos b1 \<le> k then Done (list_type, n, cut k b1)
            else Failed NBT_GLIB_PARSE_ERROR_INTERRUPTED)"
proof -
  from assms obtain v b0 where r: "LIBNBT_getUint8 b = Some (v, b0)"
    by (auto simp add: parse_value_list_head_def split: option.splits)
  with assms obtain w where s: "LIBNBT_getUint32 b0 = Some (w, b1)"
    by (auto simp add: parse_value_list_head_def split: option.splits if_splits)
  from LIBNBT_getUint8_cut [OF r, of k] LIBNBT_getUint32_cut [OF s, of k] assms r s
  show ?thesis
    by (auto simp add: parse_value_list_head_def split: if_splits)
qed

lemma unat_times_4: "4 * i < unat (n * 4 :: 32 word) \<Longrightarrow> 4 * i + 4 \<le> unat (n * 4)"
proof -
  assume a: "4 * i < unat (n * 4)"
  have "unat (n * 4) = unat n * 4 mod 2 ^ 32" by (simp add: unat_word_ariths)
  moreover have "(4::nat) dvd unat n * 4 mod 2 ^ 32" by (rule dvd_mod) simp_all
  ultimately have "(4::nat) dvd unat (n * 4)" by simp
  then obtain q where "unat (n * 4) = 4 * q" by (elim dvdE)
  with a show ?thesis by simp
qed

lemma unat_times_8: "8 * i < unat (n * 8 :: 32 word) \<Longrightarrow> 8 * i + 8 \<le> unat (n * 8)"
proof -
  assume a: "8 * i < unat (n * 8)"
  have "unat (n * 8) = unat n * 8 mod 2 ^ 32" by (simp add: unat_word_ariths)
  moreover have "(8::nat) dvd unat n * 8 mod 2 ^ 32" by (rule dvd_mod) simp_all
  ultimately have "(8::nat) dvd unat (n * 8)" by simp
  then obtain q where "unat (n * 8) = 8 * q" by (elim dvdE)
  with a show ?thesis by simp
qed

lemma ints_take:
  assumes "p + unat (n * 4 :: 32 word) \<le> k"
  shows "map (\<lambda>i. if 4 * i < unat (n * 4) then bswap_32 (load_uint32 (take k d) (p + 4 * i))
                   else bswap_32 0) xs
       = map (\<lambda>i. if 4 * i < unat (n * 4) then bswap_32 (load_uint32 d (p + 4 * i))
                   else bswap_32 0) xs"
proof (rule map_cong [OF refl])
  fix i
  show "(if 4 * i < unat (n * 4) then bswap_32 (load_uint32 (take k d) (p + 4 * i)) else bswap_32 0)
      = (if 4 * i < unat (n * 4) then bswap_32 (load_uint32 d (p + 4 * i)) else bswap_32 0)"
  proof (cases "4 * i < unat (n * 4)")
    case True
    from unat_times_4 [OF True] assms have "p + 4 * i + 4 \<le> k" by simp
    with True show ?thesis by (simp add: load_uint32_take)
  next
    case False
    then show ?thesis by simp
  qed
qed

lemma longs_take:
  assumes "p + unat (n * 8 :: 32 word) \<le> k"
  shows "map (\<lambda>i. if 8 * i < unat (n * 8) then bswap_64 (load_uint64 (take k d) (p + 8 * i))
                   else bswap_64 0) xs
       = map (\<lambda>i. if 8 * i < unat (n * 8) then bswap_64 (load_uint64 d (p + 8 * i))
                   else bswap_64 0) xs"
proof (rule map_cong [OF refl])
  fix i
  show "(if 8 * i < unat (n * 8) then bswap_64 (load_uint64 (take k d) (p + 8 * i)) else bswap_64 0)
      = (if 8 * i < unat (n * 8) then bswap_64 (load_uint64 d (p + 8 * i)) else bswap_64 0)"
  proof (cases "8 * i < unat (n * 8)")
    case True
    from unat_times_8 [OF True] assms have "p + 8 * i + 8 \<le> k" by simp
    with True show ?thesis by (simp add: load_uint64_take)
  next
    case False
    then show ?thesis by simp
  qed
qed

lemma payload_tags:
  assumes "parse_value_payload fd tag d b = Done (d1, b1)"
  shows "tag \<in> {1, 2, 3, 4, 5, 6, 7, 8, 11, 12}"
proof (rule ccontr)
  assume "tag \<notin> {1, 2, 3, 4, 5, 6, 7, 8, 11, 12}"
  then have "parse_value_payload fd tag d b = Failed NBT_GLIB_PARSE_ERROR_INTERRUPTED"
    by (simp add: parse_value_payload_def)
  with assms show False by simp
qed

lemma reader_case_cut:
  assumes rd: "\<And>v b1. rd b = Some (v, b1) \<Longrightarrow>
                 len b1 = len b \<and> pos b1 = pos b + w
                 \<and> rd (cut k b) = (if pos b1 \<le> k then Some (v, cut k b1) else None)"
    and w: "0 < w"
    and r: "(case rd b of None \<Rightarrow> Failed e | Some (v, b1) \<Rightarrow> Done (g v, b1)) = Done (d1, b1)"
  shows "len b1 = len b \<and> pos b < pos b1
     \<and> (case rd (cut k b) of None \<Rightarrow> Failed e | Some (v, b1) \<Rightarrow> Done (g v, b1))
         = (if pos b1 \<le> k then Done (d1, cut k b1) else Failed e)"
proof -
  from r obtain v where s: "rd b = Some (v, b1)" and d1: "d1 = g v"
    by (auto split: option.splits)
  from rd [OF s] w d1 show ?thesis by simp
qed

lemma payload_1:
  "parse_value_payload fd 1 d b =
     (case LIBNBT_getUint8 b of None \<Rightarrow> Failed NBT_GLIB_PARSE_ERROR_INTERRUPTED
      | Some (v, b1) \<Rightarrow> Done (d\<lparr>value_i := ucast v\<rparr>, b1))"
  by (simp add: parse_value_payload_def)

lemma payload_2:
  "parse_value_payload fd 2 d b =
     (case LIBNBT_getUint16 b of None \<Rightarrow> Failed NBT_GLIB_PARSE_ERROR_INTERRUPTED
      | Some (v, b1) \<Rightarrow> Done (d\<lparr>value_i := ucast v\<rparr>, b1))"
  by (simp add: parse_value_payload_def)

lemma payload_3:
  "parse_value_payload fd 3 d b =
     (case LIBNBT_getUint32 b of None \<Rightarrow> Failed NBT_GLIB_PARSE_ERROR_INTERRUPTED
      | Some (v, b1) \<Rightarrow> Done (d\<lparr>value_i := ucast v\<rparr>, b1))"
  by (simp add: parse_value_payload_def)

lemma payload_4:
  "parse_value_payload fd 4 d b =
     (case LIBNBT_getUint64 b of None \<Rightarrow> Failed NBT_GLIB_PARSE_ERROR_INTERRUPTED
      | Some (v, b1) \<Rightarrow> Done (d\<lparr>value_i := v\<rparr>, b1))"
  by (simp add: parse_value_payload_def)

lemma payload_5:
  "parse_value_payload fd 5 d b =
     (case LIBNBT_getUint32 b of None \<Rightarrow> Failed NBT_GLIB_PARSE_ERROR_INTERRUPTED
      | Some (v, b1) \<Rightarrow> Done (d\<lparr>value_d := fd v\<rparr>, b1))"
  by (simp add: parse_value_payload_def)

lemma payload_6:
  "parse_value_payload fd 6 d b =
     (case LIBNBT_getUint64 b of None \<Rightarrow> Failed NBT_GLIB_PARSE_ERROR_INTERRUPTED
      | Some (v, b1) \<Rightarrow> Done (d\<lparr>value_d := v\<rparr>, b1))"
  by (simp add: parse_value_payload_def)

lemma payload_scalar_cut:
  assumes "parse_value_payload fd tag d b = Done (d1, b1)" and "tag \<in> {1, 2, 3, 4, 5, 6}"
  shows "len b1 = len b \<and> pos b < pos b1
     \<and> parse_value_payload fd tag d (cut k b)
         = (if pos b1 \<le> k then Done (d1, cut k b1)
            else Failed NBT_GLIB_PARSE_ERROR_INTERRUPTED)"
proof -
  from assms(2) consider "tag = 1" | "tag = 2" | "tag = 3" | "tag = 4" | "tag = 5" | "tag = 6"
    by blast
  then show ?thesis
  proof cases
    case 1
    with assms(1) show ?thesis unfolding 1 payload_1
      by (intro reader_case_cut [where w = 1] LIBNBT_getUint8_cut) simp_all
  next
    case 2
    with assms(1) show ?thesis unfolding 2 payload_2
      by (intro reader_case_cut [where w = 2] LIBNBT_getUint16_cut) simp_all
  next
    case 3
    with assms(1) show ?thesis unfolding 3 payload_3
      by (intro reader_case_cut [where w = 4] LIBNBT_getUint32_cut) simp_all
  next
    case 4
    with assms(1) show ?thesis unfolding 4 payload_4
      by (intro reader_case_cut [where w = 8] LIBNBT_getUint64_cut) simp_all
  next
    case 5
    with assms(1) show ?thesis unfolding 5 payload_5
      by (intro reader_case_cut [where w = 4] LIBNBT_getUint32_cut) simp_all
  next
    case 6
    with assms(1) show ?thesis unfolding 6 payload_6
      by (intro reader_case_cut [where w = 8] LIBNBT_getUint64_cut) simp_all
  qed
qed

lemma payload_7:
  "parse_value_payload fd 7 d b =
     (case LIBNBT_getUint32 b of
        None \<Rightarrow> Failed NBT_GLIB_PARSE_ERROR_INTERRUPTED
      | Some (n, b0) \<Rightarrow>
          (if pos b0 + unat n > len b0 then Failed NBT_GLIB_PARSE_ERROR_INTERRUPTED
           else Done
             (d\<lparr>value_a_len := n,
                value_a_value :=
                  (if n = 0 then NULL_array
                   else Bytes (take (unat n) (drop (pos b0) (block b0))))\<rparr>,
              b0\<lparr>pos := pos b0 + unat n\<rparr>)))"
  by (simp add: parse_value_payload_def)

lemma payload_8:
  "parse_value_payload fd 8 d b =
     (case LIBNBT_getUint16 b of
        None \<Rightarrow> Failed NBT_GLIB_PARSE_ERROR_INTERRUPTED
      | Some (n, b0) \<Rightarrow>
          (if pos b0 + unat n > len b0 then Failed NBT_GLIB_PARSE_ERROR_INTERRUPTED
           else
             (let v = take (unat n) (drop (pos b0) (block b0)) @ [0]
              in case convert_string (Some v) (strlen v) of
                   Undefined \<Rightarrow> UB
                 | Returns None \<Rightarrow> Failed NBT_GLIB_PARSE_ERROR_INTERRUPTED
                 | Returns (Some new_value) \<Rightarrow>
                     Done (d\<lparr>value_a_len := ucast n + 1, value_a_value := Chars new_value\<rparr>,
                           b0\<lparr>pos := pos b0 + unat n\<rparr>))))"
  by (simp add: parse_value_payload_def)

lemma payload_11:
  "parse_value_payload fd 11 d b =
     (case LIBNBT_getUint32 b of
        None \<Rightarrow> Failed NBT_GLIB_PARSE_ERROR_INTERRUPTED
      | Some (n, b0) \<Rightarrow>
          (if pos b0 + unat (n * 4) > len b0 then Failed NBT_GLIB_PARSE_ERROR_INTERRUPTED
           else Done
             (d\<lparr>value_a_len := n,
                value_a_value :=
                  (if n = 0 then NULL_array
                   else Ints (map (\<lambda>i. if 4 * i < unat (n * 4)
                                        then bswap_32 (load_uint32 (block b0) (pos b0 + 4 * i))
                                        else bswap_32 0) [0..<unat n]))\<rparr>,
              b0\<lparr>pos := pos b0 + unat (n * 4)\<rparr>)))"
  by (simp add: parse_value_payload_def)

lemma payload_12:
  "parse_value_payload fd 12 d b =
     (case LIBNBT_getUint32 b of
        None \<Rightarrow> Failed NBT_GLIB_PARSE_ERROR_INTERRUPTED
      | Some (n, b0) \<Rightarrow>
          (if pos b0 + unat (n * 8) > len b0 then Failed NBT_GLIB_PARSE_ERROR_INTERRUPTED
           else Done
             (d\<lparr>value_a_len := n,
                value_a_value :=
                  (if n = 0 then NULL_array
                   else Longs (map (\<lambda>i. if 8 * i < unat (n * 8)
                                         then bswap_64 (load_uint64 (block b0) (pos b0 + 8 * i))
                                         else bswap_64 0) [0..<unat n]))\<rparr>,
              b0\<lparr>pos := pos b0 + unat (n * 8)\<rparr>)))"
  by (simp add: parse_value_payload_def)

lemma ints_cut:
  assumes "pos b0 + unat (n * 4 :: 32 word) \<le> k"
  shows "map (\<lambda>i. if 4 * i < unat (n * 4)
                   then bswap_32 (load_uint32 (block (cut k b0)) (pos (cut k b0) + 4 * i))
                   else bswap_32 0) xs
       = map (\<lambda>i. if 4 * i < unat (n * 4)
                   then bswap_32 (load_uint32 (block b0) (pos b0 + 4 * i))
                   else bswap_32 0) xs"
  unfolding cut_simps using assms by (rule ints_take)

lemma longs_cut:
  assumes "pos b0 + unat (n * 8 :: 32 word) \<le> k"
  shows "map (\<lambda>i. if 8 * i < unat (n * 8)
                   then bswap_64 (load_uint64 (block (cut k b0)) (pos (cut k b0) + 8 * i))
                   else bswap_64 0) xs
       = map (\<lambda>i. if 8 * i < unat (n * 8)
                   then bswap_64 (load_uint64 (block b0) (pos b0 + 8 * i))
                   else bswap_64 0) xs"
  unfolding cut_simps using assms by (rule longs_take)

lemma payload_7_cut:
  assumes "parse_value_payload fd 7 d b = Done (d1, b1)"
  shows "len b1 = len b \<and> pos b < pos b1
     \<and> parse_value_payload fd 7 d (cut k b)
         = (if pos b1 \<le> k then Done (d1, cut k b1)
            else Failed NBT_GLIB_PARSE_ERROR_INTERRUPTED)"
proof -
  from assms obtain n b0 where r: "LIBNBT_getUint32 b = Some (n, b0)"
    unfolding payload_7 by (auto split: option.splits)
  note c = LIBNBT_getUint32_cut [OF r, of k]
  from assms r have b1: "b1 = b0\<lparr>pos := pos b0 + unat n\<rparr>"
    and d1: "d1 = d\<lparr>value_a_len := n,
                value_a_value :=
                  (if n = 0 then NULL_array
                   else Bytes (take (unat n) (drop (pos b0) (block b0))))\<rparr>"
    unfolding payload_7 by (auto split: if_splits)
  show ?thesis
  proof (cases "pos b1 \<le> k")
    case True
    with b1 have "pos b0 + unat n \<le> k" by simp
    with c b1 d1 show ?thesis unfolding payload_7 by (simp add: take_drop_take)
  next
    case False
    with c b1 show ?thesis unfolding payload_7 by simp
  qed
qed

lemma payload_8_cut:
  assumes "parse_value_payload fd 8 d b = Done (d1, b1)"
  shows "len b1 = len b \<and> pos b < pos b1
     \<and> parse_value_payload fd 8 d (cut k b)
         = (if pos b1 \<le> k then Done (d1, cut k b1)
            else Failed NBT_GLIB_PARSE_ERROR_INTERRUPTED)"
proof -
  from assms obtain n b0 where r: "LIBNBT_getUint16 b = Some (n, b0)"
    unfolding payload_8 by (auto split: option.splits)
  note c = LIBNBT_getUint16_cut [OF r, of k]
  from assms r have b1: "b1 = b0\<lparr>pos := pos b0 + unat n\<rparr>"
    unfolding payload_8 by (auto simp add: Let_def split: if_splits c_run.splits option.splits)
  show ?thesis
  proof (cases "pos b1 \<le> k")
    case True
    with b1 have "pos b0 + unat n \<le> k" by simp
    with c b1 assms r show ?thesis unfolding payload_8
      by (auto simp add: take_drop_take Let_def split: if_splits c_run.splits option.splits)
  next
    case False
    with c b1 show ?thesis unfolding payload_8 by simp
  qed
qed

lemma payload_11_cut:
  assumes "parse_value_payload fd 11 d b = Done (d1, b1)"
  shows "len b1 = len b \<and> pos b < pos b1
     \<and> parse_value_payload fd 11 d (cut k b)
         = (if pos b1 \<le> k then Done (d1, cut k b1)
            else Failed NBT_GLIB_PARSE_ERROR_INTERRUPTED)"
proof -
  from assms obtain n b0 where r: "LIBNBT_getUint32 b = Some (n, b0)"
    unfolding payload_11 by (auto split: option.splits)
  note c = LIBNBT_getUint32_cut [OF r, of k]
  from assms r have b1: "b1 = b0\<lparr>pos := pos b0 + unat (n * 4)\<rparr>"
    and d1: "d1 = d\<lparr>value_a_len := n,
                value_a_value :=
                  (if n = 0 then NULL_array
                   else Ints (map (\<lambda>i. if 4 * i < unat (n * 4)
                                        then bswap_32 (load_uint32 (block b0) (pos b0 + 4 * i))
                                        else bswap_32 0) [0..<unat n]))\<rparr>"
    unfolding payload_11 by (auto split: if_splits)
  show ?thesis
  proof (cases "pos b1 \<le> k")
    case True
    with b1 have "pos b0 + unat (n * 4) \<le> k" by simp
    with c b1 d1 show ?thesis unfolding payload_11 by (simp add: ints_cut)
  next
    case False
    with c b1 show ?thesis unfolding payload_11 by simp
  qed
qed

lemma payload_12_cut:
  assumes "parse_value_payload fd 12 d b = Done (d1, b1)"
  shows "len b1 = len b \<and> pos b < pos b1
     \<and> parse_value_payload fd 12 d (cut k b)
         = (if pos b1 \<le> k then Done (d1, cut k b1)
            else Failed NBT_GLIB_PARSE_ERROR_INTERRUPTED)"
proof -
  from assms obtain n b0 where r: "LIBNBT_getUint32 b = Some (n, b0)"
    unfolding payload_12 by (auto split: option.splits)
  note c = LIBNBT_getUint32_cut [OF r, of k]
  from assms r have b1: "b1 = b0\<lparr>pos := pos b0 + unat (n * 8)\<rparr>"
    and d1: "d1 = d\<lparr>value_a_len := n,
                value_a_value :=
                  (if n = 0 then NULL_array
                   else Longs (map (\<lambda>i. if 8 * i < unat (n * 8)
                                         then bswap_64 (load_uint64 (block b0) (pos b0 + 8 * i))
                                         else bswap_64 0) [0..<unat n]))\<rparr>"
    unfolding payload_12 by (auto split: if_splits)
  show ?thesis
  proof (cases "pos b1 \<le> k")
    case True
    with b1 have "pos b0 + unat (n * 8) \<le> k" by simp
    with c b1 d1 show ?thesis unfolding payload_12 by (simp add: longs_cut)
  next
    case False
    with c b1 show ?thesis unfolding payload_12 by simp
  qed
qed

lemma parse_value_payload_cut:
  assumes "parse_value_payload fd tag d b = Done (d1, b1)"
  shows "len b1 = len b \<and> pos b < pos b1
     \<and> parse_value_payload fd tag d (cut k b)
         = (if pos b1 \<le> k then Done (d1, cut k b1)
            else Failed NBT_GLIB_PARSE_ERROR_INTERRUPTED)"
proof -
  from payload_tags [OF assms]
  consider "tag \<in> {1, 2, 3, 4, 5, 6}" | "tag = 7" | "tag = 8" | "tag = 11" | "tag = 12"
    by blast
  then show ?thesis
  proof cases
    case 1
    with assms show ?thesis by (rule payload_scalar_cut)
  next
    case 2
    with assms show ?thesis by (simp add: payload_7_cut)
  next
    case 3
    with assms show ?thesis by (simp add: payload_8_cut)
  next
    case 4
    with assms show ?thesis by (simp add: payload_11_cut)
  next
    case 5
    with assms show ?thesis by (simp add: payload_12_cut)
  qed
qed

lemma on_success_Done: "on_success r g = Done y \<longleftrightarrow> (\<exists>x. r = Done x \<and> g x = Done y)"
  by (cases r) (simp_all add: on_success_def)

lemma on_success_simps:
  "on_success (Done x) g = g x" "on_success (Failed e) g = Failed e"
  "on_success OutOfFuel g = OutOfFuel" "on_success UB g = UB"
  by (simp_all add: on_success_def)

lemma parse_value_SucD:
  assumes "parse_value (Suc f) c fd d b sk = Done (t, bF)"
  obtains tag d1 b1 d2 b2 where
    "data b \<noteq> None" and "\<not> c"
    and "parse_value_tag d b = Done (tag, d1, b1)"
    and "parse_value_key sk d1 b1 = Done (d2, b2)"
    and "tag = 9 \<Longrightarrow> \<exists>lt n b3 ch. parse_value_list_head b2 = Done (lt, n, b3)
                         \<and> parse_value_list f c fd lt 0 n [] b3 = Done (ch, bF)
                         \<and> t = GNode d2 ch"
    and "tag = 10 \<Longrightarrow> \<exists>ch. parse_value_compound f c fd [] b2 = Done (ch, bF) \<and> t = GNode d2 ch"
    and "tag \<noteq> 9 \<Longrightarrow> tag \<noteq> 10 \<Longrightarrow>
           \<exists>d3. parse_value_payload fd tag d2 b2 = Done (d3, bF) \<and> t = GNode d3 []"
proof -
  from assms have dn: "data b \<noteq> None" and nc: "\<not> c"
    by (auto simp add: parse_value.simps split: if_splits)
  from assms dn nc obtain x where x: "parse_value_tag d b = Done x"
    by (cases "parse_value_tag d b") (simp_all add: parse_value.simps on_success_def)
  obtain tag d1 b1 where xe: "x = (tag, d1, b1)" by (cases x)
  from assms dn nc x xe obtain y where y: "parse_value_key sk d1 b1 = Done y"
    by (cases "parse_value_key sk d1 b1") (simp_all add: parse_value.simps on_success_def)
  obtain d2 b2 where ye: "y = (d2, b2)" by (cases y)
  note facts = assms dn nc x xe y ye
  show thesis
  proof (rule that [OF dn nc x [unfolded xe] y [unfolded ye]])
    assume "tag = 9"
    with facts show "\<exists>lt n b3 ch. parse_value_list_head b2 = Done (lt, n, b3)
                         \<and> parse_value_list f c fd lt 0 n [] b3 = Done (ch, bF)
                         \<and> t = GNode d2 ch"
      by (auto simp add: parse_value.simps on_success_simps on_success_Done)
  next
    assume "tag = 10"
    with facts show "\<exists>ch. parse_value_compound f c fd [] b2 = Done (ch, bF) \<and> t = GNode d2 ch"
      by (auto simp add: parse_value.simps on_success_simps on_success_Done)
  next
    assume "tag \<noteq> 9" "tag \<noteq> 10"
    with facts show "\<exists>d3. parse_value_payload fd tag d2 b2 = Done (d3, bF) \<and> t = GNode d3 []"
      by (auto simp add: parse_value.simps on_success_simps on_success_Done)
  qed
qed

lemma parse_value_list_SucD:
  assumes "parse_value_list (Suc f) c fd lt i n ch b = Done (chF, bF)" and "i < n"
  obtains child b1 where
    "parse_value f c fd (node_data (create_nbt lt)) b True = Done (child, b1)"
    and "parse_value_list f c fd lt (i + 1) n (ch @ [child]) b1 = Done (chF, bF)"
  using assms by (auto simp add: parse_value_list.simps on_success_Done)

lemma parse_value_compound_SucD:
  assumes "parse_value_compound (Suc f) c fd ch b = Done (chF, bF)"
  obtains v b1 where "LIBNBT_getUint8 b = Some (v, b1)"
    and "v = 0 \<Longrightarrow> chF = ch \<and> bF = b1"
    and "v \<noteq> 0 \<Longrightarrow> \<exists>child b2.
           parse_value f c fd (node_data (create_nbt (unat v))) b1 False = Done (child, b2)
         \<and> parse_value_compound f c fd (ch @ [child]) b2 = Done (chF, bF)"
proof -
  from assms obtain v b1 where r: "LIBNBT_getUint8 b = Some (v, b1)"
    by (auto simp add: parse_value_compound.simps split: option.splits)
  show thesis
  proof (rule that [OF r])
    assume "v = 0"
    with assms r show "chF = ch \<and> bF = b1" by (simp add: parse_value_compound.simps)
  next
    assume "v \<noteq> 0"
    with assms r show "\<exists>child b2.
           parse_value f c fd (node_data (create_nbt (unat v))) b1 False = Done (child, b2)
         \<and> parse_value_compound f c fd (ch @ [child]) b2 = Done (chF, bF)"
      by (auto simp add: parse_value_compound.simps on_success_Done)
  qed
qed

lemma parse_value_tag_adv:
  "parse_value_tag d b = Done (tag, d1, b1) \<Longrightarrow> len b1 = len b \<and> pos b \<le> pos b1"
  using parse_value_tag_cut [of d b tag d1 b1 "pos b"] by simp

lemma parse_value_key_adv:
  "parse_value_key sk d b = Done (d1, b1) \<Longrightarrow> len b1 = len b \<and> pos b \<le> pos b1"
  using parse_value_key_cut [of sk d b d1 b1 "pos b"] by simp

lemma parse_value_adv_step:
  assumes ihL: "\<forall>c fd lt i n ch b chF bF.
          parse_value_list f c fd lt i n ch b = Done (chF, bF) \<longrightarrow>
            len bF = len b \<and> pos b \<le> pos bF"
    and ihC: "\<forall>c fd ch b chF bF.
          parse_value_compound f c fd ch b = Done (chF, bF) \<longrightarrow>
            len bF = len b \<and> pos b < pos bF"
    and r: "parse_value (Suc f) c fd d b sk = Done (t, bF)"
  shows "len bF = len b \<and> pos b < pos bF"
proof -
  from r obtain tag d1 b1 d2 b2 where
    dn: "data b \<noteq> None" and nc: "\<not> c"
    and t1: "parse_value_tag d b = Done (tag, d1, b1)"
    and t2: "parse_value_key sk d1 b1 = Done (d2, b2)"
    and l: "tag = 9 \<Longrightarrow> \<exists>lt n b3 ch. parse_value_list_head b2 = Done (lt, n, b3)
                         \<and> parse_value_list f c fd lt 0 n [] b3 = Done (ch, bF)
                         \<and> t = GNode d2 ch"
    and cp: "tag = 10 \<Longrightarrow> \<exists>ch. parse_value_compound f c fd [] b2 = Done (ch, bF) \<and> t = GNode d2 ch"
    and p: "tag \<noteq> 9 \<Longrightarrow> tag \<noteq> 10 \<Longrightarrow>
           \<exists>d3. parse_value_payload fd tag d2 b2 = Done (d3, bF) \<and> t = GNode d3 []"
    by (rule parse_value_SucD) blast
  note a1 = parse_value_tag_adv [OF t1] and a2 = parse_value_key_adv [OF t2]
  consider "tag = 9" | "tag = 10" | "tag \<noteq> 9" "tag \<noteq> 10" by blast
  then have "len bF = len b2 \<and> pos b2 < pos bF"
  proof cases
    case 1
    from l [OF 1] obtain lt n b3 ch where h: "parse_value_list_head b2 = Done (lt, n, b3)"
      and q: "parse_value_list f c fd lt 0 n [] b3 = Done (ch, bF)" by blast
    from parse_value_list_head_cut [OF h, of 0] ihL [rule_format, OF q] show ?thesis by simp
  next
    case 2
    from cp [OF 2] obtain ch where q: "parse_value_compound f c fd [] b2 = Done (ch, bF)"
      by blast
    from ihC [rule_format, OF q] show ?thesis .
  next
    case 3
    from p [OF 3] obtain d3 where q: "parse_value_payload fd tag d2 b2 = Done (d3, bF)"
      by blast
    from parse_value_payload_cut [OF q, of 0] show ?thesis by simp
  qed
  with a1 a2 show ?thesis by simp
qed

lemma parse_value_list_adv_step:
  assumes ihV: "\<forall>c fd d b sk t bF.
          parse_value f c fd d b sk = Done (t, bF) \<longrightarrow> len bF = len b \<and> pos b < pos bF"
    and ihL: "\<forall>c fd lt i n ch b chF bF.
          parse_value_list f c fd lt i n ch b = Done (chF, bF) \<longrightarrow>
            len bF = len b \<and> pos b \<le> pos bF"
    and r: "parse_value_list (Suc f) c fd lt i n ch b = Done (chF, bF)"
  shows "len bF = len b \<and> pos b \<le> pos bF"
proof (cases "i < n")
  case True
  with r obtain child b1 where
    v: "parse_value f c fd (node_data (create_nbt lt)) b True = Done (child, b1)"
    and q: "parse_value_list f c fd lt (i + 1) n (ch @ [child]) b1 = Done (chF, bF)"
    by (rule parse_value_list_SucD)
  from ihV [rule_format, OF v] ihL [rule_format, OF q] show ?thesis by simp
next
  case False
  with r show ?thesis by (simp add: parse_value_list.simps)
qed

lemma parse_value_compound_adv_step:
  assumes ihV: "\<forall>c fd d b sk t bF.
          parse_value f c fd d b sk = Done (t, bF) \<longrightarrow> len bF = len b \<and> pos b < pos bF"
    and ihC: "\<forall>c fd ch b chF bF.
          parse_value_compound f c fd ch b = Done (chF, bF) \<longrightarrow>
            len bF = len b \<and> pos b < pos bF"
    and r: "parse_value_compound (Suc f) c fd ch b = Done (chF, bF)"
  shows "len bF = len b \<and> pos b < pos bF"
proof -
  from r obtain v b1 where g: "LIBNBT_getUint8 b = Some (v, b1)"
    and z: "v = 0 \<Longrightarrow> chF = ch \<and> bF = b1"
    and nz: "v \<noteq> 0 \<Longrightarrow> \<exists>child b2.
           parse_value f c fd (node_data (create_nbt (unat v))) b1 False = Done (child, b2)
         \<and> parse_value_compound f c fd (ch @ [child]) b2 = Done (chF, bF)"
    by (rule parse_value_compound_SucD) blast
  note a = LIBNBT_getUint8_cut [OF g, of 0]
  show ?thesis
  proof (cases "v = 0")
    case True
    from z [OF True] a show ?thesis by simp
  next
    case False
    from nz [OF False] obtain child b2 where
      p: "parse_value f c fd (node_data (create_nbt (unat v))) b1 False = Done (child, b2)"
      and q: "parse_value_compound f c fd (ch @ [child]) b2 = Done (chF, bF)" by blast
    from a ihV [rule_format, OF p] ihC [rule_format, OF q] show ?thesis by simp
  qed
qed

lemma parse_adv:
  "(\<forall>c fd d b sk t bF.
      parse_value f c fd d b sk = Done (t, bF) \<longrightarrow> len bF = len b \<and> pos b < pos bF)
   \<and> (\<forall>c fd lt i n ch b chF bF.
        parse_value_list f c fd lt i n ch b = Done (chF, bF) \<longrightarrow>
          len bF = len b \<and> pos b \<le> pos bF)
   \<and> (\<forall>c fd ch b chF bF.
        parse_value_compound f c fd ch b = Done (chF, bF) \<longrightarrow>
          len bF = len b \<and> pos b < pos bF)"
proof (induction f)
  case 0
  show ?case
    by (simp add: parse_value.simps parse_value_list.simps parse_value_compound.simps)
next
  case (Suc f)
  note ihV = Suc.IH [THEN conjunct1]
    and ihL = Suc.IH [THEN conjunct2, THEN conjunct1]
    and ihC = Suc.IH [THEN conjunct2, THEN conjunct2]
  have "\<forall>c fd d b sk t bF.
      parse_value (Suc f) c fd d b sk = Done (t, bF) \<longrightarrow> len bF = len b \<and> pos b < pos bF"
    using parse_value_adv_step [OF ihL ihC] by blast
  moreover have "\<forall>c fd lt i n ch b chF bF.
        parse_value_list (Suc f) c fd lt i n ch b = Done (chF, bF) \<longrightarrow>
          len bF = len b \<and> pos b \<le> pos bF"
    using parse_value_list_adv_step [OF ihV ihL] by blast
  moreover have "\<forall>c fd ch b chF bF.
        parse_value_compound (Suc f) c fd ch b = Done (chF, bF) \<longrightarrow>
          len bF = len b \<and> pos b < pos bF"
    using parse_value_compound_adv_step [OF ihV ihC] by blast
  ultimately show ?case by (intro conjI)
qed

lemmas parse_value_adv = parse_adv [THEN conjunct1, rule_format]
lemmas parse_value_list_adv = parse_adv [THEN conjunct2, THEN conjunct1, rule_format]
lemmas parse_value_compound_adv = parse_adv [THEN conjunct2, THEN conjunct2, rule_format]

lemma parse_value_list_cut_step:
  assumes ihV: "\<forall>c fd d b sk t bF f'.
          parse_value f c fd d b sk = Done (t, bF) \<longrightarrow> pos b \<le> k \<longrightarrow>
          3 * (k - pos b) + 2 \<le> f' \<longrightarrow>
            parse_value f' c fd d (cut k b) sk
            = (if pos bF \<le> k then Done (t, cut k bF)
               else Failed NBT_GLIB_PARSE_ERROR_INTERRUPTED)"
    and ihL: "\<forall>c fd lt i n ch b chF bF f'.
          parse_value_list f c fd lt i n ch b = Done (chF, bF) \<longrightarrow> pos b \<le> k \<longrightarrow>
          3 * (k - pos b) + 3 \<le> f' \<longrightarrow>
            parse_value_list f' c fd lt i n ch (cut k b)
            = (if pos bF \<le> k then Done (chF, cut k bF)
               else Failed NBT_GLIB_PARSE_ERROR_INTERRUPTED)"
    and r: "parse_value_list (Suc f) c fd lt i n ch b = Done (chF, bF)"
    and pk: "pos b \<le> k"
    and fu: "3 * (k - pos b) + 3 \<le> f'"
  shows "parse_value_list f' c fd lt i n ch (cut k b)
         = (if pos bF \<le> k then Done (chF, cut k bF)
            else Failed NBT_GLIB_PARSE_ERROR_INTERRUPTED)"
proof -
  from fu obtain g where f': "f' = Suc g" by (cases f') simp_all
  show ?thesis
  proof (cases "i < n")
    case False
    with r pk show ?thesis unfolding f' by (simp add: parse_value_list.simps)
  next
    case True
    with r obtain child b1 where
      v: "parse_value f c fd (node_data (create_nbt lt)) b True = Done (child, b1)"
      and q: "parse_value_list f c fd lt (i + 1) n (ch @ [child]) b1 = Done (chF, bF)"
      by (rule parse_value_list_SucD)
    note av = parse_value_adv [OF v] and aq = parse_value_list_adv [OF q]
    from fu f' have "3 * (k - pos b) + 2 \<le> g" by simp
    from ihV [rule_format, OF v pk this]
    have cv: "parse_value g c fd (node_data (create_nbt lt)) (cut k b) True
            = (if pos b1 \<le> k then Done (child, cut k b1)
               else Failed NBT_GLIB_PARSE_ERROR_INTERRUPTED)" .
    show ?thesis
    proof (cases "pos b1 \<le> k")
      case le: True
      from fu f' av le have "3 * (k - pos b1) + 3 \<le> g" by auto
      from ihL [rule_format, OF q le this] cv le True show ?thesis
        unfolding f' by (simp add: parse_value_list.simps on_success_simps)
    next
      case nle: False
      with aq have "\<not> pos bF \<le> k" by simp
      with cv nle True show ?thesis
        unfolding f' by (simp add: parse_value_list.simps on_success_simps)
    qed
  qed
qed

lemma parse_value_compound_cut_step:
  assumes ihV: "\<forall>c fd d b sk t bF f'.
          parse_value f c fd d b sk = Done (t, bF) \<longrightarrow> pos b \<le> k \<longrightarrow>
          3 * (k - pos b) + 2 \<le> f' \<longrightarrow>
            parse_value f' c fd d (cut k b) sk
            = (if pos bF \<le> k then Done (t, cut k bF)
               else Failed NBT_GLIB_PARSE_ERROR_INTERRUPTED)"
    and ihC: "\<forall>c fd ch b chF bF f'.
          parse_value_compound f c fd ch b = Done (chF, bF) \<longrightarrow> pos b \<le> k \<longrightarrow>
          3 * (k - pos b) + 1 \<le> f' \<longrightarrow>
            parse_value_compound f' c fd ch (cut k b)
            = (if pos bF \<le> k then Done (chF, cut k bF)
               else Failed NBT_GLIB_PARSE_ERROR_INTERRUPTED)"
    and r: "parse_value_compound (Suc f) c fd ch b = Done (chF, bF)"
    and pk: "pos b \<le> k"
    and fu: "3 * (k - pos b) + 1 \<le> f'"
  shows "parse_value_compound f' c fd ch (cut k b)
         = (if pos bF \<le> k then Done (chF, cut k bF)
            else Failed NBT_GLIB_PARSE_ERROR_INTERRUPTED)"
proof -
  from fu obtain g where f': "f' = Suc g" by (cases f') simp_all
  from r obtain v b1 where rd: "LIBNBT_getUint8 b = Some (v, b1)"
    and z: "v = 0 \<Longrightarrow> chF = ch \<and> bF = b1"
    and nz: "v \<noteq> 0 \<Longrightarrow> \<exists>child b2.
           parse_value f c fd (node_data (create_nbt (unat v))) b1 False = Done (child, b2)
         \<and> parse_value_compound f c fd (ch @ [child]) b2 = Done (chF, bF)"
    by (rule parse_value_compound_SucD) blast
  note crd = LIBNBT_getUint8_cut [OF rd, of k]
  show ?thesis
  proof (cases "v = 0")
    case True
    from z [OF True] crd True show ?thesis
      unfolding f' by (simp add: parse_value_compound.simps)
  next
    case False
    from nz [OF False] obtain child b2 where
      p: "parse_value f c fd (node_data (create_nbt (unat v))) b1 False = Done (child, b2)"
      and q: "parse_value_compound f c fd (ch @ [child]) b2 = Done (chF, bF)" by blast
    note ap = parse_value_adv [OF p] and aq = parse_value_compound_adv [OF q]
    show ?thesis
    proof (cases "pos b1 \<le> k")
      case nle: False
      with ap aq have "\<not> pos bF \<le> k" by simp
      with crd nle show ?thesis
        unfolding f' by (simp add: parse_value_compound.simps)
    next
      case le: True
      from fu f' crd le have "3 * (k - pos b1) + 2 \<le> g" by auto
      from ihV [rule_format, OF p le this]
      have cv: "parse_value g c fd (node_data (create_nbt (unat v))) (cut k b1) False
            = (if pos b2 \<le> k then Done (child, cut k b2)
               else Failed NBT_GLIB_PARSE_ERROR_INTERRUPTED)" .
      show ?thesis
      proof (cases "pos b2 \<le> k")
        case le2: True
        from fu f' crd ap le2 have "3 * (k - pos b2) + 1 \<le> g" by auto
        from ihC [rule_format, OF q le2 this] cv crd le le2 False show ?thesis
          unfolding f' by (simp add: parse_value_compound.simps on_success_simps)
      next
        case nle2: False
        with aq have "\<not> pos bF \<le> k" by simp
        with cv crd le nle2 False show ?thesis
          unfolding f' by (simp add: parse_value_compound.simps on_success_simps)
      qed
    qed
  qed
qed

lemma parse_value_cut_step:
  assumes ihL: "\<forall>c fd lt i n ch b chF bF f'.
          parse_value_list f c fd lt i n ch b = Done (chF, bF) \<longrightarrow> pos b \<le> k \<longrightarrow>
          3 * (k - pos b) + 3 \<le> f' \<longrightarrow>
            parse_value_list f' c fd lt i n ch (cut k b)
            = (if pos bF \<le> k then Done (chF, cut k bF)
               else Failed NBT_GLIB_PARSE_ERROR_INTERRUPTED)"
    and ihC: "\<forall>c fd ch b chF bF f'.
          parse_value_compound f c fd ch b = Done (chF, bF) \<longrightarrow> pos b \<le> k \<longrightarrow>
          3 * (k - pos b) + 1 \<le> f' \<longrightarrow>
            parse_value_compound f' c fd ch (cut k b)
            = (if pos bF \<le> k then Done (chF, cut k bF)
               else Failed NBT_GLIB_PARSE_ERROR_INTERRUPTED)"
    and r: "parse_value (Suc f) c fd d b sk = Done (t, bF)"
    and pk: "pos b \<le> k"
    and fu: "3 * (k - pos b) + 2 \<le> f'"
  shows "parse_value f' c fd d (cut k b) sk
         = (if pos bF \<le> k then Done (t, cut k bF)
            else Failed NBT_GLIB_PARSE_ERROR_INTERRUPTED)"
proof -
  from fu obtain g where f': "f' = Suc g" by (cases f') simp_all
  from r obtain tag d1 b1 d2 b2 where
    dn: "data b \<noteq> None" and nc: "\<not> c"
    and t1: "parse_value_tag d b = Done (tag, d1, b1)"
    and t2: "parse_value_key sk d1 b1 = Done (d2, b2)"
    and l: "tag = 9 \<Longrightarrow> \<exists>lt n b3 ch. parse_value_list_head b2 = Done (lt, n, b3)
                         \<and> parse_value_list f c fd lt 0 n [] b3 = Done (ch, bF)
                         \<and> t = GNode d2 ch"
    and cp: "tag = 10 \<Longrightarrow> \<exists>ch. parse_value_compound f c fd [] b2 = Done (ch, bF) \<and> t = GNode d2 ch"
    and p: "tag \<noteq> 9 \<Longrightarrow> tag \<noteq> 10 \<Longrightarrow>
           \<exists>d3. parse_value_payload fd tag d2 b2 = Done (d3, bF) \<and> t = GNode d3 []"
    by (rule parse_value_SucD) blast
  from dn have dn': "data (cut k b) \<noteq> None" by simp
  note a1 = parse_value_tag_adv [OF t1] and a2 = parse_value_key_adv [OF t2]
  note c1 = parse_value_tag_cut [OF t1 pk, THEN conjunct2, THEN conjunct2]
  consider (lst) "tag = 9" | (cmp) "tag = 10" | (pay) "tag \<noteq> 9" "tag \<noteq> 10" by blast
  then have a3: "pos b2 < pos bF"
  proof cases
    case lst
    from l [OF lst] obtain lt n b3 ch where h: "parse_value_list_head b2 = Done (lt, n, b3)"
      and q: "parse_value_list f c fd lt 0 n [] b3 = Done (ch, bF)" by blast
    from parse_value_list_head_cut [OF h, of 0] parse_value_list_adv [OF q] show ?thesis by simp
  next
    case cmp
    from cp [OF cmp] obtain ch where q: "parse_value_compound f c fd [] b2 = Done (ch, bF)"
      by blast
    from parse_value_compound_adv [OF q] show ?thesis by simp
  next
    case pay
    from p [OF pay] obtain d3 where q: "parse_value_payload fd tag d2 b2 = Done (d3, bF)"
      by blast
    from parse_value_payload_cut [OF q, of 0] show ?thesis by simp
  qed
  show ?thesis
  proof (cases "pos b1 \<le> k")
    case False
    with a2 a3 have "\<not> pos bF \<le> k" by simp
    with c1 False dn' nc show ?thesis
      unfolding f' by (simp add: parse_value.simps on_success_simps)
  next
    case le1: True
    note c2 = parse_value_key_cut [OF t2 le1, THEN conjunct2, THEN conjunct2]
    show ?thesis
    proof (cases "pos b2 \<le> k")
      case False
      with a3 have "\<not> pos bF \<le> k" by simp
      with c1 c2 le1 False dn' nc show ?thesis
        unfolding f' by (simp add: parse_value.simps on_success_simps)
    next
      case le2: True
      note pre = c1 c2 le1 le2 dn' nc
      consider (lst) "tag = 9" | (cmp) "tag = 10" | (pay) "tag \<noteq> 9" "tag \<noteq> 10" by blast
      then show ?thesis
      proof cases
        case lst
        from l [OF lst] obtain lt n b3 ch where h: "parse_value_list_head b2 = Done (lt, n, b3)"
          and q: "parse_value_list f c fd lt 0 n [] b3 = Done (ch, bF)"
          and t: "t = GNode d2 ch" by blast
        note ch = parse_value_list_head_cut [OF h, of k]
        note aq = parse_value_list_adv [OF q]
        show ?thesis
        proof (cases "pos b3 \<le> k")
          case le3: True
          from fu f' a1 a2 ch le3 have "3 * (k - pos b3) + 3 \<le> g" by auto
          from ihL [rule_format, OF q le3 this] pre ch le3 lst t show ?thesis
            unfolding f' by (simp add: parse_value.simps on_success_simps)
        next
          case False
          with aq have "\<not> pos bF \<le> k" by simp
          with pre ch False lst show ?thesis
            unfolding f' by (simp add: parse_value.simps on_success_simps)
        qed
      next
        case cmp
        from cp [OF cmp] obtain ch where q: "parse_value_compound f c fd [] b2 = Done (ch, bF)"
          and t: "t = GNode d2 ch" by blast
        from fu f' a1 a2 le2 have "3 * (k - pos b2) + 1 \<le> g" by auto
        from ihC [rule_format, OF q le2 this] pre cmp t show ?thesis
          unfolding f' by (simp add: parse_value.simps on_success_simps)
      next
        case pay
        from p [OF pay] obtain d3 where q: "parse_value_payload fd tag d2 b2 = Done (d3, bF)"
          and t: "t = GNode d3 []" by blast
        from parse_value_payload_cut [OF q, of k] pre pay t show ?thesis
          unfolding f' by (simp add: parse_value.simps on_success_simps)
      qed
    qed
  qed
qed

lemma parse_cut:
  "(\<forall>c fd d b sk t bF f'.
      parse_value f c fd d b sk = Done (t, bF) \<longrightarrow> pos b \<le> k \<longrightarrow>
      3 * (k - pos b) + 2 \<le> f' \<longrightarrow>
        parse_value f' c fd d (cut k b) sk
        = (if pos bF \<le> k then Done (t, cut k bF)
           else Failed NBT_GLIB_PARSE_ERROR_INTERRUPTED))
   \<and> (\<forall>c fd lt i n ch b chF bF f'.
        parse_value_list f c fd lt i n ch b = Done (chF, bF) \<longrightarrow> pos b \<le> k \<longrightarrow>
        3 * (k - pos b) + 3 \<le> f' \<longrightarrow>
          parse_value_list f' c fd lt i n ch (cut k b)
          = (if pos bF \<le> k then Done (chF, cut k bF)
             else Failed NBT_GLIB_PARSE_ERROR_INTERRUPTED))
   \<and> (\<forall>c fd ch b chF bF f'.
        parse_value_compound f c fd ch b = Done (chF, bF) \<longrightarrow> pos b \<le> k \<longrightarrow>
        3 * (k - pos b) + 1 \<le> f' \<longrightarrow>
          parse_value_compound f' c fd ch (cut k b)
          = (if pos bF \<le> k then Done (chF, cut k bF)
             else Failed NBT_GLIB_PARSE_ERROR_INTERRUPTED))"
proof (induction f)
  case 0
  show ?case
    by (simp add: parse_value.simps parse_value_list.simps parse_value_compound.simps)
next
  case (Suc f)
  note ihV = Suc.IH [THEN conjunct1]
    and ihL = Suc.IH [THEN conjunct2, THEN conjunct1]
    and ihC = Suc.IH [THEN conjunct2, THEN conjunct2]
  have "\<forall>c fd d b sk t bF f'.
      parse_value (Suc f) c fd d b sk = Done (t, bF) \<longrightarrow> pos b \<le> k \<longrightarrow>
      3 * (k - pos b) + 2 \<le> f' \<longrightarrow>
        parse_value f' c fd d (cut k b) sk
        = (if pos bF \<le> k then Done (t, cut k bF)
           else Failed NBT_GLIB_PARSE_ERROR_INTERRUPTED)"
    by (intro allI impI) (rule parse_value_cut_step [OF ihL ihC])
  moreover have "\<forall>c fd lt i n ch b chF bF f'.
        parse_value_list (Suc f) c fd lt i n ch b = Done (chF, bF) \<longrightarrow> pos b \<le> k \<longrightarrow>
        3 * (k - pos b) + 3 \<le> f' \<longrightarrow>
          parse_value_list f' c fd lt i n ch (cut k b)
          = (if pos bF \<le> k then Done (chF, cut k bF)
             else Failed NBT_GLIB_PARSE_ERROR_INTERRUPTED)"
    by (intro allI impI) (rule parse_value_list_cut_step [OF ihV ihL])
  moreover have "\<forall>c fd ch b chF bF f'.
        parse_value_compound (Suc f) c fd ch b = Done (chF, bF) \<longrightarrow> pos b \<le> k \<longrightarrow>
        3 * (k - pos b) + 1 \<le> f' \<longrightarrow>
          parse_value_compound f' c fd ch (cut k b)
          = (if pos bF \<le> k then Done (chF, cut k bF)
             else Failed NBT_GLIB_PARSE_ERROR_INTERRUPTED)"
    by (intro allI impI) (rule parse_value_compound_cut_step [OF ihV ihC])
  ultimately show ?case by (intro conjI)
qed

lemmas parse_value_cut = parse_cut [THEN conjunct1, rule_format]

lemma init_buffer_small: "n < 2 ^ 31 \<Longrightarrow> init_buffer d n = \<lparr>data = d, len = n, pos = 0\<rparr>"
proof -
  assume "n < 2 ^ 31"
  then have "int n < 2 ^ 31" by (metis of_nat_less_iff of_nat_numeral of_nat_power)
  then have "signed_take_bit 31 (int n) = int n"
    by (intro signed_take_bit_int_eq_self) simp_all
  moreover from \<open>int n < 2 ^ 31\<close> have "int n mod 2 ^ 64 = int n" by simp
  ultimately show ?thesis by (simp add: init_buffer_def)
qed

lemma plain_buffer:
  assumes "0 < k" and "k \<le> length B" and "k < 2 ^ 31" and "k \<le> length dat"
    and "take k dat = take k B"
    and "B ! 0 \<noteq> 0x78" and "\<not> (1 < length B \<and> B ! 0 = 0x1f \<and> B ! 1 = 0x8b)"
  shows "nbt_node_new_opt_buffer False dc dat k
         = Inr \<lparr>data = Some (take k B), len = k, pos = 0\<rparr>"
proof -
  from assms(1,5) have d0: "dat ! 0 = B ! 0"
    by (metis nth_take)
  have d1: "1 < k \<Longrightarrow> dat ! 1 = B ! 1"
    using assms(5) by (metis nth_take)
  from assms(2,7) d0 d1 have "\<not> (1 < k \<and> dat ! 0 = 0x1f \<and> dat ! 1 = 0x8b)" by auto
  with d0 assms(1,5,6) show ?thesis
    by (auto simp add: nbt_node_new_opt_buffer_def init_buffer_small [OF assms(3)])
qed

lemma empty_buffer:
  assumes "dat ! 0 \<noteq> 0x78"
  shows "nbt_node_new_opt_buffer False dc dat 0 = Inr \<lparr>data = None, len = 0, pos = 0\<rparr>"
  using assms by (simp add: nbt_node_new_opt_buffer_def init_buffer_small)

lemma zlib_buffer:
  assumes "dat ! 0 = 0x78" and "decompress G_ZLIB_COMPRESSOR_FORMAT_ZLIB (take n dat) = Some out"
  shows "nbt_node_new_opt_buffer False decompress dat n
         = Inr (init_buffer (Some out) (length out))"
  using assms by (simp add: nbt_node_new_opt_buffer_def)

lemma empty_block_interrupted:
  "parse_value (3 * len (init_buffer (Some []) 0) + 2) False float_to_double
     (node_data (create_nbt TAG_End)) (init_buffer (Some []) 0) False
   = Failed NBT_GLIB_PARSE_ERROR_INTERRUPTED"
  by (simp add: init_buffer_small parse_value.simps parse_value_tag_def create_nbt_def
        g_new0_NbtData_def LIBNBT_getUint8_def on_success_simps)

text \<open>
  Claim C5 (for every well-formed uncompressed document and every strict prefix of it,
  decoding the prefix fails with \<open>INTERRUPTED\<close>, the code of an unexpected end of
  input, and returns \<open>NULL\<close>, no partial tree).  The document is one of less than
  \<open>2 ^ 31\<close> bytes that the decoder accepts without leftover data and that does not start
  with the magic bytes of zlib or gzip.  For every length \<open>k\<close> with \<open>0 < k\<close> below the
  length of the document the decoder returns \<open>NULL\<close> and \<open>INTERRUPTED\<close>, both when it is
  given the prefix as a block of its own and when it is given the document with the
  length \<open>k\<close>.  For the empty prefix, the document with the length \<open>0\<close>, it returns
  \<open>NULL\<close> too, but the error is \<open>INTERNAL\<close>: \<open>nbt_node_new_opt\<close> copies the input into
  \<open>g_new0 (guint8, 0)\<close>, which is \<open>NULL\<close>, and \<open>parse_value\<close> takes the buffer without
  data for a missing argument.  The two last parts are the same decoder where the empty
  input is a block that is not \<open>NULL\<close>: the run of \<open>parse_value\<close> on an empty block, and
  \<open>nbt_node_new_opt\<close> on a zlib stream that decompresses to nothing; both report
  \<open>INTERRUPTED\<close>.  The embedding has no allocator: of \<open>g_node_destroy (root)\<close> it shows
  the \<open>NULL\<close> that is returned in place of the root.
\<close>

theorem C5_truncated_prefix:
  assumes full: "nbt_node_new_opt False float_to_double decompress B (length B) = Done (Some t, None)"
    and small: "length B < 2 ^ 31"
    and plain: "B ! 0 \<noteq> 0x78" "\<not> (1 < length B \<and> B ! 0 = 0x1f \<and> B ! 1 = 0x8b)"
  shows "(0 < k \<and> k < length B \<longrightarrow>
            nbt_node_new_opt False float_to_double decompress (take k B) k
            = Done (None, Some (NBT_GLIB_PARSE_ERROR NBT_GLIB_PARSE_ERROR_INTERRUPTED))
          \<and> nbt_node_new_opt False float_to_double decompress B k
            = Done (None, Some (NBT_GLIB_PARSE_ERROR NBT_GLIB_PARSE_ERROR_INTERRUPTED)))
       \<and> nbt_node_new_opt False float_to_double decompress B 0
         = Done (None, Some (NBT_GLIB_PARSE_ERROR NBT_GLIB_PARSE_ERROR_INTERNAL))
       \<and> parse_value (3 * len (init_buffer (Some []) 0) + 2) False float_to_double
            (node_data (create_nbt TAG_End)) (init_buffer (Some []) 0) False
         = Failed NBT_GLIB_PARSE_ERROR_INTERRUPTED
       \<and> (dat \<noteq> [] \<and> n \<le> length dat \<and> dat ! 0 = 0x78
            \<and> decompress G_ZLIB_COMPRESSOR_FORMAT_ZLIB (take n dat) = Some [] \<longrightarrow>
            nbt_node_new_opt False float_to_double decompress dat n
            = Done (None, Some (NBT_GLIB_PARSE_ERROR NBT_GLIB_PARSE_ERROR_INTERRUPTED)))"
proof (intro conjI impI)
  from full have ne: "B \<noteq> []" unfolding nbt_node_new_opt_def by (auto split: if_splits)
  have pv: "parse_value (3 * len \<lparr>data = None, len = 0, pos = 0\<rparr> + 2) False float_to_double
              (node_data (create_nbt TAG_End)) \<lparr>data = None, len = 0, pos = 0\<rparr> False
            = Failed NBT_GLIB_PARSE_ERROR_INTERNAL"
    by (simp add: parse_value.simps)
  show "nbt_node_new_opt False float_to_double decompress B 0
         = Done (None, Some (NBT_GLIB_PARSE_ERROR NBT_GLIB_PARSE_ERROR_INTERNAL))"
    unfolding nbt_node_new_opt_parsed [OF ne le0 empty_buffer [OF plain(1)] pv] by simp
next
  show "parse_value (3 * len (init_buffer (Some []) 0) + 2) False float_to_double
            (node_data (create_nbt TAG_End)) (init_buffer (Some []) 0) False
         = Failed NBT_GLIB_PARSE_ERROR_INTERRUPTED"
    by (rule empty_block_interrupted)
next
  assume a: "dat \<noteq> [] \<and> n \<le> length dat \<and> dat ! 0 = 0x78
            \<and> decompress G_ZLIB_COMPRESSOR_FORMAT_ZLIB (take n dat) = Some []"
  then have ne: "dat \<noteq> []" and le: "n \<le> length dat" and z: "dat ! 0 = 0x78"
    and d: "decompress G_ZLIB_COMPRESSOR_FORMAT_ZLIB (take n dat) = Some []" by simp_all
  have b: "nbt_node_new_opt_buffer False decompress dat n
           = Inr (init_buffer (Some []) (length ([] :: guint8 list)))"
    using zlib_buffer [of dat decompress n "[]", OF z d] .
  have p: "parse_value (3 * len (init_buffer (Some []) (length ([] :: guint8 list))) + 2) False
             float_to_double (node_data (create_nbt TAG_End))
             (init_buffer (Some []) (length ([] :: guint8 list))) False
           = Failed NBT_GLIB_PARSE_ERROR_INTERRUPTED"
    using empty_block_interrupted [of float_to_double] by simp
  show "nbt_node_new_opt False float_to_double decompress dat n
            = Done (None, Some (NBT_GLIB_PARSE_ERROR NBT_GLIB_PARSE_ERROR_INTERRUPTED))"
    unfolding nbt_node_new_opt_parsed [OF ne le b p] by simp
next
  assume k: "0 < k \<and> k < length B"
  from full have ne: "B \<noteq> []" unfolding nbt_node_new_opt_def by (auto split: if_splits)
  let ?b = "\<lparr>data = Some B, len = length B, pos = 0\<rparr>"
  from ne have pos: "0 < length B" by simp
  have bf: "nbt_node_new_opt_buffer False decompress B (length B) = Inr ?b"
    using plain_buffer [OF pos le_refl small le_refl refl plain] by simp
  define r where "r = parse_value (3 * len ?b + 2) False float_to_double
                        (node_data (create_nbt TAG_End)) ?b False"
  from full have "(case r of
              OutOfFuel \<Rightarrow> OutOfFuel
            | UB \<Rightarrow> UB
            | Failed e \<Rightarrow> Done (None, Some (NBT_GLIB_PARSE_ERROR e))
            | Done (root, buffer1) \<Rightarrow>
                (if pos buffer1 \<noteq> len buffer1 then
                   Done (Some root,
                         Some (NBT_GLIB_PARSE_ERROR NBT_GLIB_PARSE_ERROR_LEFTOVER_DATA))
                 else Done (Some root, None))) = Done (Some t, None)"
    unfolding nbt_node_new_opt_parsed [OF ne le_refl bf r_def [symmetric]] .
  then obtain b1 where r: "r = Done (t, b1)" and e: "pos b1 = len b1"
    by (cases r) (auto split: if_splits)
  from r have pv: "parse_value (3 * len ?b + 2) False float_to_double
                        (node_data (create_nbt TAG_End)) ?b False = Done (t, b1)"
    by (simp add: r_def)
  from parse_value_adv [OF pv] e have fin: "pos b1 = length B" by simp
  have "parse_value (3 * k + 2) False float_to_double (node_data (create_nbt TAG_End))
          (cut k ?b) False
        = (if pos b1 \<le> k then Done (t, cut k b1)
           else Failed NBT_GLIB_PARSE_ERROR_INTERRUPTED)"
    by (rule parse_value_cut [OF pv]) simp_all
  with fin k have cutp: "parse_value (3 * k + 2) False float_to_double
          (node_data (create_nbt TAG_End)) \<lparr>data = Some (take k B), len = k, pos = 0\<rparr> False
        = Failed NBT_GLIB_PARSE_ERROR_INTERRUPTED"
    by (simp add: cut_def)
  then have cutp': "parse_value (3 * len \<lparr>data = Some (take k B), len = k, pos = 0\<rparr> + 2) False
          float_to_double (node_data (create_nbt TAG_End))
          \<lparr>data = Some (take k B), len = k, pos = 0\<rparr> False
        = Failed NBT_GLIB_PARSE_ERROR_INTERRUPTED"
    by simp
  from k small have ks: "k < 2 ^ 31" and kl: "k \<le> length B" and k0: "0 < k" by simp_all
  have b1: "nbt_node_new_opt_buffer False decompress B k
            = Inr \<lparr>data = Some (take k B), len = k, pos = 0\<rparr>"
    by (rule plain_buffer [OF k0 kl ks kl refl plain])
  have b2: "nbt_node_new_opt_buffer False decompress (take k B) k
            = Inr \<lparr>data = Some (take k B), len = k, pos = 0\<rparr>"
    by (rule plain_buffer [OF k0 kl ks _ _ plain]) (use kl in simp_all)
  from k0 ne have ne2: "take k B \<noteq> []" by simp
  from kl have l2: "k \<le> length (take k B)" by simp
  show "nbt_node_new_opt False float_to_double decompress B k
            = Done (None, Some (NBT_GLIB_PARSE_ERROR NBT_GLIB_PARSE_ERROR_INTERRUPTED))"
    unfolding nbt_node_new_opt_parsed [OF ne kl b1 cutp'] by simp
  show "nbt_node_new_opt False float_to_double decompress (take k B) k
            = Done (None, Some (NBT_GLIB_PARSE_ERROR NBT_GLIB_PARSE_ERROR_INTERRUPTED))"
    unfolding nbt_node_new_opt_parsed [OF ne2 l2 b2 cutp'] by simp
qed

theorem C5_truncated_prefix_witness:
  "nbt_node_new_opt False (\<lambda>_. 0)
     (\<lambda>f d. if d = [0x78, 0x9c, 3, 0, 0, 0, 0, 1] then Some [] else None)
     [1, 0, 0, 42] (length [1 :: guint8, 0, 0, 42])
   = Done (Some (GNode \<lparr>type = 1, key = None, value_i = 42, value_d = 0,
                        value_a_value = NULL_array, value_a_len = 0\<rparr> []), None)
   \<and> nbt_node_new_opt False (\<lambda>_. 0)
       (\<lambda>f d. if d = [0x78, 0x9c, 3, 0, 0, 0, 0, 1] then Some [] else None)
       (take 3 [1, 0, 0, 42]) 3
     = Done (None, Some (NBT_GLIB_PARSE_ERROR NBT_GLIB_PARSE_ERROR_INTERRUPTED))
   \<and> nbt_node_new_opt False (\<lambda>_. 0)
       (\<lambda>f d. if d = [0x78, 0x9c, 3, 0, 0, 0, 0, 1] then Some [] else None)
       [1, 0, 0, 42] 3
     = Done (None, Some (NBT_GLIB_PARSE_ERROR NBT_GLIB_PARSE_ERROR_INTERRUPTED))
   \<and> nbt_node_new_opt False (\<lambda>_. 0)
       (\<lambda>f d. if d = [0x78, 0x9c, 3, 0, 0, 0, 0, 1] then Some [] else None)
       [1, 0, 0, 42] 0
     = Done (None, Some (NBT_GLIB_PARSE_ERROR NBT_GLIB_PARSE_ERROR_INTERNAL))
   \<and> nbt_node_new_opt False (\<lambda>_. 0)
       (\<lambda>f d. if d = [0x78, 0x9c, 3, 0, 0, 0, 0, 1] then Some [] else None)
       [0x78, 0x9c, 3, 0, 0, 0, 0, 1] 8
     = Done (None, Some (NBT_GLIB_PARSE_ERROR NBT_GLIB_PARSE_ERROR_INTERRUPTED))"
proof -
  let ?dc = "\<lambda>(f :: GZlibCompressorFormat) (d :: guint8 list).
               if d = [0x78, 0x9c, 3, 0, 0, 0, 0, 1] then Some ([] :: guint8 list) else None"
  have d: "nbt_node_new_opt False (\<lambda>_. 0) ?dc [1, 0, 0, 42] (length [1 :: guint8, 0, 0, 42])
        = Done (Some (GNode \<lparr>type = 1, key = None, value_i = 42, value_d = 0,
                        value_a_value = NULL_array, value_a_len = 0\<rparr> []), None)"
    by code_simp
  have s: "length [1 :: guint8, 0, 0, 42] < 2 ^ 31" by simp
  have p1: "[1 :: guint8, 0, 0, 42] ! 0 \<noteq> 0x78" by simp
  have p2: "\<not> (1 < length [1 :: guint8, 0, 0, 42] \<and> [1 :: guint8, 0, 0, 42] ! 0 = 0x1f
                \<and> [1 :: guint8, 0, 0, 42] ! 1 = 0x8b)" by simp
  have k: "0 < (3 :: nat) \<and> 3 < length [1 :: guint8, 0, 0, 42]" by simp
  have z: "[0x78, 0x9c, 3, 0, 0, 0, 0, 1 :: guint8] \<noteq> []
           \<and> 8 \<le> length [0x78, 0x9c, 3, 0, 0, 0, 0, 1 :: guint8]
           \<and> [0x78, 0x9c, 3, 0, 0, 0, 0, 1 :: guint8] ! 0 = 0x78
           \<and> ?dc G_ZLIB_COMPRESSOR_FORMAT_ZLIB (take 8 [0x78, 0x9c, 3, 0, 0, 0, 0, 1]) = Some []"
    by simp
  note c = C5_truncated_prefix [OF d s p1 p2, where k = 3
             and dat = "[0x78, 0x9c, 3, 0, 0, 0, 0, 1]" and n = 8]
  from c [THEN conjunct1, THEN mp, OF k] c [THEN conjunct2, THEN conjunct1]
    c [THEN conjunct2, THEN conjunct2, THEN conjunct2, THEN mp, OF z] d
  show ?thesis by blast
qed

subsection \<open>The bound of the recursion is never reached\<close>

text \<open>
  Every run of \<open>parse_value\<close> that returns has moved the cursor forward and left it
  within the buffer, so a run from a cursor with \<open>r\<close> bytes left nests at most
  \<open>3 * r + 2\<close> deep.  The model of \<open>nbt_node_new_opt\<close> therefore never stops for its
  bound: it has a result for every input, as the C function has.
\<close>

lemma LIBNBT_getUint8_le: "LIBNBT_getUint8 b = Some (v, b1) \<Longrightarrow> pos b1 \<le> len b1"
  by (auto simp add: LIBNBT_getUint8_def split: if_splits)

lemma LIBNBT_getUint16_le: "LIBNBT_getUint16 b = Some (v, b1) \<Longrightarrow> pos b1 \<le> len b1"
  by (auto simp add: LIBNBT_getUint16_def split: if_splits)

lemma LIBNBT_getUint32_le: "LIBNBT_getUint32 b = Some (v, b1) \<Longrightarrow> pos b1 \<le> len b1"
  by (auto simp add: LIBNBT_getUint32_def split: if_splits)

lemma LIBNBT_getUint64_le: "LIBNBT_getUint64 b = Some (v, b1) \<Longrightarrow> pos b1 \<le> len b1"
  by (auto simp add: LIBNBT_getUint64_def split: if_splits)

lemma LIBNBT_getKey_le:
  assumes "LIBNBT_getKey b = Some (v, b1)"
  shows "pos b1 \<le> len b1"
proof -
  from assms obtain n b0 where r: "LIBNBT_getUint16 b = Some (n, b0)"
    by (auto simp add: LIBNBT_getKey_def split: option.splits)
  from assms r LIBNBT_getUint16_le [OF r] show ?thesis
    by (auto simp add: LIBNBT_getKey_def split: if_splits)
qed

lemma parse_value_tag_le:
  "parse_value_tag d b = Done (tag, d1, b1) \<Longrightarrow> pos b \<le> len b \<Longrightarrow> pos b1 \<le> len b1"
  by (auto simp add: parse_value_tag_def split: if_splits option.splits
        dest: LIBNBT_getUint8_le)

lemma parse_value_key_le:
  assumes "parse_value_key sk d b = Done (d1, b1)" and "pos b \<le> len b"
  shows "pos b1 \<le> len b1"
proof (cases sk)
  case True
  with assms show ?thesis by (simp add: parse_value_key_def)
next
  case False
  with assms obtain v where r: "LIBNBT_getKey b = Some (v, b1)"
    by (auto simp add: parse_value_key_def split: option.splits c_run.splits)
  then show ?thesis by (rule LIBNBT_getKey_le)
qed

lemma parse_value_list_head_le:
  assumes "parse_value_list_head b = Done (lt, n, b1)"
  shows "pos b1 \<le> len b1"
proof -
  from assms obtain v b0 where r: "LIBNBT_getUint8 b = Some (v, b0)"
    by (auto simp add: parse_value_list_head_def split: option.splits)
  with assms obtain w where s: "LIBNBT_getUint32 b0 = Some (w, b1)"
    by (auto simp add: parse_value_list_head_def split: option.splits if_splits)
  then show ?thesis by (rule LIBNBT_getUint32_le)
qed

lemma parse_value_payload_le:
  assumes "parse_value_payload fd tag d b = Done (d1, b1)"
  shows "pos b1 \<le> len b1"
proof -
  from payload_tags [OF assms]
  consider "tag = 1" | "tag = 2" | "tag = 3" | "tag = 4" | "tag = 5" | "tag = 6"
    | "tag = 7" | "tag = 8" | "tag = 11" | "tag = 12"
    by blast
  then show ?thesis
  proof cases
    case 1
    with assms show ?thesis unfolding 1 payload_1
      by (auto split: option.splits dest: LIBNBT_getUint8_le)
  next
    case 2
    with assms show ?thesis unfolding 2 payload_2
      by (auto split: option.splits dest: LIBNBT_getUint16_le)
  next
    case 3
    with assms show ?thesis unfolding 3 payload_3
      by (auto split: option.splits dest: LIBNBT_getUint32_le)
  next
    case 4
    with assms show ?thesis unfolding 4 payload_4
      by (auto split: option.splits dest: LIBNBT_getUint64_le)
  next
    case 5
    with assms show ?thesis unfolding 5 payload_5
      by (auto split: option.splits dest: LIBNBT_getUint32_le)
  next
    case 6
    with assms show ?thesis unfolding 6 payload_6
      by (auto split: option.splits dest: LIBNBT_getUint64_le)
  next
    case 7
    with assms show ?thesis unfolding 7 payload_7
      by (auto split: option.splits if_splits)
  next
    case 8
    with assms show ?thesis unfolding 8 payload_8
      by (auto simp add: Let_def split: option.splits if_splits c_run.splits)
  next
    case 9
    with assms show ?thesis unfolding 9 payload_11
      by (auto split: option.splits if_splits)
  next
    case 10
    with assms show ?thesis unfolding 10 payload_12
      by (auto split: option.splits if_splits)
  qed
qed

lemma parse_value_tag_fuel: "parse_value_tag d b \<noteq> OutOfFuel"
  by (simp add: parse_value_tag_def split: option.splits)

lemma parse_value_key_fuel: "parse_value_key sk d b \<noteq> OutOfFuel"
  by (simp add: parse_value_key_def split: option.splits c_run.splits)

lemma parse_value_list_head_fuel: "parse_value_list_head b \<noteq> OutOfFuel"
  by (simp add: parse_value_list_head_def split: option.splits)

lemma parse_value_payload_fuel: "parse_value_payload fd tag d b \<noteq> OutOfFuel"
  by (simp add: parse_value_payload_def Let_def split: option.splits c_run.splits)

lemma on_success_fuel:
  "on_success r g = OutOfFuel \<longleftrightarrow> r = OutOfFuel \<or> (\<exists>x. r = Done x \<and> g x = OutOfFuel)"
  by (cases r) (simp_all add: on_success_def)

lemma parse_value_le_step:
  assumes ihL: "\<forall>c fd lt i n ch b chF bF.
          parse_value_list f c fd lt i n ch b = Done (chF, bF) \<longrightarrow> pos b \<le> len b \<longrightarrow>
            pos bF \<le> len bF"
    and ihC: "\<forall>c fd ch b chF bF.
          parse_value_compound f c fd ch b = Done (chF, bF) \<longrightarrow> pos b \<le> len b \<longrightarrow>
            pos bF \<le> len bF"
    and r: "parse_value (Suc f) c fd d b sk = Done (t, bF)"
    and pl: "pos b \<le> len b"
  shows "pos bF \<le> len bF"
proof -
  from r obtain tag d1 b1 d2 b2 where
    dn: "data b \<noteq> None" and nc: "\<not> c"
    and t1: "parse_value_tag d b = Done (tag, d1, b1)"
    and t2: "parse_value_key sk d1 b1 = Done (d2, b2)"
    and l: "tag = 9 \<Longrightarrow> \<exists>lt n b3 ch. parse_value_list_head b2 = Done (lt, n, b3)
                         \<and> parse_value_list f c fd lt 0 n [] b3 = Done (ch, bF)
                         \<and> t = GNode d2 ch"
    and cp: "tag = 10 \<Longrightarrow> \<exists>ch. parse_value_compound f c fd [] b2 = Done (ch, bF) \<and> t = GNode d2 ch"
    and p: "tag \<noteq> 9 \<Longrightarrow> tag \<noteq> 10 \<Longrightarrow>
           \<exists>d3. parse_value_payload fd tag d2 b2 = Done (d3, bF) \<and> t = GNode d3 []"
    by (rule parse_value_SucD) blast
  note l1 = parse_value_tag_le [OF t1 pl]
  note l2 = parse_value_key_le [OF t2 l1]
  consider "tag = 9" | "tag = 10" | "tag \<noteq> 9" "tag \<noteq> 10" by blast
  then show ?thesis
  proof cases
    case 1
    from l [OF 1] obtain lt n b3 ch where h: "parse_value_list_head b2 = Done (lt, n, b3)"
      and q: "parse_value_list f c fd lt 0 n [] b3 = Done (ch, bF)" by blast
    from ihL [rule_format, OF q parse_value_list_head_le [OF h]] show ?thesis .
  next
    case 2
    from cp [OF 2] obtain ch where q: "parse_value_compound f c fd [] b2 = Done (ch, bF)"
      by blast
    from ihC [rule_format, OF q l2] show ?thesis .
  next
    case 3
    from p [OF 3] obtain d3 where q: "parse_value_payload fd tag d2 b2 = Done (d3, bF)"
      by blast
    then show ?thesis by (rule parse_value_payload_le)
  qed
qed

lemma parse_value_list_le_step:
  assumes ihV: "\<forall>c fd d b sk t bF.
          parse_value f c fd d b sk = Done (t, bF) \<longrightarrow> pos b \<le> len b \<longrightarrow> pos bF \<le> len bF"
    and ihL: "\<forall>c fd lt i n ch b chF bF.
          parse_value_list f c fd lt i n ch b = Done (chF, bF) \<longrightarrow> pos b \<le> len b \<longrightarrow>
            pos bF \<le> len bF"
    and r: "parse_value_list (Suc f) c fd lt i n ch b = Done (chF, bF)"
    and pl: "pos b \<le> len b"
  shows "pos bF \<le> len bF"
proof (cases "i < n")
  case True
  with r obtain child b1 where
    v: "parse_value f c fd (node_data (create_nbt lt)) b True = Done (child, b1)"
    and q: "parse_value_list f c fd lt (i + 1) n (ch @ [child]) b1 = Done (chF, bF)"
    by (rule parse_value_list_SucD)
  from ihL [rule_format, OF q ihV [rule_format, OF v pl]] show ?thesis .
next
  case False
  with r pl show ?thesis by (simp add: parse_value_list.simps)
qed

lemma parse_value_compound_le_step:
  assumes ihV: "\<forall>c fd d b sk t bF.
          parse_value f c fd d b sk = Done (t, bF) \<longrightarrow> pos b \<le> len b \<longrightarrow> pos bF \<le> len bF"
    and ihC: "\<forall>c fd ch b chF bF.
          parse_value_compound f c fd ch b = Done (chF, bF) \<longrightarrow> pos b \<le> len b \<longrightarrow>
            pos bF \<le> len bF"
    and r: "parse_value_compound (Suc f) c fd ch b = Done (chF, bF)"
    and pl: "pos b \<le> len b"
  shows "pos bF \<le> len bF"
proof -
  from r obtain v b1 where rd: "LIBNBT_getUint8 b = Some (v, b1)"
    and z: "v = 0 \<Longrightarrow> chF = ch \<and> bF = b1"
    and nz: "v \<noteq> 0 \<Longrightarrow> \<exists>child b2.
           parse_value f c fd (node_data (create_nbt (unat v))) b1 False = Done (child, b2)
         \<and> parse_value_compound f c fd (ch @ [child]) b2 = Done (chF, bF)"
    by (rule parse_value_compound_SucD) blast
  note l1 = LIBNBT_getUint8_le [OF rd]
  show ?thesis
  proof (cases "v = 0")
    case True
    from z [OF True] l1 show ?thesis by simp
  next
    case False
    from nz [OF False] obtain child b2 where
      p: "parse_value f c fd (node_data (create_nbt (unat v))) b1 False = Done (child, b2)"
      and q: "parse_value_compound f c fd (ch @ [child]) b2 = Done (chF, bF)" by blast
    from ihC [rule_format, OF q ihV [rule_format, OF p l1]] show ?thesis .
  qed
qed

lemma parse_le:
  "(\<forall>c fd d b sk t bF.
      parse_value f c fd d b sk = Done (t, bF) \<longrightarrow> pos b \<le> len b \<longrightarrow> pos bF \<le> len bF)
   \<and> (\<forall>c fd lt i n ch b chF bF.
        parse_value_list f c fd lt i n ch b = Done (chF, bF) \<longrightarrow> pos b \<le> len b \<longrightarrow>
          pos bF \<le> len bF)
   \<and> (\<forall>c fd ch b chF bF.
        parse_value_compound f c fd ch b = Done (chF, bF) \<longrightarrow> pos b \<le> len b \<longrightarrow>
          pos bF \<le> len bF)"
proof (induction f)
  case 0
  show ?case
    by (simp add: parse_value.simps parse_value_list.simps parse_value_compound.simps)
next
  case (Suc f)
  note ihV = Suc.IH [THEN conjunct1]
    and ihL = Suc.IH [THEN conjunct2, THEN conjunct1]
    and ihC = Suc.IH [THEN conjunct2, THEN conjunct2]
  have "\<forall>c fd d b sk t bF.
      parse_value (Suc f) c fd d b sk = Done (t, bF) \<longrightarrow> pos b \<le> len b \<longrightarrow> pos bF \<le> len bF"
    by (intro allI impI) (rule parse_value_le_step [OF ihL ihC])
  moreover have "\<forall>c fd lt i n ch b chF bF.
        parse_value_list (Suc f) c fd lt i n ch b = Done (chF, bF) \<longrightarrow> pos b \<le> len b \<longrightarrow>
          pos bF \<le> len bF"
    by (intro allI impI) (rule parse_value_list_le_step [OF ihV ihL])
  moreover have "\<forall>c fd ch b chF bF.
        parse_value_compound (Suc f) c fd ch b = Done (chF, bF) \<longrightarrow> pos b \<le> len b \<longrightarrow>
          pos bF \<le> len bF"
    by (intro allI impI) (rule parse_value_compound_le_step [OF ihV ihC])
  ultimately show ?case by (intro conjI)
qed

lemmas parse_value_le = parse_le [THEN conjunct1, rule_format]
lemmas parse_value_list_le = parse_le [THEN conjunct2, THEN conjunct1, rule_format]
lemmas parse_value_compound_le = parse_le [THEN conjunct2, THEN conjunct2, rule_format]

lemma parse_value_Suc_fuelD:
  assumes "parse_value (Suc f) c fd d b sk = OutOfFuel"
  obtains tag d1 b1 d2 b2 where
    "parse_value_tag d b = Done (tag, d1, b1)"
    and "parse_value_key sk d1 b1 = Done (d2, b2)"
    and "tag = 9 \<or> tag = 10"
    and "tag = 9 \<Longrightarrow> \<exists>lt n b3. parse_value_list_head b2 = Done (lt, n, b3)
                         \<and> parse_value_list f c fd lt 0 n [] b3 = OutOfFuel"
    and "tag = 10 \<Longrightarrow> parse_value_compound f c fd [] b2 = OutOfFuel"
proof -
  from assms have dn: "data b \<noteq> None" and nc: "\<not> c"
    by (auto simp add: parse_value.simps split: if_splits)
  from assms dn nc obtain x where x: "parse_value_tag d b = Done x"
    using parse_value_tag_fuel [of d b]
    by (cases "parse_value_tag d b") (simp_all add: parse_value.simps on_success_def)
  obtain tag d1 b1 where xe: "x = (tag, d1, b1)" by (cases x)
  from assms dn nc x xe obtain y where y: "parse_value_key sk d1 b1 = Done y"
    using parse_value_key_fuel [of sk d1 b1]
    by (cases "parse_value_key sk d1 b1") (simp_all add: parse_value.simps on_success_def)
  obtain d2 b2 where ye: "y = (d2, b2)" by (cases y)
  note facts = assms dn nc x xe y ye
  have tg: "tag = 9 \<or> tag = 10"
  proof (rule ccontr)
    assume "\<not> (tag = 9 \<or> tag = 10)"
    with facts parse_value_payload_fuel [of fd tag d2 b2] show False
      by (auto simp add: parse_value.simps on_success_simps on_success_fuel)
  qed
  show thesis
  proof (rule that [OF x [unfolded xe] y [unfolded ye] tg])
    assume "tag = 9"
    with facts parse_value_list_head_fuel [of b2]
    show "\<exists>lt n b3. parse_value_list_head b2 = Done (lt, n, b3)
                         \<and> parse_value_list f c fd lt 0 n [] b3 = OutOfFuel"
      by (auto simp add: parse_value.simps on_success_simps on_success_fuel)
  next
    assume "tag = 10"
    with facts show "parse_value_compound f c fd [] b2 = OutOfFuel"
      by (auto simp add: parse_value.simps on_success_simps on_success_fuel)
  qed
qed

lemma parse_value_list_Suc_fuelD:
  assumes "parse_value_list (Suc f) c fd lt i n ch b = OutOfFuel"
  shows "parse_value f c fd (node_data (create_nbt lt)) b True = OutOfFuel
       \<or> (\<exists>child b1. parse_value f c fd (node_data (create_nbt lt)) b True = Done (child, b1)
            \<and> parse_value_list f c fd lt (i + 1) n (ch @ [child]) b1 = OutOfFuel)"
  using assms by (auto simp add: parse_value_list.simps on_success_fuel split: if_splits)

lemma parse_value_compound_Suc_fuelD:
  assumes "parse_value_compound (Suc f) c fd ch b = OutOfFuel"
  obtains v b1 where "LIBNBT_getUint8 b = Some (v, b1)"
    and "parse_value f c fd (node_data (create_nbt (unat v))) b1 False = OutOfFuel
       \<or> (\<exists>child b2.
             parse_value f c fd (node_data (create_nbt (unat v))) b1 False = Done (child, b2)
           \<and> parse_value_compound f c fd (ch @ [child]) b2 = OutOfFuel)"
  using assms
  by (auto simp add: parse_value_compound.simps on_success_fuel split: option.splits if_splits)

lemma parse_value_fuel_step:
  assumes ihL: "\<forall>c fd lt i n ch b. pos b \<le> len b \<longrightarrow> 3 * (len b - pos b) + 3 \<le> f \<longrightarrow>
          parse_value_list f c fd lt i n ch b \<noteq> OutOfFuel"
    and ihC: "\<forall>c fd ch b. pos b \<le> len b \<longrightarrow> 3 * (len b - pos b) + 1 \<le> f \<longrightarrow>
          parse_value_compound f c fd ch b \<noteq> OutOfFuel"
    and pl: "pos b \<le> len b"
    and fu: "3 * (len b - pos b) + 2 \<le> Suc f"
  shows "parse_value (Suc f) c fd d b sk \<noteq> OutOfFuel"
proof
  assume "parse_value (Suc f) c fd d b sk = OutOfFuel"
  then obtain tag d1 b1 d2 b2 where
    t1: "parse_value_tag d b = Done (tag, d1, b1)"
    and t2: "parse_value_key sk d1 b1 = Done (d2, b2)"
    and tg: "tag = 9 \<or> tag = 10"
    and l: "tag = 9 \<Longrightarrow> \<exists>lt n b3. parse_value_list_head b2 = Done (lt, n, b3)
                         \<and> parse_value_list f c fd lt 0 n [] b3 = OutOfFuel"
    and cp: "tag = 10 \<Longrightarrow> parse_value_compound f c fd [] b2 = OutOfFuel"
    by (rule parse_value_Suc_fuelD) blast
  note a1 = parse_value_tag_adv [OF t1] and a2 = parse_value_key_adv [OF t2]
  note l1 = parse_value_tag_le [OF t1 pl]
  note l2 = parse_value_key_le [OF t2 l1]
  from tg show False
  proof
    assume "tag = 9"
    from l [OF this] obtain lt n b3 where h: "parse_value_list_head b2 = Done (lt, n, b3)"
      and q: "parse_value_list f c fd lt 0 n [] b3 = OutOfFuel" by blast
    note a3 = parse_value_list_head_cut [OF h, of 0, THEN conjunct1]
      and a4 = parse_value_list_head_cut [OF h, of 0, THEN conjunct2, THEN conjunct1]
    note l3 = parse_value_list_head_le [OF h]
    from fu a1 a2 a3 a4 l3 have "3 * (len b3 - pos b3) + 3 \<le> f" by auto
    from ihL [rule_format, OF l3 this] q show False by simp
  next
    assume "tag = 10"
    from cp [OF this] have q: "parse_value_compound f c fd [] b2 = OutOfFuel" .
    from fu a1 a2 l2 have "3 * (len b2 - pos b2) + 1 \<le> f" by auto
    from ihC [rule_format, OF l2 this] q show False by simp
  qed
qed

lemma parse_value_list_fuel_step:
  assumes ihV: "\<forall>c fd d b sk. pos b \<le> len b \<longrightarrow> 3 * (len b - pos b) + 2 \<le> f \<longrightarrow>
          parse_value f c fd d b sk \<noteq> OutOfFuel"
    and ihL: "\<forall>c fd lt i n ch b. pos b \<le> len b \<longrightarrow> 3 * (len b - pos b) + 3 \<le> f \<longrightarrow>
          parse_value_list f c fd lt i n ch b \<noteq> OutOfFuel"
    and pl: "pos b \<le> len b"
    and fu: "3 * (len b - pos b) + 3 \<le> Suc f"
  shows "parse_value_list (Suc f) c fd lt i n ch b \<noteq> OutOfFuel"
proof
  assume "parse_value_list (Suc f) c fd lt i n ch b = OutOfFuel"
  from parse_value_list_Suc_fuelD [OF this]
  show False
  proof
    assume q: "parse_value f c fd (node_data (create_nbt lt)) b True = OutOfFuel"
    from fu have "3 * (len b - pos b) + 2 \<le> f" by simp
    from ihV [rule_format, OF pl this] q show False by simp
  next
    assume "\<exists>child b1. parse_value f c fd (node_data (create_nbt lt)) b True = Done (child, b1)
            \<and> parse_value_list f c fd lt (i + 1) n (ch @ [child]) b1 = OutOfFuel"
    then obtain child b1 where
      v: "parse_value f c fd (node_data (create_nbt lt)) b True = Done (child, b1)"
      and q: "parse_value_list f c fd lt (i + 1) n (ch @ [child]) b1 = OutOfFuel" by blast
    note av = parse_value_adv [OF v] and lv = parse_value_le [OF v pl]
    from fu av lv have "3 * (len b1 - pos b1) + 3 \<le> f" by auto
    from ihL [rule_format, OF lv this] q show False by simp
  qed
qed

lemma parse_value_compound_fuel_step:
  assumes ihV: "\<forall>c fd d b sk. pos b \<le> len b \<longrightarrow> 3 * (len b - pos b) + 2 \<le> f \<longrightarrow>
          parse_value f c fd d b sk \<noteq> OutOfFuel"
    and ihC: "\<forall>c fd ch b. pos b \<le> len b \<longrightarrow> 3 * (len b - pos b) + 1 \<le> f \<longrightarrow>
          parse_value_compound f c fd ch b \<noteq> OutOfFuel"
    and pl: "pos b \<le> len b"
    and fu: "3 * (len b - pos b) + 1 \<le> Suc f"
  shows "parse_value_compound (Suc f) c fd ch b \<noteq> OutOfFuel"
proof
  assume "parse_value_compound (Suc f) c fd ch b = OutOfFuel"
  then obtain v b1 where rd: "LIBNBT_getUint8 b = Some (v, b1)"
    and o: "parse_value f c fd (node_data (create_nbt (unat v))) b1 False = OutOfFuel
       \<or> (\<exists>child b2.
             parse_value f c fd (node_data (create_nbt (unat v))) b1 False = Done (child, b2)
           \<and> parse_value_compound f c fd (ch @ [child]) b2 = OutOfFuel)"
    by (rule parse_value_compound_Suc_fuelD)
  note a1 = LIBNBT_getUint8_cut [OF rd, of 0, THEN conjunct1]
    and a2 = LIBNBT_getUint8_cut [OF rd, of 0, THEN conjunct2, THEN conjunct1]
  note l1 = LIBNBT_getUint8_le [OF rd]
  from fu a1 a2 l1 have f1: "3 * (len b1 - pos b1) + 2 \<le> f" by auto
  from o show False
  proof
    assume q: "parse_value f c fd (node_data (create_nbt (unat v))) b1 False = OutOfFuel"
    from ihV [rule_format, OF l1 f1] q show False by simp
  next
    assume "\<exists>child b2.
             parse_value f c fd (node_data (create_nbt (unat v))) b1 False = Done (child, b2)
           \<and> parse_value_compound f c fd (ch @ [child]) b2 = OutOfFuel"
    then obtain child b2 where
      p: "parse_value f c fd (node_data (create_nbt (unat v))) b1 False = Done (child, b2)"
      and q: "parse_value_compound f c fd (ch @ [child]) b2 = OutOfFuel" by blast
    note ap = parse_value_adv [OF p] and lp = parse_value_le [OF p l1]
    from f1 ap lp have "3 * (len b2 - pos b2) + 1 \<le> f" by auto
    from ihC [rule_format, OF lp this] q show False by simp
  qed
qed

lemma parse_fuel:
  "(\<forall>c fd d b sk. pos b \<le> len b \<longrightarrow> 3 * (len b - pos b) + 2 \<le> f \<longrightarrow>
      parse_value f c fd d b sk \<noteq> OutOfFuel)
   \<and> (\<forall>c fd lt i n ch b. pos b \<le> len b \<longrightarrow> 3 * (len b - pos b) + 3 \<le> f \<longrightarrow>
        parse_value_list f c fd lt i n ch b \<noteq> OutOfFuel)
   \<and> (\<forall>c fd ch b. pos b \<le> len b \<longrightarrow> 3 * (len b - pos b) + 1 \<le> f \<longrightarrow>
        parse_value_compound f c fd ch b \<noteq> OutOfFuel)"
proof (induction f)
  case 0
  show ?case by simp
next
  case (Suc f)
  note ihV = Suc.IH [THEN conjunct1]
    and ihL = Suc.IH [THEN conjunct2, THEN conjunct1]
    and ihC = Suc.IH [THEN conjunct2, THEN conjunct2]
  have "\<forall>c fd d b sk. pos b \<le> len b \<longrightarrow> 3 * (len b - pos b) + 2 \<le> Suc f \<longrightarrow>
      parse_value (Suc f) c fd d b sk \<noteq> OutOfFuel"
    by (intro allI impI) (rule parse_value_fuel_step [OF ihL ihC])
  moreover have "\<forall>c fd lt i n ch b. pos b \<le> len b \<longrightarrow> 3 * (len b - pos b) + 3 \<le> Suc f \<longrightarrow>
        parse_value_list (Suc f) c fd lt i n ch b \<noteq> OutOfFuel"
    by (intro allI impI) (rule parse_value_list_fuel_step [OF ihV ihL])
  moreover have "\<forall>c fd ch b. pos b \<le> len b \<longrightarrow> 3 * (len b - pos b) + 1 \<le> Suc f \<longrightarrow>
        parse_value_compound (Suc f) c fd ch b \<noteq> OutOfFuel"
    by (intro allI impI) (rule parse_value_compound_fuel_step [OF ihV ihC])
  ultimately show ?case by (intro conjI)
qed

lemma nbt_node_new_opt_returns:
  "nbt_node_new_opt cancelled float_to_double decompress dat n \<noteq> OutOfFuel"
proof (cases "dat = [] \<or> length dat < n")
  case True
  then show ?thesis by (simp add: nbt_node_new_opt_def)
next
  case False
  then have ok: "dat \<noteq> []" "n \<le> length dat" by simp_all
  show ?thesis
  proof (cases "nbt_node_new_opt_buffer cancelled decompress dat n")
    case (Inl e)
    with False show ?thesis by (simp add: nbt_node_new_opt_def)
  next
    case (Inr buffer)
    then have "pos buffer = 0"
      by (auto simp add: nbt_node_new_opt_buffer_def init_buffer_def Let_def
            split: option.splits if_splits)
    then have "parse_value (3 * len buffer + 2) cancelled float_to_double
                 (node_data (create_nbt TAG_End)) buffer False \<noteq> OutOfFuel"
      by (intro parse_fuel [THEN conjunct1, rule_format]) simp_all
    then show ?thesis
      unfolding nbt_node_new_opt_parsed [OF ok Inr refl]
      by (auto split: result.splits)
  qed
qed

subsection \<open>A region whose last sector is exactly full\<close>

text \<open>
  A slot of \<open>4091\<close> bytes fills sector \<open>2\<close> to its last byte.  \<open>MCA_WriteRaw_File\<close>
  moves the cursor to \<open>4\<close> and records the slot as two sectors from sector \<open>2\<close> on, in
  a file of three sectors; the first loop of \<open>MCA_ReadRaw\<close> finds the slot to end behind
  the file and returns \<open>LIBNBT_ERROR_INVALID_DATA\<close>.
\<close>

lemma length_fwrite:
  "length (bytes (fwrite ptr n fp)) = max (length (bytes fp)) (fpos fp + min n (length ptr))"
  by (auto simp add: fwrite_def min_def max_def)

lemma length_fputc: "length (bytes (fputc c fp)) = max (length (bytes fp)) (fpos fp + 1)"
  by (simp add: fputc_def length_fwrite)

lemma take_fwrite:
  "fpos fp \<le> length (bytes fp) \<Longrightarrow>
     take (fpos fp) (bytes (fwrite ptr n fp)) = take (fpos fp) (bytes fp)"
  by (simp add: fwrite_def)

lemma fwrite_inplace:
  assumes "fpos fp + min n (length ptr) \<le> length (bytes fp)"
  shows "fpos (fwrite ptr n fp) = fpos fp + min n (length ptr)
       \<and> length (bytes (fwrite ptr n fp)) = length (bytes fp)
       \<and> take (fpos fp) (bytes (fwrite ptr n fp)) = take (fpos fp) (bytes fp)"
  using assms by (simp add: fpos_fwrite length_fwrite take_fwrite)

lemma fputc_inplace:
  assumes "fpos fp + 1 \<le> length (bytes fp)"
  shows "fpos (fputc c fp) = fpos fp + 1
       \<and> length (bytes (fputc c fp)) = length (bytes fp)
       \<and> take (fpos fp) (bytes (fputc c fp)) = take (fpos fp) (bytes fp)"
  using fwrite_inplace [of fp 1 "[c]"] assms by (simp add: fputc_def)

lemma take_prefix_kept:
  assumes "take (p + m) ys = take (p + m) zs" 
  shows "take p ys = take p zs"
proof -
  have "take p ys = take p (take (p + m) ys)" by (simp add: min_def)
  also have "\<dots> = take p (take (p + m) zs)" using assms by simp
  also have "\<dots> = take p zs" by (simp add: min_def)
  finally show ?thesis .
qed

lemma fputc4_inplace:
  assumes "fpos fp + 4 \<le> length (bytes fp)"
  shows "fpos (fputc d (fputc c (fputc b (fputc a fp)))) = fpos fp + 4
       \<and> length (bytes (fputc d (fputc c (fputc b (fputc a fp))))) = length (bytes fp)
       \<and> take (fpos fp) (bytes (fputc d (fputc c (fputc b (fputc a fp)))))
           = take (fpos fp) (bytes fp)"
proof -
  let ?f1 = "fputc a fp"
  let ?f2 = "fputc b ?f1"
  let ?f3 = "fputc c ?f2"
  from assms have 1: "fpos ?f1 = fpos fp + 1" "length (bytes ?f1) = length (bytes fp)"
    "take (fpos fp) (bytes ?f1) = take (fpos fp) (bytes fp)"
    using fputc_inplace [of fp a] by simp_all
  from assms 1 have 2: "fpos ?f2 = fpos fp + 2" "length (bytes ?f2) = length (bytes fp)"
    "take (fpos fp + 1) (bytes ?f2) = take (fpos fp + 1) (bytes ?f1)"
    using fputc_inplace [of ?f1 b] by simp_all
  from assms 2 have 3: "fpos ?f3 = fpos fp + 3" "length (bytes ?f3) = length (bytes fp)"
    "take (fpos fp + 2) (bytes ?f3) = take (fpos fp + 2) (bytes ?f2)"
    using fputc_inplace [of ?f2 c] by simp_all
  from assms 3 have 4: "fpos (fputc d ?f3) = fpos fp + 4"
    "length (bytes (fputc d ?f3)) = length (bytes fp)"
    "take (fpos fp + 3) (bytes (fputc d ?f3)) = take (fpos fp + 3) (bytes ?f3)"
    using fputc_inplace [of ?f3 d] by simp_all
  have "take (fpos fp) (bytes (fputc d ?f3)) = take (fpos fp) (bytes ?f3)"
    using 4(3) by (rule take_prefix_kept)
  also have "\<dots> = take (fpos fp) (bytes ?f2)" using 3(3) by (rule take_prefix_kept)
  also have "\<dots> = take (fpos fp) (bytes ?f1)" using 2(3) by (rule take_prefix_kept)
  also have "\<dots> = take (fpos fp) (bytes fp)" using 1(3) .
  finally show ?thesis using 4(1,2) by simp
qed

lemma foldl_inplace:
  assumes step: "\<And>g i. fpos g + 4 \<le> length (bytes g) \<Longrightarrow>
                   fpos (step g i) = fpos g + 4
                 \<and> length (bytes (step g i)) = length (bytes g)
                 \<and> take (fpos g) (bytes (step g i)) = take (fpos g) (bytes g)"
    and fit: "fpos g + 4 * length xs \<le> length (bytes g)"
  shows "fpos (foldl step g xs) = fpos g + 4 * length xs
       \<and> length (bytes (foldl step g xs)) = length (bytes g)
       \<and> take (fpos g) (bytes (foldl step g xs)) = take (fpos g) (bytes g)"
  using fit
proof (induction xs arbitrary: g)
  case Nil
  show ?case by simp
next
  case (Cons x xs)
  from Cons.prems have s: "fpos g + 4 \<le> length (bytes g)" by simp
  note a = step [OF s, of x]
  from Cons.prems a have "fpos (step g x) + 4 * length xs \<le> length (bytes (step g x))" by simp
  note b = Cons.IH [OF this]
  from b a have "take (fpos g + 4) (bytes (foldl step (step g x) xs))
                 = take (fpos g + 4) (bytes (step g x))" by simp
  then have "take (fpos g) (bytes (foldl step (step g x) xs)) = take (fpos g) (bytes (step g x))"
    by (rule take_prefix_kept)
  with a b show ?case by simp
qed

lemma fputc4_at_0:
  assumes "fpos fp = 0" and "4 \<le> length (bytes fp)"
  shows "take 4 (bytes (fputc d (fputc c (fputc b (fputc a fp))))) = [a, b, c, d]"
proof -
  obtain B where B: "bytes fp = B" by simp
  from assms B obtain w x y z rest where "B = w # x # y # z # rest"
    by (cases B; cases "tl B"; cases "tl (tl B)"; cases "tl (tl (tl B))") auto
  with assms B show ?thesis
    by (simp add: fputc_def fwrite_def)
qed

lemma length_chunks_from_1: "length [1..<CHUNKS_IN_REGION] = 1023" by (simp only: length_upt; (simp)?)

lemma length_chunks: "length [0..<CHUNKS_IN_REGION] = 1024" by (simp only: length_upt; (simp)?)

lemma chunks_from_0: "[0..<CHUNKS_IN_REGION] = 0 # [1..<CHUNKS_IN_REGION]"
  using upt_conv_Cons [of 0 1024] by (simp only: One_nat_def [symmetric]; (simp)?)

lemma length_store_uint32: "length (store_uint32 t) = 4"
  by (simp add: store_uint32_def)

lemma MCA_WriteRaw_File_header:
  assumes st: "MCA_WriteRaw_File_loop m f CHUNKS_IN_REGION = (f1, cur, offs)"
    and big: "8192 \<le> length (bytes f1)"
    and full: "length (bytes f1) mod 4096 = 0"
  shows "\<exists>f6. MCA_WriteRaw_File (Some f) (Some m) now = (0, Some f6)
            \<and> length (bytes f6) = length (bytes f1)
            \<and> take 4 (bytes f6)
                = [ucast (drop_bit 24 (offs 0) AND 0xff), ucast (drop_bit 16 (offs 0) AND 0xff),
                   ucast (drop_bit 8 (offs 0) AND 0xff), ucast (offs 0 AND 0xff)]"
proof -
  define hdr where "hdr = (\<lambda>g i.
       fputc (ucast (offs i AND 0xff))
         (fputc (ucast (drop_bit 8 (offs i) AND 0xff))
           (fputc (ucast (drop_bit 16 (offs i) AND 0xff))
             (fputc (ucast (drop_bit 24 (offs i) AND 0xff)) g))))"
  define stamp where "stamp = (\<lambda>g (i :: nat). fwrite (store_uint32 (bswap_32 now)) 4 g)"
  define f2 where "f2 = fseek_SET f1 0"
  define g1 where "g1 = hdr f2 0"
  define f3 where "f3 = foldl hdr f2 [0..<CHUNKS_IN_REGION]"
  define f4 where "f4 = foldl stamp f3 [0..<CHUNKS_IN_REGION]"
  define f5 where "f5 = fseek_END f4"
  have f2: "fpos f2 = 0" "bytes f2 = bytes f1" by (simp_all add: f2_def fseek_SET_def)
  have hdr_step: "\<And>g i. fpos g + 4 \<le> length (bytes g) \<Longrightarrow>
                   fpos (hdr g i) = fpos g + 4
                 \<and> length (bytes (hdr g i)) = length (bytes g)
                 \<and> take (fpos g) (bytes (hdr g i)) = take (fpos g) (bytes g)"
    unfolding hdr_def by (rule fputc4_inplace)
  have stamp_step: "\<And>g i. fpos g + 4 \<le> length (bytes g) \<Longrightarrow>
                   fpos (stamp g i) = fpos g + 4
                 \<and> length (bytes (stamp g i)) = length (bytes g)
                 \<and> take (fpos g) (bytes (stamp g i)) = take (fpos g) (bytes g)"
    unfolding stamp_def using fwrite_inplace [of _ 4 "store_uint32 (bswap_32 now)"]
    by (simp add: length_store_uint32)
  from big f2 have fit2: "fpos f2 + 4 \<le> length (bytes f2)" by simp
  from hdr_step [OF fit2, of 0] f2 have g1: "fpos g1 = 4" "length (bytes g1) = length (bytes f1)"
    by (simp_all add: g1_def)
  from big f2 have "4 \<le> length (bytes f2)" by simp
  from fputc4_at_0 [OF f2(1) this]
  have g1h: "take 4 (bytes g1)
                = [ucast (drop_bit 24 (offs 0) AND 0xff), ucast (drop_bit 16 (offs 0) AND 0xff),
                   ucast (drop_bit 8 (offs 0) AND 0xff), ucast (offs 0 AND 0xff)]"
    by (simp add: g1_def hdr_def)
  from big g1 have fit1: "fpos g1 + 4 * length [1..<CHUNKS_IN_REGION] \<le> length (bytes g1)"
    unfolding length_chunks_from_1 by simp
  have f3_eq: "f3 = foldl hdr g1 [1..<CHUNKS_IN_REGION]"
    by (simp only: f3_def g1_def chunks_from_0 foldl_Cons)
  note foldl_inplace [of hdr, OF hdr_step fit1, unfolded length_chunks_from_1, folded f3_eq]
  with g1 have f3: "fpos f3 = 4096" "length (bytes f3) = length (bytes f1)"
    "take 4 (bytes f3) = take 4 (bytes g1)"
    by simp_all
  from big f3 have "fpos f3 + 4 * length [0..<CHUNKS_IN_REGION] \<le> length (bytes f3)"
    unfolding length_chunks by simp
  note foldl_inplace [of stamp, OF stamp_step this, unfolded length_chunks, folded f4_def]
  with f3 have f4: "length (bytes f4) = length (bytes f1)"
    "take (4 + 4092) (bytes f4) = take (4 + 4092) (bytes f3)"
    by simp_all
  from f4(2) have f4h: "take 4 (bytes f4) = take 4 (bytes f3)" by (rule take_prefix_kept)
  have f5: "bytes f5 = bytes f4" "ftell f5 = int (length (bytes f1))"
    by (simp_all add: f5_def fseek_END_def ftell_def f4)
  from full have "int (length (bytes f1) mod 4096) = 0" by simp
  then have nopad: "\<not> ftell f5 mod 4096 \<noteq> 0"
    unfolding f5(2) by (simp only: zmod_int of_nat_numeral not_not)
  have "MCA_WriteRaw_File (Some f) (Some m) now = (0, Some f5)"
    using nopad
    by (simp only: MCA_WriteRaw_File_def option.case prod.case st Let_def if_False
          hdr_def [symmetric] stamp_def [symmetric] f2_def [symmetric]
          f3_def [symmetric] f4_def [symmetric] f5_def [symmetric])
  with f5 f4 f4h f3 g1h show ?thesis by simp
qed

lemma slot_present:
  assumes raw: "rawdata mca i = Some raw"
    and len: "unat (size mca i) \<le> length raw"
    and cur: "0 \<le> current"
    and fit: "current * 4096 + int (unat (size mca i)) + 5 < 2 ^ 31"
    and short: "int (length (bytes fp)) \<le> current * 4096"
  shows "length (bytes (fst (MCA_WriteRaw_File_slot mca (fp, current, offsets) i)))
           = nat (current * 4096) + 5 + unat (size mca i)
       \<and> snd (snd (MCA_WriteRaw_File_slot mca (fp, current, offsets) i)) i
           = word_of_int (current * 256)
               OR word_of_int (and ((int (unat (size mca i)) + 5) div 4096 + 1) 0xff)"
proof -
  have small: "current * 4096 < 2 ^ 31" using fit by linarith
  have seek: "c_int (current * 4096) = current * 4096"
    using cur small by (simp add: c_int_id)
  have small8: "current * 256 < 2 ^ 31" using small cur by linarith
  have seek8: "c_int (current * 256) = current * 256"
    using cur small8 by (simp add: c_int_id)
  have nonneg: "0 \<le> current * 4096" using cur by simp
  let ?fp7 = "fwrite raw (unat (size mca i + 1 - 1))
      (fputc 2 (fputc (ucast ((size mca i + 1) AND 0xff))
        (fputc (ucast (drop_bit 8 (size mca i + 1) AND 0xff))
          (fputc (ucast (drop_bit 16 (size mca i + 1) AND 0xff))
            (fputc (ucast (drop_bit 24 (size mca i + 1) AND 0xff))
              (fseek_SET fp (current * 4096)))))))"
  have tell: "ftell ?fp7 = current * 4096 + 5 + int (unat (size mca i))"
    using len nonneg by (simp add: ftell_def fpos_fwrite fpos_fputc fpos_fseek_SET)
  have blen: "length (bytes (fseek_SET fp (current * 4096))) = length (bytes fp)"
    by (simp add: fseek_SET_def)
  have flen: "length (bytes ?fp7) = nat (current * 4096) + 5 + unat (size mca i)"
    using len nonneg short
    by (simp add: length_fwrite length_fputc fpos_fwrite fpos_fputc fpos_fseek_SET blen)
  have div: "(current * 4096 + 5 + int (unat (size mca i))) div 2 ^ 12
               = current + (int (unat (size mca i)) + 5) div 4096"
    by simp
  have "(int (unat (size mca i)) + 5) div 4096 \<le> int (unat (size mca i)) + 5"
    by (rule order_trans [OF zdiv_mono2 [of _ 1 4096]]) simp_all
  then have bound: "current + (int (unat (size mca i)) + 5) div 4096 + 1 < 2 ^ 31"
    using cur fit by linarith
  have pos: "0 \<le> (int (unat (size mca i)) + 5) div 4096"
    by (simp add: pos_imp_zdiv_nonneg_iff add_nonneg_nonneg)
  have newpos: "c_int (ftell ?fp7 div 2 ^ 12 + 1) = current + (int (unat (size mca i)) + 5) div 4096 + 1"
    unfolding tell div using cur bound pos by (intro c_int_id) linarith+
  have adv: "c_int ((int (unat (size mca i)) + 5) div 4096 + 1)
             = (int (unat (size mca i)) + 5) div 4096 + 1"
    using cur bound pos by (intro c_int_id) linarith+
  show ?thesis
    using newpos flen adv
    by (simp add: MCA_WriteRaw_File_slot_def raw seek seek8 Let_def)
qed

lemma loop_absent_slots:
  assumes "\<And>i. 0 < i \<Longrightarrow> rawdata mca i = None"
  shows "fst (MCA_WriteRaw_File_loop mca fp (Suc k)) = fst (MCA_WriteRaw_File_loop mca fp (Suc 0))
       \<and> fst (snd (MCA_WriteRaw_File_loop mca fp (Suc k)))
           = fst (snd (MCA_WriteRaw_File_loop mca fp (Suc 0)))
       \<and> snd (snd (MCA_WriteRaw_File_loop mca fp (Suc k))) 0
           = snd (snd (MCA_WriteRaw_File_loop mca fp (Suc 0))) 0"
proof (induction k)
  case 0
  show ?case by simp
next
  case (Suc k)
  obtain f c offs where st: "MCA_WriteRaw_File_loop mca fp (Suc k) = (f, c, offs)"
    by (cases "MCA_WriteRaw_File_loop mca fp (Suc k)") auto
  have "rawdata mca (Suc k) = None" by (rule assms) simp
  then have "MCA_WriteRaw_File_slot mca (f, c, offs) (Suc k) = (f, c, offs(Suc k := 0))"
    by (simp add: MCA_WriteRaw_File_slot_def)
  then have "MCA_WriteRaw_File_loop mca fp (Suc (Suc k)) = (f, c, offs(Suc k := 0))"
    using st by simp
  with Suc.IH st show ?case by simp
qed

lemma MCA_ReadRaw_offsets_loop_Inl:
  assumes "MCA_ReadRaw_offsets_loop n s b (Suc 0) = Inl e"
  shows "MCA_ReadRaw_offsets_loop n s b (Suc k) = Inl e"
  using assms by (induction k) simp_all

lemma MCA_ReadRaw_offsets_rejects:
  assumes hd: "take 4 d = [0, 0, 2, 2]" and len: "length d = 12288"
  shows "MCA_ReadRaw_offsets (Some d) (length d) False = Inl LIBNBT_ERROR_INVALID_DATA"
proof -
  let ?b = "\<lparr>data = Some d, len = 12288, pos = 0\<rparr>"
  have ib: "init_buffer (Some d) 12288 = ?b" by (rule init_buffer_small) simp
  have l: "load_uint32 d 0 = load_uint32 (take 4 d) 0"
    by (rule load_uint32_take [symmetric]) simp
  have "bswap_32 (load_uint32 [0, 0, 2, 2] 0) = 0x202" by code_simp
  then have v: "bswap_32 (load_uint32 d 0) = 0x202"
    by (simp only: l hd)
  have rd: "LIBNBT_getUint32 ?b = Some (0x202, ?b\<lparr>pos := 4\<rparr>)"
    using v by (simp add: LIBNBT_getUint32_def block_def)
  have t: "unat ((ucast (push_bit 12 ((0x202 :: guint32) AND 0xff)) :: guint64)
                  + ucast (push_bit 12 (drop_bit 8 (0x202 :: guint32)))) = 16384"
    by code_simp
  have "MCA_ReadRaw_offsets_slot 12288 False (?b, (\<lambda>_. 0)) 0 = Inl LIBNBT_ERROR_INVALID_DATA"
    using t by (simp add: MCA_ReadRaw_offsets_slot_def rd Let_def)
  then have "MCA_ReadRaw_offsets_loop 12288 False ?b (Suc 0) = Inl LIBNBT_ERROR_INVALID_DATA"
    by simp
  from MCA_ReadRaw_offsets_loop_Inl [OF this, of 1023]
  have "MCA_ReadRaw_offsets_loop 12288 False ?b CHUNKS_IN_REGION = Inl LIBNBT_ERROR_INVALID_DATA"
    by simp
  then show ?thesis by (simp add: MCA_ReadRaw_offsets_def len ib)
qed

lemma full_sector_region:
  "\<exists>f. MCA_WriteRaw_File (Some \<lparr>bytes = [], fpos = 0\<rparr>)
          (Some \<lparr>rawdata = (\<lambda>i. if i = 0 then Some (replicate 4091 0) else None),
                  size = (\<lambda>i. if i = 0 then 4091 else 0), epoch = (\<lambda>_. 0)\<rparr>) now
        = (0, Some f)
      \<and> length (bytes f) = 12288 \<and> take 4 (bytes f) = [0, 0, 2, 2]
      \<and> MCA_ReadRaw_offsets (Some (bytes f)) (length (bytes f)) False
          = Inl LIBNBT_ERROR_INVALID_DATA"
proof -
  let ?f0 = "\<lparr>bytes = [], fpos = 0\<rparr>"
  define m where "m = \<lparr>rawdata = (\<lambda>i. if i = 0 then Some (replicate 4091 (0 :: guint8)) else None),
                  size = (\<lambda>i. if i = 0 then 4091 else 0), epoch = (\<lambda>_. 0)\<rparr>"
  have raw: "rawdata m 0 = Some (replicate 4091 0)" and sz: "unat (size m 0) = 4091"
    and absent: "\<And>i. 0 < i \<Longrightarrow> rawdata m i = None"
    by (simp_all add: m_def)
  have one: "MCA_WriteRaw_File_loop m ?f0 (Suc 0)
             = MCA_WriteRaw_File_slot m (?f0, 2, (\<lambda>_. 0)) 0" by simp
  have "length (bytes (fst (MCA_WriteRaw_File_slot m (?f0, 2, (\<lambda>_. 0)) 0)))
           = nat (2 * 4096) + 5 + unat (size m 0)
       \<and> snd (snd (MCA_WriteRaw_File_slot m (?f0, 2, (\<lambda>_. 0)) 0)) 0
           = word_of_int (2 * 256)
               OR word_of_int (and ((int (unat (size m 0)) + 5) div 4096 + 1) 0xff)"
    by (rule slot_present [OF raw]) (simp_all add: sz)
  then have l1: "length (bytes (fst (MCA_WriteRaw_File_loop m ?f0 (Suc 0)))) = 12288"
    and o1: "snd (snd (MCA_WriteRaw_File_loop m ?f0 (Suc 0))) 0
           = word_of_int (2 * 256) OR word_of_int (and ((4091 + 5) div 4096 + 1) 0xff)"
    unfolding one sz by simp_all
  have w: "(word_of_int (2 * 256) OR word_of_int (and ((4091 + 5) div 4096 + 1) 0xff) :: guint32)
           = 0x202" by code_simp
  obtain f1 cur offs where st: "MCA_WriteRaw_File_loop m ?f0 CHUNKS_IN_REGION = (f1, cur, offs)"
    by (cases "MCA_WriteRaw_File_loop m ?f0 CHUNKS_IN_REGION") auto
  have s: "Suc 1023 = CHUNKS_IN_REGION" by simp
  from loop_absent_slots [of m ?f0 1023, OF absent, unfolded s st] l1 o1 w
  have f1: "length (bytes f1) = 12288" and offs: "offs 0 = 0x202" by simp_all
  from f1 have big: "8192 \<le> length (bytes f1)" and full: "length (bytes f1) mod 4096 = 0"
    by simp_all
  have b: "[ucast (drop_bit 24 (0x202 :: guint32) AND 0xff), ucast (drop_bit 16 (0x202 :: guint32) AND 0xff),
            ucast (drop_bit 8 (0x202 :: guint32) AND 0xff), ucast ((0x202 :: guint32) AND 0xff)]
           = [0, 0, 2, 2 :: guint8]" by code_simp
  from MCA_WriteRaw_File_header [OF st big full, of now]
  obtain f6 where wr: "MCA_WriteRaw_File (Some ?f0) (Some m) now = (0, Some f6)"
    and len: "length (bytes f6) = 12288" and hd: "take 4 (bytes f6) = [0, 0, 2, 2]"
    unfolding offs b f1 by blast
  from MCA_ReadRaw_offsets_rejects [OF hd len] wr len hd show ?thesis
    unfolding m_def by blast
qed

theorem C9_cursor_witness:
  "fst (snd (MCA_WriteRaw_File_loop
       \<lparr>rawdata = (\<lambda>i. if i = 0 then Some (replicate 4091 0) else None),
        size = (\<lambda>i. if i = 0 then 4091 else 0), epoch = (\<lambda>_. 0)\<rparr>
       \<lparr>bytes = [], fpos = 0\<rparr> (Suc 0))) = 4
   \<and> 2 + (4091 + 5 + 4095) div 4096 = (3 :: int)
   \<and> (\<exists>f. MCA_WriteRaw_File (Some \<lparr>bytes = [], fpos = 0\<rparr>)
            (Some \<lparr>rawdata = (\<lambda>i. if i = 0 then Some (replicate 4091 0) else None),
                    size = (\<lambda>i. if i = 0 then 4091 else 0), epoch = (\<lambda>_. 0)\<rparr>) 0
          = (0, Some f)
        \<and> length (bytes f) = 12288 \<and> take 4 (bytes f) = [0, 0, 2, 2]
        \<and> MCA_ReadRaw_offsets (Some (bytes f)) (length (bytes f)) False
            = Inl LIBNBT_ERROR_INVALID_DATA)
   \<and> fst (snd (MCA_WriteRaw_File_loop
       \<lparr>rawdata = (\<lambda>i. if i = 0 then Some [1, 2, 3] else None),
        size = (\<lambda>i. if i = 0 then 3 else 0), epoch = (\<lambda>_. 0)\<rparr>
       \<lparr>bytes = [], fpos = 0\<rparr> (Suc 0))) = 3
   \<and> fst (snd (MCA_WriteRaw_File_loop
       \<lparr>rawdata = (\<lambda>i. if i = 0 then Some [1, 2, 3] else None),
        size = (\<lambda>i. if i = 0 then 3 else 0), epoch = (\<lambda>_. 0)\<rparr>
       \<lparr>bytes = [], fpos = 0\<rparr> (Suc (Suc 0)))) = 3"
proof -
  let ?w = "\<lparr>rawdata = (\<lambda>i. if i = 0 then Some (replicate 4091 (0 :: guint8)) else None),
        size = (\<lambda>i. if i = 0 then 4091 else 0), epoch = (\<lambda>_. 0)\<rparr>"
  let ?m = "\<lparr>rawdata = (\<lambda>i. if i = 0 then Some [1, 2, 3 :: guint8] else None),
        size = (\<lambda>i. if i = 0 then 3 else 0), epoch = (\<lambda>_. 0)\<rparr>"
  let ?f = "\<lparr>bytes = [], fpos = 0\<rparr>"
  have four: "fst (snd (MCA_WriteRaw_File_loop ?w ?f (Suc 0))) = 4"
    using C9_cursor [of ?w ?f 0 "replicate 4091 0"] by simp
  have one: "fst (snd (MCA_WriteRaw_File_loop ?m ?f (Suc 0))) = 3"
    using C9_cursor [of ?m ?f 0 "[1, 2, 3]"] by simp
  have two: "fst (snd (MCA_WriteRaw_File_loop ?m ?f (Suc (Suc 0)))) =
               fst (snd (MCA_WriteRaw_File_loop ?m ?f (Suc 0)))"
    using C9_cursor [of ?m ?f "Suc 0" "[]"] by simp
  have ceil: "2 + (4091 + 5 + 4095) div 4096 = (3 :: int)" by simp
  from four ceil full_sector_region [of 0] one two show ?thesis
    by (simp only: simp_thms)
qed

end
